(* ===== verification/Prelude.thy ===== *)
theory Prelude
  imports Main "HOL-Library.List_Lexorder" "HOL-Library.Char_ord" "HOL-Library.Sublist"
    "HOL-Library.Multiset" "HOL-Library.AList"
begin

text \<open>
  What every component shares: the automation collections of the development, the Go
  constructs the program uses (a \<open>for range\<close> loop that returns on the first error, slice
  indexing that panics, 32-bit integers that wrap, \<open>map[string]T\<close> as a list of entries,
  \<open>strconv.Atoi\<close> and \<open>%d\<close>, \<open>sort.Slice\<close> by name) and the generic lemmas about them.
\<close>

named_theorems go_eval \<open>equations that run a modelled handler step by step\<close>
named_theorems range_arith \<open>facts that discharge the 32-bit wrap-around\<close>

section \<open>Loops\<close>

text \<open>
  A Go \<open>for _, x := range xs\<close> whose body updates the state and may return an error, which
  leaves the loop at once.
\<close>

primrec loop :: "('a \<Rightarrow> 's \<Rightarrow> 'e + 's) \<Rightarrow> 'a list \<Rightarrow> 's \<Rightarrow> 'e + 's" where
  "loop f [] s = Inr s"
| "loop f (x # xs) s = (case f x s of Inl e \<Rightarrow> Inl e | Inr s' \<Rightarrow> loop f xs s')"

lemma loop_append [simp]:
  "loop f (xs @ ys) s = (case loop f xs s of Inl e \<Rightarrow> Inl e | Inr s' \<Rightarrow> loop f ys s')"
  by (induction xs arbitrary: s) (auto split: sum.splits)

lemma loop_cong [fundef_cong]:
  "xs = ys \<Longrightarrow> s = t \<Longrightarrow> (\<And>x u. x \<in> set ys \<Longrightarrow> f x u = g x u) \<Longrightarrow> loop f xs s = loop g ys t"
  by (induction xs arbitrary: s t ys) (auto split: sum.splits)

lemma loop_invariant:
  assumes "loop f xs s = Inr t" and "P s"
    and "\<And>x u v. x \<in> set xs \<Longrightarrow> P u \<Longrightarrow> f x u = Inr v \<Longrightarrow> P v"
  shows "P t"
  using assms
proof (induction xs arbitrary: s)
  case (Cons x xs)
  from Cons.prems(1) obtain v where v: "f x s = Inr v" and l: "loop f xs v = Inr t"
    by (auto split: sum.splits)
  have "P v" using Cons.prems(2) v by (rule Cons.prems(3) [rotated]) simp
  moreover have "\<And>y u w. y \<in> set xs \<Longrightarrow> P u \<Longrightarrow> f y u = Inr w \<Longrightarrow> P w"
    by (rule Cons.prems(3)) simp_all
  ultimately show ?case by (rule Cons.IH [OF l])
qed simp

text \<open>An error of the loop is an error of one of its iterations, in a state that satisfies
  the invariant.\<close>

lemma loop_error:
  assumes "loop f xs s = Inl e" and "P s"
    and "\<And>x u v. x \<in> set xs \<Longrightarrow> P u \<Longrightarrow> f x u = Inr v \<Longrightarrow> P v"
  shows "\<exists>x \<in> set xs. \<exists>u. P u \<and> f x u = Inl e"
  using assms
proof (induction xs arbitrary: s)
  case (Cons x xs)
  show ?case
  proof (cases "f x s")
    case (Inl d)
    with Cons.prems(1,2) show ?thesis by auto
  next
    case (Inr v)
    have "P v" using Cons.prems(2) Inr by (rule Cons.prems(3) [rotated]) simp
    moreover have "loop f xs v = Inl e" using Cons.prems(1) Inr by simp
    moreover have "\<And>y u w. y \<in> set xs \<Longrightarrow> P u \<Longrightarrow> f y u = Inr w \<Longrightarrow> P w"
      by (rule Cons.prems(3)) simp_all
    ultimately have "\<exists>x \<in> set xs. \<exists>u. P u \<and> f x u = Inl e" by (intro Cons.IH)
    then show ?thesis by simp
  qed
qed simp

text \<open>A loop whose body cannot fail is a fold.\<close>

lemma loop_total: "(\<And>x u. x \<in> set xs \<Longrightarrow> f x u = Inr (g x u)) \<Longrightarrow> loop f xs s = Inr (fold g xs s)"
  by (induction xs arbitrary: s) auto

section \<open>Machine integers\<close>

text \<open>
  Go's \<open>int32\<close> arithmetic wraps around in two's complement; \<open>i32\<close> is the conversion
  \<open>int32(x)\<close>, and every 32-bit operation of the source is wrapped in it. Go's \<open>int\<close> has 64
  bits on every platform the controller is built for; sums and differences of a few 32-bit values
  are exact there, so they are taken in \<open>int\<close>, and a sum over all roles is wrapped in \<open>i64\<close>.
\<close>

definition i32 :: "int \<Rightarrow> int" where
  "i32 x = (x + 2147483648) mod 4294967296 - 2147483648"

definition in_i32 :: "int \<Rightarrow> bool" where
  "in_i32 x \<longleftrightarrow> - 2147483648 \<le> x \<and> x < 2147483648"

lemma i32_id [range_arith, simp]: "in_i32 x \<Longrightarrow> i32 x = x"
  by (auto simp: i32_def in_i32_def)

lemma i32_in_range [simp]: "in_i32 (i32 x)"
  unfolding i32_def in_i32_def
  using pos_mod_sign [of 4294967296 "x + 2147483648"] pos_mod_bound [of 4294967296 "x + 2147483648"]
  by linarith

lemma i32_idem [simp]: "i32 (i32 x) = i32 x"
  by simp

lemma i32_max_overflow: "i32 (2147483647 + 1) = - 2147483648"
  by (simp add: i32_def)

definition i64 :: "int \<Rightarrow> int" where
  "i64 x = (x + 9223372036854775808) mod 18446744073709551616 - 9223372036854775808"

lemma i64_zero [simp]: "i64 0 = 0"
  by (simp add: i64_def)

lemma i64_add [simp]: "i64 (i64 a + b) = i64 (a + b)" "i64 (a + i64 b) = i64 (a + b)"
  by (simp_all add: i64_def mod_diff_left_eq mod_add_left_eq mod_add_right_eq algebra_simps)

lemma i64_id: "- 9223372036854775808 \<le> x \<Longrightarrow> x < 9223372036854775808 \<Longrightarrow> i64 x = x"
  by (simp add: i64_def)

lemma i32_i64 [simp]: "i32 (i64 x) = i32 x"
proof -
  let ?q = "(x + 9223372036854775808) div 18446744073709551616"
  have "i64 x + 2147483648 = (x + 2147483648) + (- (4294967296 * ?q)) * 4294967296"
    unfolding i64_def using mult_div_mod_eq [of 18446744073709551616 "x + 9223372036854775808"] by linarith
  then have "(i64 x + 2147483648) mod 4294967296 = (x + 2147483648) mod 4294967296" by (metis mod_mult_self1)
  then show ?thesis by (simp add: i32_def)
qed

section \<open>Slices\<close>

text \<open>
  \<open>xs[i]\<close> on a Go slice: an index outside the slice is a run-time panic, here \<open>None\<close>, which
  each use turns into its error value.
\<close>

definition slice_at :: "'a list \<Rightarrow> int \<Rightarrow> 'a option" where
  "slice_at xs i = (if 0 \<le> i \<and> i < int (length xs) then Some (xs ! nat i) else None)"

lemma slice_at_None_iff [simp]: "slice_at xs i = None \<longleftrightarrow> i < 0 \<or> int (length xs) \<le> i"
  by (auto simp: slice_at_def)

lemma slice_at_nat [simp]: "i < length xs \<Longrightarrow> slice_at xs (int i) = Some (xs ! i)"
  by (simp add: slice_at_def)

lemma slice_at_in_range: "0 \<le> i \<Longrightarrow> i < int (length xs) \<Longrightarrow> slice_at xs i = Some (xs ! nat i)"
  by (simp add: slice_at_def)

section \<open>Maps\<close>

text \<open>
  A Go \<open>map[string]T\<close> is the list of its entries in one iteration order; the order is not
  specified by the language, so a result that must not depend on it is proved equal for every
  permutation of the entries. \<open>gm_set\<close> is the assignment \<open>m[k] = v\<close>, \<open>gm_get\<close> the two-value
  lookup. A \<open>map[string]string\<close> that may be nil is a \<open>strmap\<close>, nil being \<open>None\<close>.
\<close>

type_synonym 'v gomap = "(string \<times> 'v) list"
type_synonym strmap = "string gomap option"

abbreviation gm_get :: "'v gomap \<Rightarrow> string \<Rightarrow> 'v option" where
  "gm_get m k \<equiv> map_of m k"

abbreviation gm_set :: "string \<Rightarrow> 'v \<Rightarrow> 'v gomap \<Rightarrow> 'v gomap" where
  "gm_set k v m \<equiv> AList.update k v m"

definition gm_ok :: "'v gomap \<Rightarrow> bool" where
  "gm_ok m \<longleftrightarrow> distinct (map fst m)"

lemma gm_ok_Nil [simp]: "gm_ok []"
  by (simp add: gm_ok_def)

lemma gm_ok_set [simp, intro]: "gm_ok m \<Longrightarrow> gm_ok (gm_set k v m)"
  by (simp add: gm_ok_def distinct_update)

lemma gm_set_entries: "set (gm_set k v m) \<subseteq> insert (k, v) (set m)"
  by (induction m) auto

lemma gm_get_set: "gm_get (gm_set k v m) k' = (if k' = k then Some v else gm_get m k')"
  by (simp add: update_conv')

lemma gm_get_perm:
  assumes "gm_ok m" and "mset m = mset m'"
  shows "gm_get m = gm_get m'"
proof (rule map_of_eqI)
  from assms(2) show "set (map fst m) = set (map fst m')"
    by (metis mset_map set_mset_mset)
  have ok': "distinct (map fst m')"
    using assms by (metis gm_ok_def mset_eq_imp_distinct_iff mset_map)
  show "\<forall>k \<in> set (map fst m). map_of m k = map_of m' k"
    using assms ok' by (metis gm_ok_def map_of_eq_Some_iff mset_eq_setD not_None_eq)
qed

text \<open>Reading a string map: a missing key, like a nil map, gives the empty string.\<close>

fun sm_get :: "strmap \<Rightarrow> string \<Rightarrow> string" where
  "sm_get None k = []"
| "sm_get (Some m) k = (case gm_get m k of None \<Rightarrow> [] | Some v \<Rightarrow> v)"

fun sm_entries :: "strmap \<Rightarrow> string gomap" where
  "sm_entries None = []"
| "sm_entries (Some m) = m"

section \<open>Sorting by a string key\<close>

text \<open>
  \<open>sort.Strings\<close> and \<open>sort.Slice\<close> with \<open>a.Name < b.Name\<close>: byte-wise order on the key. Go's
  \<open>sort.Slice\<close> promises a sorted permutation; with distinct keys there is only one, so the
  library's \<open>sort_key\<close> is that function. (With equal keys the source leaves their order to the
  implementation, whose insertion sort for up to twelve elements is stable, as \<open>sort_key\<close> is.)
\<close>

lemma sorted_perm_unique:
  fixes k :: "'a \<Rightarrow> 'b::linorder"
  assumes "mset ys = mset xs" and "sorted (map k ys)" and "distinct (map k xs)"
  shows "ys = sort_key k xs"
proof (rule map_sorted_distinct_set_unique [where f = k])
  have seteq: "set ys = set xs" using assms(1) by (metis set_mset_mset)
  show "inj_on k (set ys \<union> set (sort_key k xs))"
    using assms(3) seteq by (simp add: distinct_map)
  show "sorted (map k ys)" by fact
  have "mset (map k ys) = mset (map k xs)" using assms(1) by simp
  then show "distinct (map k ys)" using assms(3) by (metis mset_eq_imp_distinct_iff)
  show "distinct (map k (sort_key k xs))"
    using assms(3) by (simp add: distinct_map)
qed (use assms(1) in \<open>auto dest: mset_eq_setD\<close>)

lemma sort_key_perm:
  fixes k :: "'a \<Rightarrow> 'b::linorder"
  assumes "mset ys = mset xs" and "distinct (map k xs)"
  shows "sort_key k ys = sort_key k xs"
  using assms by (intro sorted_perm_unique) simp_all

section \<open>Decimal numbers\<close>

text \<open>\<open>fmt.Sprintf("%d", n)\<close> and \<open>strconv.Atoi\<close>, which accepts one sign, then decimal digits
  only, and fails when the value does not fit in 64 bits.\<close>

fun show_nat :: "nat \<Rightarrow> string" where
  "show_nat n = (if n < 10 then [char_of (48 + n)] else show_nat (n div 10) @ [char_of (48 + n mod 10)])"

declare show_nat.simps [simp del]

definition show_int :: "int \<Rightarrow> string" where
  "show_int n = (if n < 0 then CHR ''-'' # show_nat (nat (- n)) else show_nat (nat n))"

definition is_digit :: "char \<Rightarrow> bool" where
  "is_digit c \<longleftrightarrow> 48 \<le> (of_char c :: nat) \<and> (of_char c :: nat) \<le> 57"

definition digits_value :: "string \<Rightarrow> nat" where
  "digits_value ds = foldl (\<lambda>acc c. 10 * acc + (of_char c - 48)) 0 ds"

definition atoi_sign :: "int \<Rightarrow> string \<Rightarrow> int option" where
  "atoi_sign sg ds =
     (if ds = [] \<or> \<not> list_all is_digit ds then None
      else let v = sg * int (digits_value ds)
           in if - 9223372036854775808 \<le> v \<and> v < 9223372036854775808 then Some v else None)"

fun atoi :: "string \<Rightarrow> int option" where
  "atoi [] = None"
| "atoi (c # cs) =
     (if c = CHR ''-'' then atoi_sign (- 1) cs
      else if c = CHR ''+'' then atoi_sign 1 cs
      else atoi_sign 1 (c # cs))"

lemma show_nat_digits: "list_all is_digit (show_nat n)"
  by (induction n rule: show_nat.induct) (subst show_nat.simps, auto simp: is_digit_def list_all_iff)

lemma show_nat_neq_Nil [simp]: "show_nat n \<noteq> []"
  by (subst show_nat.simps) simp

lemma digits_value_snoc [simp]: "digits_value (ds @ [c]) = 10 * digits_value ds + (of_char c - 48)"
  by (simp add: digits_value_def)

lemma digits_value_show_nat [simp]: "digits_value (show_nat n) = n"
proof (induction n rule: show_nat.induct)
  case (1 n)
  show ?case
  proof (cases "n < 10")
    case True
    then show ?thesis by (subst show_nat.simps) (simp add: digits_value_def)
  next
    case False
    with 1 have "digits_value (show_nat (n div 10)) = n div 10" by simp
    then show ?thesis using False by (subst show_nat.simps) simp
  qed
qed

lemma atoi_show_int:
  assumes "- 9223372036854775808 \<le> n" and "n < 9223372036854775808"
  shows "atoi (show_int n) = Some n"
proof (cases "n < 0")
  case True
  then show ?thesis using assms by (simp add: show_int_def atoi_sign_def show_nat_digits)
next
  case False
  obtain c cs where s: "show_nat (nat n) = c # cs" by (cases "show_nat (nat n)") auto
  then have "is_digit c" using show_nat_digits [of "nat n"] by simp
  then have "c \<noteq> CHR ''-''" and "c \<noteq> CHR ''+''" by (auto simp: is_digit_def)
  moreover have "atoi_sign 1 (show_nat (nat n)) = Some n"
    using False assms by (simp add: atoi_sign_def show_nat_digits)
  ultimately show ?thesis using False s by (simp add: show_int_def)
qed

corollary atoi_show_i32: "in_i32 n \<Longrightarrow> atoi (show_int n) = Some n"
  by (rule atoi_show_int) (simp_all add: in_i32_def)

end
