(* ===== verification/Api_Types.thy ===== *)
theory Api_Types
  imports Prelude
begin

text \<open>
  The data of the program: the Kubernetes objects it reads and writes, the custom resources of
  \<open>api/workloads/v1alpha1\<close> and the methods of \<open>helper.go\<close>. A pointer that may be nil is an
  option, an \<open>int32\<close> is an \<open>int\<close> in the 32-bit range (\<open>in_i32\<close>), a \<open>map[string]string\<close> is a
  \<open>strmap\<close>. Of a Kubernetes type (package \<open>k8s.io/api\<close>, not part of the repository) a record has
  the fields the program reads or writes and one opaque field for all others, so that two values
  of the record are equal exactly when the Go values are.
\<close>

section \<open>Errors\<close>

text \<open>
  Errors returned by the API server through the client, and the errors of the program. A run-time
  panic of Go (a nil pointer dereference, an index out of range) is an error value too, which no
  \<open>if err != nil\<close> of the source can catch.
\<close>

datatype api_error = NotFound | Conflict | ApiOther string

datatype panic = NilDereference | IndexOutOfRange | MakeSliceNegative

datatype go_error =
    Api api_error
  | Panic panic
  | DecodeError
  | RoleNameEmpty
  | RoleNotFound string
  | DependencyRoleMissing string string
  | CycleDetected "string list"
  | OutOfFuel
  | SortRolesFailed go_error
  | UnsupportedWorkload string
  | InvalidNumber string
  | InvalidPercent string
  | NoRevision string
  | InvalidRollout
  | NotEqual string
  | CrdNotEstablished string
  | GetStsFailed go_error
  | InjectConfigFailed go_error
  | InjectSidecarFailed go_error
  | InjectEnvFailed go_error
  | GetRuntimeFailed string go_error
  | EngineRuntimeFailed string go_error
  | DeleteFailed string go_error
  | LibError string
  | SelectorMissing
  | SelectorNotMap
  | SelectorNotConverted string
  | WrapGetRbg string go_error
  | WrapGetRole string string go_error
  | CreateRbgFailed go_error
  | Aggregate "go_error list"
  | PollTimeout

type_synonym 'a res = "go_error + 'a"

text \<open>\<open>apierrors.IsNotFound\<close>, \<open>IsConflict\<close> on an error as the client returned it.\<close>

definition is_not_found :: "go_error \<Rightarrow> bool" where
  "is_not_found e \<longleftrightarrow> e = Api NotFound"

definition is_conflict :: "go_error \<Rightarrow> bool" where
  "is_conflict e \<longleftrightarrow> e = Api Conflict"

fun is_panic :: "go_error \<Rightarrow> bool" where
  "is_panic (Panic p) = True"
| "is_panic _ = False"

text \<open>Dereferencing a pointer, \<open>*p\<close>.\<close>

fun deref :: "'a option \<Rightarrow> 'a res" where
  "deref None = Inl (Panic NilDereference)"
| "deref (Some x) = Inr x"

section \<open>Kubernetes objects\<close>

record owner_ref =
  or_api_version :: string
  or_kind :: string
  or_name :: string
  or_uid :: string
  or_controller :: "bool option"
  or_block_owner_deletion :: "bool option"

record object_meta =
  om_name :: string
  om_namespace :: string
  om_generate_name :: string
  om_uid :: string
  om_labels :: strmap
  om_annotations :: strmap
  om_owners :: "owner_ref list"
  om_deletion :: "string option"

definition empty_meta :: object_meta where
  "empty_meta = \<lparr>om_name = [], om_namespace = [], om_generate_name = [], om_uid = [],
     om_labels = None, om_annotations = None, om_owners = [], om_deletion = None\<rparr>"

datatype env_source = FieldRef string | OtherSource string

record env_var =
  ev_name :: string
  ev_value :: string
  ev_value_from :: "env_source option"

record volume_mount =
  vm_name :: string
  vm_mount_path :: string
  vm_read_only :: bool
  vm_other :: string

datatype volume_source =
    ConfigMapSource string "(string \<times> string) list"
  | OtherVolume string

record volume =
  v_name :: string
  v_source :: volume_source

record service_port =
  sp_name :: string
  sp_port :: int
  sp_other :: string

record container =
  c_name :: string
  c_image :: string
  c_command :: "string list option"
  c_args :: "string list option"
  c_ports :: "string list option"
  c_resources :: string
  c_pull_policy :: string
  c_env :: "env_var list"
  c_mounts :: "volume_mount list"
  c_other :: string

record pod_spec =
  ps_init_containers :: "container list"
  ps_containers :: "container list"
  ps_volumes :: "volume list"
  ps_other :: string

record pod_template =
  pt_meta :: object_meta
  pt_spec :: pod_spec

datatype int_or_string = IntVal int | StrVal string

section \<open>The RoleBasedGroup resource\<close>

record rolling_update =
  ru_max_unavailable :: int_or_string
  ru_max_surge :: int_or_string

record rollout_strategy =
  rs_type :: string
  rs_rolling_update :: "rolling_update option"

record workload_spec =
  ws_api_version :: string
  ws_kind :: string

record engine_runtime =
  er_profile_name :: string
  er_inject_containers :: "string list"
  er_containers :: "container list"

record leader_worker_template =
  lt_size :: "int option"
  lt_patch_leader :: "string option"
  lt_patch_worker :: "string option"

record scaling_adapter_spec =
  sa_enable :: bool

record role_spec =
  r_name :: string
  r_replicas :: "int option"
  r_rollout_strategy :: "rollout_strategy option"
  r_restart_policy :: string
  r_dependencies :: "string list"
  r_workload :: workload_spec
  r_template :: pod_template
  r_leader_worker_set :: leader_worker_template
  r_service_ports :: "service_port list"
  r_engine_runtimes :: "engine_runtime list"
  r_scaling_adapter :: "scaling_adapter_spec option"

record kube_scheduling_policy =
  ks_schedule_timeout :: "int option"

record pod_group_policy =
  pg_kube_scheduling :: "kube_scheduling_policy option"

datatype condition_status = ConditionTrue | ConditionFalse | ConditionUnknown

record condition =
  cd_type :: string
  cd_status :: condition_status
  cd_reason :: string
  cd_message :: string
  cd_last_transition :: nat

record role_status =
  st_name :: string
  st_ready_replicas :: int
  st_replicas :: int

record rbg_status =
  gs_observed_generation :: int
  gs_conditions :: "condition list"
  gs_role_statuses :: "role_status list"

record rbg_spec =
  gp_roles :: "role_spec list"
  gp_pod_group_policy :: "pod_group_policy option"

record rbg =
  g_api_version :: string
  g_kind :: string
  g_meta :: object_meta
  g_spec :: rbg_spec
  g_status :: rbg_status

abbreviation g_name :: "rbg \<Rightarrow> string" where "g_name g \<equiv> om_name (g_meta g)"
abbreviation g_namespace :: "rbg \<Rightarrow> string" where "g_namespace g \<equiv> om_namespace (g_meta g)"
abbreviation g_uid :: "rbg \<Rightarrow> string" where "g_uid g \<equiv> om_uid (g_meta g)"
abbreviation g_roles :: "rbg \<Rightarrow> role_spec list" where "g_roles g \<equiv> gp_roles (g_spec g)"

section \<open>Scaling adapters, group sets and runtime profiles\<close>

datatype adapter_phase = AdapterPhaseNone | AdapterPhaseNotBound | AdapterPhaseBound

record adapter_scale_target_ref =
  tr_name :: string
  tr_role :: string

record adapter_spec =
  as_replicas :: "int option"
  as_scale_target_ref :: "adapter_scale_target_ref option"

record adapter_status =
  at_phase :: adapter_phase
  at_replicas :: "int option"
  at_selector :: string
  at_last_scale_time :: "nat option"

record scaling_adapter =
  ad_api_version :: string
  ad_kind :: string
  ad_meta :: object_meta
  ad_spec :: adapter_spec
  ad_status :: adapter_status

record rbg_set_spec =
  gss_replicas :: "int option"
  gss_template :: rbg_spec

record rbg_set =
  set_meta :: object_meta
  set_spec :: rbg_set_spec

record runtime_profile_spec =
  rp_init_containers :: "container list"
  rp_containers :: "container list"
  rp_volumes :: "volume list"
  rp_update_strategy :: string

record runtime_profile =
  rp_meta :: object_meta
  rp_spec :: runtime_profile_spec

end
