(* ===== verification/Api_Helpers.thy ===== *)
theory Api_Helpers
  imports Api_Types
begin

text \<open>
  The constants of \<open>constant.go\<close> and the methods of \<open>helper.go\<close> and \<open>rolebasedgroup_types.go\<close>:
  names, labels and annotations derived from a role, the size of a group, the lookups of a role
  and of its status.
\<close>

section \<open>Constants\<close>

definition RBGDomainPrefix :: string where
  "RBGDomainPrefix = ''rolebasedgroup.workloads.x-k8s.io/''"

definition SetNameLabelKey :: string where
  "SetNameLabelKey = RBGDomainPrefix @ ''name''"

definition SetRoleLabelKey :: string where
  "SetRoleLabelKey = RBGDomainPrefix @ ''role''"

definition PodGroupLabelKey :: string where
  "PodGroupLabelKey = ''pod-group.scheduling.sigs.k8s.io/name''"

definition RoleSizeAnnotationKey :: string where
  "RoleSizeAnnotationKey = RBGDomainPrefix @ ''role-size''"

definition RollingUpdateStrategyType :: string where
  "RollingUpdateStrategyType = ''RollingUpdate''"

definition NoneRestartPolicy :: string where
  "NoneRestartPolicy = ''None''"

definition RecreateRBGOnPodRestart :: string where
  "RecreateRBGOnPodRestart = ''RecreateRBGOnPodRestart''"

definition RecreateRoleInstanceOnPodRestart :: string where
  "RecreateRoleInstanceOnPodRestart = ''RecreateRoleInstanceOnPodRestart''"

definition DeploymentWorkloadType :: string where
  "DeploymentWorkloadType = ''apps/v1/Deployment''"

definition StatefulSetWorkloadType :: string where
  "StatefulSetWorkloadType = ''apps/v1/StatefulSet''"

definition LeaderWorkerSetWorkloadType :: string where
  "LeaderWorkerSetWorkloadType = ''leaderworkerset.x-k8s.io/v1/LeaderWorkerSet''"

definition RoleBasedGroupReady :: string where
  "RoleBasedGroupReady = ''Ready''"

definition RoleBasedGroupRestartInProgress :: string where
  "RoleBasedGroupRestartInProgress = ''RestartInProgress''"

lemmas label_key_defs = RBGDomainPrefix_def SetNameLabelKey_def SetRoleLabelKey_def
  RoleSizeAnnotationKey_def PodGroupLabelKey_def

lemmas workload_type_defs = DeploymentWorkloadType_def StatefulSetWorkloadType_def
  LeaderWorkerSetWorkloadType_def

lemma label_keys_distinct [simp]:
  "SetNameLabelKey \<noteq> SetRoleLabelKey" "SetRoleLabelKey \<noteq> SetNameLabelKey"
  "PodGroupLabelKey \<noteq> SetNameLabelKey" "PodGroupLabelKey \<noteq> SetRoleLabelKey"
  by (simp_all add: label_key_defs)

section \<open>Methods of the resource types\<close>

definition workload_string :: "workload_spec \<Rightarrow> string" where
  "workload_string w = ws_api_version w @ ''/'' @ ws_kind w"

definition get_common_labels :: "rbg \<Rightarrow> role_spec \<Rightarrow> string gomap" where
  "get_common_labels g r = [(SetNameLabelKey, g_name g), (SetRoleLabelKey, r_name r)]"

definition get_common_annotations :: "rbg \<Rightarrow> role_spec \<Rightarrow> string gomap res" where
  "get_common_annotations g r =
     (case deref (r_replicas r) of
        Inl e \<Rightarrow> Inl e
      | Inr n \<Rightarrow> Inr [(RoleSizeAnnotationKey, show_int n)])"

definition group_size_step :: "role_spec \<Rightarrow> int \<Rightarrow> int res" where
  "group_size_step r ret =
     (if workload_string (r_workload r) = LeaderWorkerSetWorkloadType then
        (case deref (lt_size (r_leader_worker_set r)) of
           Inl e \<Rightarrow> Inl e
         | Inr sz \<Rightarrow>
             (case deref (r_replicas r) of Inl e \<Rightarrow> Inl e | Inr n \<Rightarrow> Inr (i64 (ret + i64 (sz * n)))))
      else (case deref (r_replicas r) of Inl e \<Rightarrow> Inl e | Inr n \<Rightarrow> Inr (i64 (ret + n))))"

definition get_group_size :: "rbg \<Rightarrow> int res" where
  "get_group_size g = loop group_size_step (g_roles g) 0"

definition get_workload_name :: "rbg \<Rightarrow> role_spec \<Rightarrow> string" where
  "get_workload_name g r = g_name g @ ''-'' @ r_name r"

definition get_role :: "rbg \<Rightarrow> string \<Rightarrow> role_spec res" where
  "get_role g name =
     (if name = [] then Inl RoleNameEmpty
      else case find (\<lambda>r. r_name r = name) (g_roles g) of
             None \<Rightarrow> Inl (RoleNotFound name)
           | Some r \<Rightarrow> Inr r)"

definition zero_role_status :: role_status where
  "zero_role_status = \<lparr>st_name = [], st_ready_replicas = 0, st_replicas = 0\<rparr>"

definition get_role_status :: "rbg \<Rightarrow> string \<Rightarrow> role_status \<times> bool" where
  "get_role_status g name =
     (if name = [] then (zero_role_status, False)
      else case find (\<lambda>s. st_name s = name) (gs_role_statuses (g_status g)) of
             None \<Rightarrow> (zero_role_status, False)
           | Some s \<Rightarrow> (s, True))"

definition enable_gang_scheduling :: "rbg \<Rightarrow> bool" where
  "enable_gang_scheduling g =
     (case gp_pod_group_policy (g_spec g) of
        None \<Rightarrow> False
      | Some p \<Rightarrow> pg_kube_scheduling p \<noteq> None)"

definition contains_rbg_owner :: "scaling_adapter \<Rightarrow> rbg \<Rightarrow> bool" where
  "contains_rbg_owner a g = (\<exists>ow \<in> set (om_owners (ad_meta a)). or_uid ow = g_uid g)"

text \<open>The owner reference the controller puts on everything it applies.\<close>

definition rbg_controller_ref :: "rbg \<Rightarrow> owner_ref" where
  "rbg_controller_ref g = \<lparr>or_api_version = g_api_version g, or_kind = g_kind g, or_name = g_name g,
     or_uid = g_uid g, or_controller = Some True, or_block_owner_deletion = Some True\<rparr>"

section \<open>Lemmas\<close>

lemma get_role_Inr_iff:
  "get_role g name = Inr r \<longleftrightarrow> name \<noteq> [] \<and> find (\<lambda>r. r_name r = name) (g_roles g) = Some r"
  by (auto simp: get_role_def split: option.splits)

lemma get_role_name: "get_role g name = Inr r \<Longrightarrow> r_name r = name \<and> r \<in> set (g_roles g)"
  by (auto simp: get_role_Inr_iff find_Some_iff)

lemma get_role_unique:
  assumes "distinct (map r_name (g_roles g))" and "r \<in> set (g_roles g)" and "r_name r \<noteq> []"
  shows "get_role g (r_name r) = Inr r"
proof -
  from assms(2) have "find (\<lambda>q. r_name q = r_name r) (g_roles g) \<noteq> None"
    by (auto simp: find_None_iff)
  then obtain q where q: "find (\<lambda>q. r_name q = r_name r) (g_roles g) = Some q" by auto
  then have "q \<in> set (g_roles g)" and "r_name q = r_name r" by (auto simp: find_Some_iff)
  with assms(1,2) have "q = r" by (auto simp: distinct_map inj_on_def)
  with q assms(3) show ?thesis by (simp add: get_role_def)
qed

text \<open>A name with a hyphen is not unique: two different pairs of group and role names give the
  same workload name.\<close>

lemma workload_name_collision:
  "g_name g = ''a-b'' \<Longrightarrow> r_name r = ''c'' \<Longrightarrow> g_name h = ''a'' \<Longrightarrow> r_name q = ''b-c'' \<Longrightarrow>
   get_workload_name g r = get_workload_name h q"
  by (simp add: get_workload_name_def)

lemma get_workload_name_inj: "get_workload_name g r = get_workload_name g q \<longleftrightarrow> r_name r = r_name q"
  by (simp add: get_workload_name_def)

text \<open>The size annotation written on a workload reads back as the role's replica count.\<close>

lemma role_size_annotation_roundtrip:
  assumes "get_common_annotations g r = Inr m" and "r_replicas r = Some n" and "in_i32 n"
  shows "atoi (sm_get (Some m) RoleSizeAnnotationKey) = Some n"
  using assms by (auto simp: get_common_annotations_def atoi_show_i32)

definition role_pods :: "role_spec \<Rightarrow> int" where
  "role_pods r = (if workload_string (r_workload r) = LeaderWorkerSetWorkloadType
      then the (lt_size (r_leader_worker_set r)) else 1) * the (r_replicas r)"

definition role_sized :: "role_spec \<Rightarrow> bool" where
  "role_sized r \<longleftrightarrow> r_replicas r \<noteq> None \<and>
     (workload_string (r_workload r) = LeaderWorkerSetWorkloadType \<longrightarrow>
        lt_size (r_leader_worker_set r) \<noteq> None)"

lemma group_size_step_sized: "role_sized r \<Longrightarrow> group_size_step r ret = Inr (i64 (ret + role_pods r))"
  by (auto simp: group_size_step_def role_pods_def role_sized_def)

lemma loop_group_size:
  "list_all role_sized rs \<Longrightarrow> loop group_size_step rs (i64 n) = Inr (i64 (n + sum_list (map role_pods rs)))"
  by (induction rs arbitrary: n) (auto simp: group_size_step_sized add.assoc)

lemma group_size_step_unsized: "\<not> role_sized r \<Longrightarrow> group_size_step r n = Inl (Panic NilDereference)"
  by (cases "lt_size (r_leader_worker_set r)"; cases "r_replicas r")
    (auto simp: role_sized_def group_size_step_def)

lemma loop_group_size_panic:
  "\<not> list_all role_sized rs \<Longrightarrow> loop group_size_step rs n = Inl (Panic NilDereference)"
proof (induction rs arbitrary: n)
  case (Cons r rs)
  then show ?case
    by (cases "role_sized r") (auto simp: group_size_step_sized group_size_step_unsized)
qed simp

end
