(* ===== verification/Kube.thy ===== *)
theory Kube
  imports Api_Helpers
begin

text \<open>
  The workload objects the controllers manage, the client through which they reach the API
  server, and the state a handler runs in.

  The API server and the client library are not part of the repository. They are the parameter
  \<open>'w client\<close> of every handler: a record with the operations of \<open>client.Client\<close> as functions of
  an abstract world \<open>'w\<close>, which each call may change in any way (other clients act between two
  calls). The pure library functions the program calls (percentages of \<open>intstr\<close>, the converter of
  apply configurations, \<open>IsControlledBy\<close> and so on) are the parameter \<open>klib\<close>. Nothing is assumed
  of either; a theorem that needs a law of theirs has it as a named hypothesis.

  A handler is an action: it maps the state (\<open>sys\<close>: the world, the calls made so far, the kinds
  already watched) to a result and the next state. The recorded calls are the observable behaviour
  that the ordering properties speak about.
\<close>

section \<open>Workload objects\<close>

record label_selector =
  ls_match_labels :: strmap
  ls_other :: string

record sts_rolling_update =
  su_partition :: "int option"
  su_max_unavailable :: "int_or_string option"

record sts_update_strategy =
  us_type :: string
  us_rolling_update :: "sts_rolling_update option"

record statefulset =
  ss_api_version :: string
  ss_kind :: string
  ss_meta :: object_meta
  ss_replicas :: "int option"
  ss_selector :: "label_selector option"
  ss_service_name :: string
  ss_template :: pod_template
  ss_pod_management_policy :: string
  ss_update_strategy :: sts_update_strategy
  ss_ready_replicas :: int

record deployment_strategy =
  ds_type :: string
  ds_rolling_update :: "rolling_update option"

record deployment =
  dp_meta :: object_meta
  dp_replicas :: "int option"
  dp_selector :: "label_selector option"
  dp_template :: pod_template
  dp_strategy :: deployment_strategy
  dp_ready_replicas :: int

record leader_worker_set =
  lw_meta :: object_meta
  lw_replicas :: "int option"
  lw_leader_template :: "pod_template option"
  lw_worker_template :: pod_template
  lw_size :: "int option"
  lw_restart_policy :: string
  lw_rolling_update :: "rolling_update option"
  lw_status_replicas :: int
  lw_ready_replicas :: int

record service =
  sv_meta :: object_meta
  sv_cluster_ip :: string
  sv_selector :: strmap
  sv_publish_not_ready :: bool

record config_map =
  cm_meta :: object_meta
  cm_data :: strmap

record container_status =
  cs_name :: string
  cs_restart_count :: int

record pod =
  pd_meta :: object_meta
  pd_phase :: string
  pd_conditions :: "(string \<times> condition_status) list"
  pd_init_statuses :: "container_status list"
  pd_statuses :: "container_status list"

record controller_revision =
  rv_meta :: object_meta
  rv_revision :: int

record pod_group =
  pgr_meta :: object_meta
  pgr_min_member :: int
  pgr_schedule_timeout :: "int option"

record crd =
  crd_name :: string
  crd_conditions :: "(string \<times> condition_status) list"

text \<open>The value the config builder serialises (\<open>ClusterConfig\<close> of \<open>config_builder.go\<close>).\<close>

record instance_info =
  in_address :: string
  in_ports :: "int gomap"

record role_instances =
  ri_size :: int
  ri_instances :: "instance_info list"

record cluster_config =
  cc_name :: string
  cc_size :: int
  cc_role_names :: "string list"
  cc_roles :: "role_instances gomap"

section \<open>Objects and the client\<close>

text \<open>The field \<open>spec.selector\<close> of an unstructured workload, as \<open>NestedMap\<close> and the converter find it: missing,
  on a path that is not a map, a map that does not convert to a label selector, or one that does. The
  entries of its labels stand in the order in which a loop over the Go map meets them.\<close>

datatype selector_field = FieldAbsent | FieldNotMap | FieldMalformed string | FieldSelector label_selector

datatype obj =
    ObjRbg rbg
  | ObjRbgSet rbg_set
  | ObjAdapter scaling_adapter
  | ObjProfile runtime_profile
  | ObjSts statefulset
  | ObjDeploy deployment
  | ObjLws leader_worker_set
  | ObjService service
  | ObjConfigMap config_map
  | ObjPod pod
  | ObjRevision controller_revision
  | ObjPodGroup pod_group
  | ObjCrd crd
  | ObjUnstructured selector_field

text \<open>The kind of a request: a typed object, or an unstructured one with its group, version and
  kind spelled out.\<close>

datatype kind =
    KRbg | KRbgSet | KAdapter | KProfile | KSts | KDeploy | KLws | KService | KConfigMap
  | KPod | KRevision | KPodGroup | KCrd | KGvk string string string

type_synonym nsname = "string \<times> string"  \<comment> \<open>namespace, name\<close>

fun obj_kind :: "obj \<Rightarrow> kind option" where
  "obj_kind (ObjRbg _) = Some KRbg"
| "obj_kind (ObjRbgSet _) = Some KRbgSet"
| "obj_kind (ObjAdapter _) = Some KAdapter"
| "obj_kind (ObjProfile _) = Some KProfile"
| "obj_kind (ObjSts _) = Some KSts"
| "obj_kind (ObjDeploy _) = Some KDeploy"
| "obj_kind (ObjLws _) = Some KLws"
| "obj_kind (ObjService _) = Some KService"
| "obj_kind (ObjConfigMap _) = Some KConfigMap"
| "obj_kind (ObjPod _) = Some KPod"
| "obj_kind (ObjRevision _) = Some KRevision"
| "obj_kind (ObjPodGroup _) = Some KPodGroup"
| "obj_kind (ObjCrd _) = Some KCrd"
| "obj_kind (ObjUnstructured _) = None"

text \<open>The metadata every object has, and the namespace and name it is stored under.\<close>

fun obj_meta :: "obj \<Rightarrow> object_meta" where
  "obj_meta (ObjRbg x) = g_meta x"
| "obj_meta (ObjRbgSet x) = set_meta x"
| "obj_meta (ObjAdapter x) = ad_meta x"
| "obj_meta (ObjProfile x) = rp_meta x"
| "obj_meta (ObjSts x) = ss_meta x"
| "obj_meta (ObjDeploy x) = dp_meta x"
| "obj_meta (ObjLws x) = lw_meta x"
| "obj_meta (ObjService x) = sv_meta x"
| "obj_meta (ObjConfigMap x) = cm_meta x"
| "obj_meta (ObjPod x) = pd_meta x"
| "obj_meta (ObjRevision x) = rv_meta x"
| "obj_meta (ObjPodGroup x) = pgr_meta x"
| "obj_meta (ObjCrd x) = empty_meta\<lparr>om_name := crd_name x\<rparr>"
| "obj_meta (ObjUnstructured _) = empty_meta"

definition obj_key :: "obj \<Rightarrow> nsname" where
  "obj_key ob = (om_namespace (obj_meta ob), om_name (obj_meta ob))"

text \<open>What an apply patch carries besides workload objects: the spec or the status of an adapter
  and the status of a group.\<close>

datatype patch =
    PatchObj obj
  | PatchRbgStatus nsname string string "condition list" "role_status list"
  | PatchAdapter nsname string string "owner_ref list" "adapter_spec" "adapter_status option"

datatype patch_type = PatchSpec | PatchStatus | PatchAll

record 'w client =
  cl_get :: "kind \<Rightarrow> nsname \<Rightarrow> 'w \<Rightarrow> (api_error + obj) \<times> 'w"
  cl_list :: "kind \<Rightarrow> string \<Rightarrow> strmap \<Rightarrow> 'w \<Rightarrow> (api_error + obj list) \<times> 'w"
  cl_create :: "obj \<Rightarrow> 'w \<Rightarrow> (api_error + obj) \<times> 'w"
  cl_update :: "obj \<Rightarrow> 'w \<Rightarrow> (api_error + obj) \<times> 'w"
  cl_delete :: "obj \<Rightarrow> 'w \<Rightarrow> (api_error + unit) \<times> 'w"
  cl_apply :: "patch \<Rightarrow> 'w \<Rightarrow> (api_error + unit) \<times> 'w"
  cl_apply_status :: "patch \<Rightarrow> 'w \<Rightarrow> (api_error + unit) \<times> 'w"
  cl_now :: "'w \<Rightarrow> nat"

section \<open>State and actions\<close>

datatype call =
    CGet kind nsname "api_error + obj"
  | CList kind string strmap
  | CCreate obj
  | CUpdate obj
  | CDelete obj
  | CApply patch
  | CApplyStatus patch
  | CEvent string string  \<comment> \<open>an event of the recorder: object name, reason\<close>

record 'w sys =
  world :: 'w
  calls :: "call list"
  watched :: "string list"

type_synonym ('w, 'a) act = "'w sys \<Rightarrow> 'a res \<times> 'w sys"

definition return_ok :: "'a \<Rightarrow> ('w, 'a) act" where
  "return_ok x s = (Inr x, s)"

definition return_err :: "go_error \<Rightarrow> ('w, 'a) act" where
  "return_err e s = (Inl e, s)"

definition of_res :: "'a res \<Rightarrow> ('w, 'a) act" where
  "of_res r s = (r, s)"

text \<open>\<open>x, err := m(); if err != nil { return err }; f(x)\<close>\<close>

definition call :: "('w, 'a) act \<Rightarrow> ('a \<Rightarrow> ('w, 'b) act) \<Rightarrow> ('w, 'b) act" where
  "call m f s = (case m s of (Inl e, t) \<Rightarrow> (Inl e, t) | (Inr x, t) \<Rightarrow> f x t)"

text \<open>\<open>x, err := m(); f(x, err)\<close>: the code looks at the error. A panic is not an error value and
  leaves the function.\<close>

definition handle :: "('w, 'a) act \<Rightarrow> ('a res \<Rightarrow> ('w, 'b) act) \<Rightarrow> ('w, 'b) act" where
  "handle m f s =
     (case m s of
        (Inl e, t) \<Rightarrow> if is_panic e then (Inl e, t) else f (Inl e) t
      | (Inr x, t) \<Rightarrow> f (Inr x) t)"

primrec for_each :: "('a \<Rightarrow> ('w, unit) act) \<Rightarrow> 'a list \<Rightarrow> ('w, unit) act" where
  "for_each f [] = return_ok ()"
| "for_each f (x # xs) = call (f x) (\<lambda>_. for_each f xs)"

definition log_call :: "call \<Rightarrow> 'w sys \<Rightarrow> 'w sys" where
  "log_call c s = s\<lparr>calls := calls s @ [c]\<rparr>"

definition record_event :: "string \<Rightarrow> string \<Rightarrow> ('w, unit) act" where
  "record_event name reason s = (Inr (), log_call (CEvent name reason) s)"

fun lift_api :: "api_error + 'a \<Rightarrow> 'a res" where
  "lift_api (Inl e) = Inl (Api e)"
| "lift_api (Inr x) = Inr x"

definition decode :: "(obj \<Rightarrow> 'a option) \<Rightarrow> api_error + obj \<Rightarrow> 'a res" where
  "decode sel r = (case r of Inl e \<Rightarrow> Inl (Api e)
     | Inr ob \<Rightarrow> (case sel ob of None \<Rightarrow> Inl DecodeError | Some x \<Rightarrow> Inr x))"

definition do_get :: "'w client \<Rightarrow> kind \<Rightarrow> (obj \<Rightarrow> 'a option) \<Rightarrow> nsname \<Rightarrow> ('w, 'a) act" where
  "do_get c k sel key s =
     (let (r, w) = cl_get c k key (world s)
      in (decode sel r, log_call (CGet k key r) (s\<lparr>world := w\<rparr>)))"

definition decode_list :: "(obj \<Rightarrow> 'a option) \<Rightarrow> obj list \<Rightarrow> 'a list res" where
  "decode_list sel os = (if list_all (\<lambda>ob. sel ob \<noteq> None) os then Inr (map (the \<circ> sel) os)
     else Inl DecodeError)"

definition do_list :: "'w client \<Rightarrow> kind \<Rightarrow> (obj \<Rightarrow> 'a option) \<Rightarrow> string \<Rightarrow> strmap \<Rightarrow> ('w, 'a list) act" where
  "do_list c k sel ns m s =
     (let (r, w) = cl_list c k ns m (world s)
      in ((case r of Inl e \<Rightarrow> Inl (Api e) | Inr os \<Rightarrow> decode_list sel os),
          log_call (CList k ns m) (s\<lparr>world := w\<rparr>)))"

definition do_create :: "'w client \<Rightarrow> obj \<Rightarrow> ('w, unit) act" where
  "do_create c ob s =
     (let (r, w) = cl_create c ob (world s)
      in (map_sum id (\<lambda>_. ()) (lift_api r), log_call (CCreate ob) (s\<lparr>world := w\<rparr>)))"

definition do_update :: "'w client \<Rightarrow> (obj \<Rightarrow> 'a option) \<Rightarrow> obj \<Rightarrow> ('w, 'a) act" where
  "do_update c sel ob s =
     (let (r, w) = cl_update c ob (world s)
      in (decode sel r, log_call (CUpdate ob) (s\<lparr>world := w\<rparr>)))"

definition do_delete :: "'w client \<Rightarrow> obj \<Rightarrow> ('w, unit) act" where
  "do_delete c ob s =
     (let (r, w) = cl_delete c ob (world s)
      in (lift_api r, log_call (CDelete ob) (s\<lparr>world := w\<rparr>)))"

definition do_apply :: "'w client \<Rightarrow> patch \<Rightarrow> ('w, unit) act" where
  "do_apply c p s =
     (let (r, w) = cl_apply c p (world s)
      in (lift_api r, log_call (CApply p) (s\<lparr>world := w\<rparr>)))"

definition do_apply_status :: "'w client \<Rightarrow> patch \<Rightarrow> ('w, unit) act" where
  "do_apply_status c p s =
     (let (r, w) = cl_apply_status c p (world s)
      in (lift_api r, log_call (CApplyStatus p) (s\<lparr>world := w\<rparr>)))"

section \<open>Library functions\<close>

text \<open>
  The functions of \<open>k8s.io/apimachinery\<close>, \<open>go-cmp\<close> and \<open>sigs.k8s.io/yaml\<close> that the program
  calls: \<open>intstr.GetScaledValueFromIntOrPercent\<close>, the unstructured converter (from an apply
  configuration to a typed object and back), \<open>metav1.IsControlledBy\<close>,
  \<open>metav1.GetControllerOfNoCopy\<close>, \<open>schema.ParseGroupVersion\<close>, \<open>cmp.Diff\<close> with the options of
  \<open>semanticallyEqualConfigmap\<close>, the strategic merge patch of a pod template,
  \<open>metav1.LabelSelectorAsSelector\<close> and \<open>yaml.Marshal\<close>.
\<close>

record klib =
  lib_scaled :: "int_or_string \<Rightarrow> int \<Rightarrow> bool \<Rightarrow> int res"
  lib_convert :: "obj \<Rightarrow> obj res"
  lib_convert_template :: "pod_template \<Rightarrow> pod_template res"
  lib_is_controlled_by :: "object_meta \<Rightarrow> object_meta \<Rightarrow> bool"
  lib_controller_of :: "object_meta \<Rightarrow> owner_ref option"
  lib_parse_group_version :: "string \<Rightarrow> (string \<times> string) option"
  lib_config_map_same :: "config_map \<Rightarrow> config_map \<Rightarrow> bool"
  lib_merge_patch :: "pod_template \<Rightarrow> string \<Rightarrow> pod_template res"
  lib_selector :: "strmap \<Rightarrow> strmap res"
  lib_yaml :: "cluster_config \<Rightarrow> string res"

text \<open>\<open>ToUnstructured\<close> followed by \<open>FromUnstructured\<close> into an object of a given type.\<close>

definition convert_to :: "klib \<Rightarrow> (obj \<Rightarrow> 'a option) \<Rightarrow> obj \<Rightarrow> ('w, 'a) act" where
  "convert_to lib sel ob = of_res
     (case lib_convert lib ob of Inl e \<Rightarrow> Inl e
      | Inr ob' \<Rightarrow> (case sel ob' of None \<Rightarrow> Inl DecodeError | Some x \<Rightarrow> Inr x))"

text \<open>\<open>err := client.Get(key, old); if err != nil && !IsNotFound(err) { return err }\<close>: the object
  stays the zero value when it is not found, here \<open>None\<close>.\<close>

definition get_if_exists :: "'w client \<Rightarrow> kind \<Rightarrow> (obj \<Rightarrow> 'a option) \<Rightarrow> nsname \<Rightarrow> ('w, 'a option) act" where
  "get_if_exists c k sel key = handle (do_get c k sel key) (\<lambda>r. case r of
       Inr x \<Rightarrow> return_ok (Some x)
     | Inl e \<Rightarrow> if is_not_found e then return_ok None else return_err e)"

text \<open>\<open>if err := m(); err != nil { return wrap(err) }\<close>\<close>

definition wrap_err :: "(go_error \<Rightarrow> go_error) \<Rightarrow> ('w, 'a) act \<Rightarrow> ('w, 'a) act" where
  "wrap_err f m = handle m (\<lambda>r. case r of Inr x \<Rightarrow> return_ok x | Inl e \<Rightarrow> return_err (f e))"

section \<open>Running actions\<close>

lemmas act_defs = return_ok_def return_err_def of_res_def call_def handle_def record_event_def

lemma call_return_ok [simp]: "call (return_ok x) f = f x"
  by (simp add: call_def return_ok_def fun_eq_iff)

lemma call_return_err [simp]: "call (return_err e) f = return_err e"
  by (simp add: call_def return_err_def fun_eq_iff)

lemma call_of_res [simp]:
  "call (of_res (Inr x)) f = f x" "call (of_res (Inl e)) f = return_err e"
  by (simp_all add: call_def of_res_def return_err_def fun_eq_iff)

lemma run_return_iff [simp]:
  "return_ok x s = (r, t) \<longleftrightarrow> r = Inr x \<and> t = s"
  "return_err e s = (r, t) \<longleftrightarrow> r = Inl e \<and> t = s"
  "of_res q s = (r, t) \<longleftrightarrow> q = r \<and> t = s"
  by (auto simp: return_ok_def return_err_def of_res_def)

lemma call_of_res_Inr_iff:
  "call (of_res r) f s = (Inr y, t) \<longleftrightarrow> (\<exists>x. r = Inr x \<and> f x s = (Inr y, t))"
  by (cases r) simp_all

lemma deref_Inr_iff [simp]: "deref p = Inr x \<longleftrightarrow> p = Some x"
  by (cases p) simp_all

lemma call_assoc: "call (call m f) g = call m (\<lambda>x. call (f x) g)"
  by (auto simp: call_def fun_eq_iff split: prod.splits sum.splits)

lemma call_Inr [go_eval]: "m s = (Inr x, t) \<Longrightarrow> call m f s = f x t"
  by (simp add: call_def)

lemma call_Inl [go_eval]: "m s = (Inl e, t) \<Longrightarrow> call m f s = (Inl e, t)"
  by (simp add: call_def)

lemma call_eq_Inr_iff:
  "call m f s = (Inr y, u) \<longleftrightarrow> (\<exists>x t. m s = (Inr x, t) \<and> f x t = (Inr y, u))"
  by (auto simp: call_def split: prod.splits sum.splits)

lemma call_eq_Inl_iff:
  "call m f s = (Inl e, u) \<longleftrightarrow>
     m s = (Inl e, u) \<or> (\<exists>x t. m s = (Inr x, t) \<and> f x t = (Inl e, u))"
  by (auto simp: call_def split: prod.splits sum.splits)

lemma handle_Inr [go_eval]: "m s = (Inr x, t) \<Longrightarrow> handle m f s = f (Inr x) t"
  by (simp add: handle_def)

lemma handle_Inl [go_eval]:
  "m s = (Inl e, t) \<Longrightarrow> handle m f s = (if is_panic e then (Inl e, t) else f (Inl e) t)"
  by (simp add: handle_def)

lemma for_each_append: "for_each f (xs @ ys) = call (for_each f xs) (\<lambda>_. for_each f ys)"
  by (induction xs) (simp_all add: call_assoc)

text \<open>
  The calls a handler makes are only ever appended. \<open>only_calls P m\<close> bounds what an action may
  do, whatever the client answers: every call it adds satisfies \<open>P\<close>.
\<close>

definition only_calls :: "(call \<Rightarrow> bool) \<Rightarrow> ('w, 'a) act \<Rightarrow> bool" where
  "only_calls P m \<longleftrightarrow> (\<forall>s r t. m s = (r, t) \<longrightarrow>
      (\<exists>cs. calls t = calls s @ cs \<and> list_all P cs) \<and> watched t = watched s)"

lemma only_callsD:
  assumes "only_calls P m" and "m s = (r, t)"
  obtains cs where "calls t = calls s @ cs" and "list_all P cs"
  using assms unfolding only_calls_def by blast

lemma only_calls_mono:
  assumes "only_calls P m" and "\<And>c. P c \<Longrightarrow> Q c"
  shows "only_calls Q m"
  using assms unfolding only_calls_def list_all_iff by blast

lemma only_calls_return [intro, simp]:
  "only_calls P (return_ok x)" "only_calls P (return_err e)" "only_calls P (of_res r)"
  by (auto simp: only_calls_def return_ok_def return_err_def of_res_def)

lemma only_calls_callI:
  assumes "only_calls P m" and "\<And>x s t. m s = (Inr x, t) \<Longrightarrow> only_calls P (f x)"
  shows "only_calls P (call m f)"
  unfolding only_calls_def
proof (intro allI impI)
  fix s r u
  assume run: "call m f s = (r, u)"
  obtain r1 t where m: "m s = (r1, t)" by fastforce
  then obtain cs where cs: "calls t = calls s @ cs" "list_all P cs" and w: "watched t = watched s"
    using assms(1) unfolding only_calls_def by blast
  show "(\<exists>cs. calls u = calls s @ cs \<and> list_all P cs) \<and> watched u = watched s"
  proof (cases r1)
    case (Inl e)
    with run m cs w show ?thesis by (auto simp: call_def)
  next
    case (Inr x)
    with run m have "f x t = (r, u)" by (simp add: call_def)
    moreover have "only_calls P (f x)" using assms(2) m Inr by blast
    ultimately obtain ds where "calls u = calls t @ ds" "list_all P ds" "watched u = watched t"
      unfolding only_calls_def by blast
    with cs w show ?thesis by auto
  qed
qed

lemma only_calls_call [intro]:
  "only_calls P m \<Longrightarrow> (\<And>x. only_calls P (f x)) \<Longrightarrow> only_calls P (call m f)"
  by (rule only_calls_callI)

lemma only_calls_handle [intro]:
  assumes "only_calls P m" and "\<And>x. only_calls P (f x)"
  shows "only_calls P (handle m f)"
  unfolding only_calls_def
proof (intro allI impI)
  fix s r u
  assume run: "handle m f s = (r, u)"
  obtain r1 t where m: "m s = (r1, t)" by fastforce
  then obtain cs where cs: "calls t = calls s @ cs" "list_all P cs" and w: "watched t = watched s"
    using assms(1) unfolding only_calls_def by blast
  have "u = t \<or> (\<exists>x. f x t = (r, u))"
    using run m by (auto simp: handle_def split: sum.splits if_splits)
  then show "(\<exists>cs. calls u = calls s @ cs \<and> list_all P cs) \<and> watched u = watched s"
  proof
    assume "u = t"
    with cs w show ?thesis by auto
  next
    assume "\<exists>x. f x t = (r, u)"
    then obtain ds where "calls u = calls t @ ds" "list_all P ds" "watched u = watched t"
      using assms(2) unfolding only_calls_def by blast
    with cs w show ?thesis by auto
  qed
qed

lemma only_calls_for_each [intro]:
  "(\<And>x. x \<in> set xs \<Longrightarrow> only_calls P (f x)) \<Longrightarrow> only_calls P (for_each f xs)"
  by (induction xs) auto

lemma only_calls_if [intro]:
  "(b \<Longrightarrow> only_calls P m) \<Longrightarrow> (\<not> b \<Longrightarrow> only_calls P n) \<Longrightarrow> only_calls P (if b then m else n)"
  by simp

lemma only_calls_wrap_err [intro]: "only_calls P m \<Longrightarrow> only_calls P (wrap_err f m)"
  unfolding wrap_err_def by (rule only_calls_handle) (auto split: sum.splits)

lemma only_calls_convert [intro, simp]: "only_calls P (convert_to lib sel ob)"
  by (simp add: convert_to_def)

lemma wrap_err_Inr_iff [simp]: "wrap_err f m s = (Inr x, t) \<longleftrightarrow> m s = (Inr x, t)"
  by (auto simp: wrap_err_def handle_def split: prod.splits sum.splits)

lemma only_calls_client [intro]:
  "(\<And>r. P (CGet k key r)) \<Longrightarrow> only_calls P (do_get c k sel key)"
  "P (CList k ns m) \<Longrightarrow> only_calls P (do_list c k sel2 ns m)"
  "P (CCreate ob) \<Longrightarrow> only_calls P (do_create c ob)"
  "P (CUpdate ob) \<Longrightarrow> only_calls P (do_update c sel ob)"
  "P (CDelete ob) \<Longrightarrow> only_calls P (do_delete c ob)"
  "P (CApply p) \<Longrightarrow> only_calls P (do_apply c p)"
  "P (CApplyStatus p) \<Longrightarrow> only_calls P (do_apply_status c p)"
  "P (CEvent n reason) \<Longrightarrow> only_calls P (record_event n reason)"
  by (auto simp: only_calls_def do_get_def do_list_def do_create_def do_update_def do_delete_def
      do_apply_def do_apply_status_def record_event_def log_call_def split: prod.splits)

lemma only_calls_get_if_exists [intro]:
  "(\<And>r. P (CGet k key r)) \<Longrightarrow> only_calls P (get_if_exists c k sel key)"
  unfolding get_if_exists_def by (rule only_calls_handle) (auto split: sum.splits)

text \<open>The trace of a single get.\<close>

lemma do_get_trace:
  assumes "do_get c k sel key s = (r, t)"
  shows "\<exists>a. calls t = calls s @ [CGet k key a] \<and> r = decode sel a"
  using assms by (auto simp: do_get_def log_call_def split: prod.splits)

lemma decode_not_found: "decode sel a = Inl e \<Longrightarrow> is_not_found e \<Longrightarrow> a = Inl NotFound"
  by (auto simp: decode_def is_not_found_def split: sum.splits option.splits)

lemma decode_found: "decode sel a = Inr x \<Longrightarrow> \<exists>ob. a = Inr ob \<and> sel ob = Some x"
  by (auto simp: decode_def split: sum.splits option.splits)

lemma get_if_exists_cases:
  assumes "get_if_exists c k sel key s = (Inr f, t)"
  obtains "f = None" and "calls t = calls s @ [CGet k key (Inl NotFound)]"
    | x ob where "f = Some x" and "sel ob = Some x" and "calls t = calls s @ [CGet k key (Inr ob)]"
proof -
  obtain q u where g: "do_get c k sel key s = (q, u)" by fastforce
  from do_get_trace [OF g] obtain a where a: "calls u = calls s @ [CGet k key a]" "q = decode sel a" by blast
  show ?thesis
  proof (cases q)
    case (Inl e)
    with assms g have "is_not_found e" "u = t" "f = None"
      by (auto simp: get_if_exists_def handle_def split: if_splits)
    with a Inl that(1) decode_not_found [of sel a e] show ?thesis by simp
  next
    case (Inr x)
    with assms g have "u = t" "f = Some x" by (auto simp: get_if_exists_def handle_def)
    moreover from a(2) Inr obtain ob where "a = Inr ob" "sel ob = Some x" by (metis decode_found)
    ultimately show ?thesis using that(2) a(1) by simp
  qed
qed

text \<open>The requests that change nothing.\<close>

definition is_read :: "call \<Rightarrow> bool" where
  "is_read q \<longleftrightarrow> (\<exists>k n a. q = CGet k n a) \<or> (\<exists>k n m. q = CList k n m)"

lemma is_read_simps [simp]: "is_read (CGet k key a)" "is_read (CList k n m)"
  by (simp_all add: is_read_def)

end
