(* ===== verification/Utils.thy ===== *)
theory Utils
  imports Kube
begin

text \<open>
  The helpers of \<open>pkg/utils\<close>: membership, the filters that hide the controller's own labels,
  annotations and environment variables from a comparison, the state of a pod, controller
  revisions and CRD and owner checks; and of \<open>pkg/scale\<close>.
\<close>

section \<open>utils.go\<close>

primrec contains_string :: "string list \<Rightarrow> string \<Rightarrow> bool" where
  "contains_string [] str = False"
| "contains_string (v # vs) str = (if v = str then True else contains_string vs str)"

definition system_annotation :: "string \<Rightarrow> bool" where
  "system_annotation k \<longleftrightarrow> prefix ''deployment.kubernetes.io/revision'' k
     \<or> prefix ''rolebasedgroup.workloads.x-k8s.io/'' k \<or> prefix ''app.kubernetes.io/'' k"

definition filter_system_annotations :: "strmap \<Rightarrow> strmap" where
  "filter_system_annotations m = map_option (filter (\<lambda>(k, v). \<not> system_annotation k)) m"

definition system_label :: "string \<Rightarrow> bool" where
  "system_label k \<longleftrightarrow> prefix ''app.kubernetes.io/'' k \<or> prefix ''rolebasedgroup.workloads.x-k8s.io/'' k"

definition filter_system_labels :: "strmap \<Rightarrow> strmap" where
  "filter_system_labels m = map_option (filter (\<lambda>(k, v). \<not> system_label k)) m"

definition filter_system_envs :: "env_var list \<Rightarrow> env_var list" where
  "filter_system_envs envs =
     filter (\<lambda>e. \<not> prefix ''ROLES_'' (ev_name e) \<and> ev_name e \<noteq> ''RBG_GROUP_SIZE'') envs"

text \<open>What \<open>json.MarshalIndent\<close> and \<open>json.Marshal\<close> return is a parameter.\<close>

definition pretty_json :: "('a \<Rightarrow> string res) \<Rightarrow> 'a \<Rightarrow> string" where
  "pretty_json marshal_indent x = (case marshal_indent x of Inl e \<Rightarrow> [] | Inr b \<Rightarrow> b)"

definition dump_json :: "('a \<Rightarrow> string \<times> go_error option) \<Rightarrow> 'a \<Rightarrow> string" where
  "dump_json marshal x = (case marshal x of (j, _) \<Rightarrow> j)"

definition non_zero_value :: "int \<Rightarrow> int" where
  "non_zero_value v = (if v < 0 then 0 else v)"

definition patch_object_apply_configuration ::
  "'w client \<Rightarrow> patch res \<Rightarrow> patch_type \<Rightarrow> ('w, unit) act" where
  "patch_object_apply_configuration c cfg ty =
     call (of_res cfg) (\<lambda>p.
     call (if ty = PatchSpec \<or> ty = PatchAll then do_apply c p else return_ok ()) (\<lambda>_.
     if ty = PatchStatus \<or> ty = PatchAll then do_apply_status c p else return_ok ()))"

section \<open>pod_utils.go\<close>

definition as_pod :: "obj \<Rightarrow> pod option" where
  "as_pod ob = (case ob of ObjPod p \<Rightarrow> Some p | _ \<Rightarrow> None)"

definition pod_ready :: "pod \<Rightarrow> bool" where
  "pod_ready p = (case find (\<lambda>(ty, st). ty = ''Ready'') (pd_conditions p) of
      None \<Rightarrow> False
    | Some (ty, st) \<Rightarrow> st = ConditionTrue)"

definition pod_running_and_ready :: "pod \<Rightarrow> bool" where
  "pod_running_and_ready p \<longleftrightarrow> pd_phase p = ''Running'' \<and> pod_ready p"

definition container_restarted :: "pod \<Rightarrow> bool" where
  "container_restarted p \<longleftrightarrow>
     (pd_phase p = ''Running'' \<or> pd_phase p = ''Pending'') \<and>
     (list_ex (\<lambda>st. 0 < cs_restart_count st) (pd_init_statuses p) \<or>
      list_ex (\<lambda>st. cs_name st \<noteq> ''patio-runtime'' \<and> 0 < cs_restart_count st) (pd_statuses p))"

definition pod_deleted :: "pod \<Rightarrow> bool" where
  "pod_deleted p \<longleftrightarrow> om_deletion (pd_meta p) \<noteq> None"

section \<open>revision_utils.go\<close>

definition as_revision :: "obj \<Rightarrow> controller_revision option" where
  "as_revision ob = (case ob of ObjRevision r \<Rightarrow> Some r | _ \<Rightarrow> None)"

definition list_revisions ::
  "klib \<Rightarrow> 'w client \<Rightarrow> object_meta \<Rightarrow> strmap \<Rightarrow> ('w, controller_revision list) act" where
  "list_revisions lib c parent sel =
     call (do_list c KRevision as_revision (om_namespace parent) sel) (\<lambda>history.
     return_ok (filter (\<lambda>rv. case lib_controller_of lib (rv_meta rv) of
         None \<Rightarrow> True
       | Some ref \<Rightarrow> or_uid ref = om_uid parent) history))"

definition highest_step ::
  "controller_revision \<Rightarrow> int \<times> controller_revision option \<Rightarrow> int \<times> controller_revision option" where
  "highest_step rv acc = (if fst acc \<le> rv_revision rv then (rv_revision rv, Some rv) else acc)"

definition get_highest_revision :: "controller_revision list \<Rightarrow> controller_revision option" where
  "get_highest_revision rvs = snd (fold highest_step rvs (0, None))"

section \<open>crds.go\<close>

definition as_crd :: "obj \<Rightarrow> crd option" where
  "as_crd ob = (case ob of ObjCrd d \<Rightarrow> Some d | _ \<Rightarrow> None)"

definition check_crd_exists :: "'w client \<Rightarrow> string \<Rightarrow> ('w, unit) act" where
  "check_crd_exists c name =
     call (do_get c KCrd as_crd ([], name)) (\<lambda>d.
     if list_ex (\<lambda>(ty, st). ty = ''Established'' \<and> st = ConditionTrue) (crd_conditions d)
     then return_ok () else return_err (CrdNotEstablished name))"

record gvk =
  gvk_group :: string
  gvk_version :: string
  gvk_kind :: string

definition check_owner_reference :: "klib \<Rightarrow> owner_ref list \<Rightarrow> gvk \<Rightarrow> bool" where
  "check_owner_reference lib refs target =
     list_ex (\<lambda>ref. case lib_parse_group_version lib (or_api_version ref) of
         None \<Rightarrow> False
       | Some (grp, ver) \<Rightarrow> grp = gvk_group target \<and> ver = gvk_version target
           \<and> or_kind ref = gvk_kind target) refs"

section \<open>constant.go\<close>

definition PodGroupCrdName :: string where
  "PodGroupCrdName = ''podgroups.scheduling.x-k8s.io''"

definition LwsCrdName :: string where
  "LwsCrdName = ''leaderworkersets.leaderworkerset.x-k8s.io''"

section \<open>scaling_adapter.go\<close>

definition generate_scaling_adapter_name :: "string \<Rightarrow> string \<Rightarrow> string" where
  "generate_scaling_adapter_name rbg_name role_name = rbg_name @ ''-'' @ role_name"

definition is_scaling_adapter_managed_by_rbg :: "scaling_adapter option \<Rightarrow> rbg option \<Rightarrow> bool" where
  "is_scaling_adapter_managed_by_rbg a g =
     (case (a, g) of
        (Some a, Some g) \<Rightarrow> list_ex (\<lambda>ow. or_uid ow = g_uid g) (om_owners (ad_meta a))
      | _ \<Rightarrow> False)"

definition is_scaling_adapter_enable :: "role_spec option \<Rightarrow> bool" where
  "is_scaling_adapter_enable r =
     (case r of None \<Rightarrow> False
      | Some r \<Rightarrow> (case r_scaling_adapter r of None \<Rightarrow> False | Some sa \<Rightarrow> sa_enable sa))"

section \<open>Lemmas\<close>

lemma contains_string_iff [simp]: "contains_string xs s \<longleftrightarrow> s \<in> set xs"
  by (induction xs) auto

lemma non_zero_value_max: "non_zero_value v = max 0 v"
  by (simp add: non_zero_value_def)

lemma controller_labels_are_system [simp]:
  "system_label SetNameLabelKey" "system_label SetRoleLabelKey"
  "system_annotation RoleSizeAnnotationKey"
  by (simp_all add: system_label_def system_annotation_def label_key_defs)

lemma managed_iff_contains_owner:
  "is_scaling_adapter_managed_by_rbg (Some a) (Some g) = contains_rbg_owner a g"
  by (simp add: is_scaling_adapter_managed_by_rbg_def contains_rbg_owner_def list_ex_iff)

lemma only_calls_patch [intro]:
  assumes "\<And>p. cfg = Inr p \<Longrightarrow> ty \<noteq> PatchStatus \<Longrightarrow> P (CApply p)"
    and "\<And>p. cfg = Inr p \<Longrightarrow> ty \<noteq> PatchSpec \<Longrightarrow> P (CApplyStatus p)"
  shows "only_calls P (patch_object_apply_configuration c cfg ty)"
  unfolding patch_object_apply_configuration_def
proof (cases cfg)
  case (Inr p)
  then show "only_calls P (call (of_res cfg) (\<lambda>p.
     call (if ty = PatchSpec \<or> ty = PatchAll then do_apply c p else return_ok ()) (\<lambda>_.
     if ty = PatchStatus \<or> ty = PatchAll then do_apply_status c p else return_ok ())))"
    unfolding Inr call_of_res
    by (intro only_calls_call only_calls_if only_calls_client(6,7) only_calls_return) (auto simp: assms [OF Inr])
qed simp

text \<open>\<open>GetHighestRevision\<close> is the last revision with the greatest number, provided some number is
  not negative; otherwise it is nil although the list is not empty.\<close>

lemma highest_fold:
  assumes "fold highest_step rvs (0, None) = (mx, best)"
  shows "0 \<le> mx \<and> (\<forall>rv \<in> set rvs. rv_revision rv \<le> mx) \<and>
    (case best of None \<Rightarrow> mx = 0 \<and> (\<forall>rv \<in> set rvs. rv_revision rv < 0)
     | Some b \<Rightarrow> b \<in> set rvs \<and> rv_revision b = mx)"
  using assms
proof (induction rvs arbitrary: mx best rule: rev_induct)
  case (snoc r rvs)
  obtain mx' best' where f: "fold highest_step rvs (0, None) = (mx', best')" by fastforce
  from snoc.prems f have "highest_step r (mx', best') = (mx, best)" by simp
  with snoc.IH [OF f] show ?case
    by (cases "mx' \<le> rv_revision r"; cases best') (auto simp: highest_step_def)
qed simp

end
