(* ===== verification/Sample_Cluster.thy ===== *)
theory Sample_Cluster
  imports Utils
begin

text \<open>
  A concrete API server and concrete library functions, to instantiate the parameters of the
  model: a cluster is a list of objects, a get finds the first object of the kind with the name,
  a list filters by namespace and labels, create, update, apply and delete change the list. No
  property of the program is stated about them; the theorems whose hypotheses constrain the
  server are applied to them, so that the hypotheses are seen to hold together.
\<close>

type_synonym cluster = "obj list"

definition same_obj :: "obj \<Rightarrow> obj \<Rightarrow> bool" where
  "same_obj a b \<longleftrightarrow> obj_kind a = obj_kind b \<and> obj_key a = obj_key b"

definition put_obj :: "obj \<Rightarrow> cluster \<Rightarrow> cluster" where
  "put_obj ob w = filter (\<lambda>x. \<not> same_obj ob x) w @ [ob]"

definition has_labels :: "strmap \<Rightarrow> obj \<Rightarrow> bool" where
  "has_labels m ob = list_all (\<lambda>(k, v). gm_get (sm_entries (om_labels (obj_meta ob))) k = Some v) (sm_entries m)"

definition store_client :: "cluster client" where
  "store_client = \<lparr>
     cl_get = (\<lambda>k key w. (case find (\<lambda>ob. obj_kind ob = Some k \<and> obj_key ob = key) w of
        None \<Rightarrow> Inl NotFound | Some ob \<Rightarrow> Inr ob, w)),
     cl_list = (\<lambda>k ns m w. (Inr (filter (\<lambda>ob. obj_kind ob = Some k \<and> om_namespace (obj_meta ob) = ns
        \<and> has_labels m ob) w), w)),
     cl_create = (\<lambda>ob w. (Inr ob, put_obj ob w)),
     cl_update = (\<lambda>ob w. (Inr ob, put_obj ob w)),
     cl_delete = (\<lambda>ob w. if list_ex (same_obj ob) w
        then (Inr (), filter (\<lambda>x. \<not> same_obj ob x) w) else (Inl NotFound, w)),
     cl_apply = (\<lambda>p w. (Inr (), case p of PatchObj ob \<Rightarrow> put_obj ob w | _ \<Rightarrow> w)),
     cl_apply_status = (\<lambda>p w. (Inr (), w)),
     cl_now = (\<lambda>w. 0)\<rparr>"

definition percent_of :: "string \<Rightarrow> int \<Rightarrow> bool \<Rightarrow> int res" where
  "percent_of s whole up =
     (if s = [] \<or> last s \<noteq> CHR ''%'' then Inl (InvalidPercent s)
      else case atoi (butlast s) of None \<Rightarrow> Inl (InvalidPercent s)
        | Some v \<Rightarrow> Inr ((v * whole + (if up then 99 else 0)) div 100))"

definition sample_lib :: klib where
  "sample_lib = \<lparr>
     lib_scaled = (\<lambda>v whole up. case v of IntVal n \<Rightarrow> Inr n | StrVal s \<Rightarrow> percent_of s whole up),
     lib_convert = (\<lambda>ob. Inr ob),
     lib_convert_template = (\<lambda>t. Inr t),
     lib_is_controlled_by = (\<lambda>m owner.
        list_ex (\<lambda>ow. or_controller ow = Some True \<and> or_uid ow = om_uid owner) (om_owners m)),
     lib_controller_of = (\<lambda>m. find (\<lambda>ow. or_controller ow = Some True) (om_owners m)),
     lib_parse_group_version = (\<lambda>s.
        case (takeWhile (\<lambda>c. c \<noteq> CHR ''/'') s, dropWhile (\<lambda>c. c \<noteq> CHR ''/'') s) of
          (v, []) \<Rightarrow> Some ([], v)
        | (g, _ # v) \<Rightarrow> if CHR ''/'' \<in> set v then None else Some (g, v)),
     lib_config_map_same = (\<lambda>a b. cm_data a = cm_data b),
     lib_merge_patch = (\<lambda>t p. Inr t),
     lib_selector = (\<lambda>m. Inr m),
     lib_yaml = (\<lambda>cfg. Inr (cc_name cfg))\<rparr>"

definition run_on :: "cluster \<Rightarrow> cluster sys" where
  "run_on w = \<lparr>world = w, calls = [], watched = []\<rparr>"

section \<open>Sample objects\<close>

definition sample_meta :: "string \<Rightarrow> string \<Rightarrow> object_meta" where
  "sample_meta name uid = empty_meta\<lparr>om_name := name, om_namespace := ''ns'', om_uid := uid\<rparr>"

definition sample_container :: "string \<Rightarrow> container" where
  "sample_container name = \<lparr>c_name = name, c_image = ''img'', c_command = None, c_args = None,
     c_ports = None, c_resources = [], c_pull_policy = ''Always'', c_env = [], c_mounts = [], c_other = []\<rparr>"

definition sample_template :: pod_template where
  "sample_template = \<lparr>pt_meta = empty_meta, pt_spec = \<lparr>ps_init_containers = [],
     ps_containers = [sample_container ''main''], ps_volumes = [], ps_other = []\<rparr>\<rparr>"

definition sample_role :: "string \<Rightarrow> string list \<Rightarrow> int \<Rightarrow> role_spec" where
  "sample_role name deps n = \<lparr>r_name = name, r_replicas = Some n,
     r_rollout_strategy = Some \<lparr>rs_type = RollingUpdateStrategyType, rs_rolling_update =
        Some \<lparr>ru_max_unavailable = IntVal 1, ru_max_surge = IntVal 1\<rparr>\<rparr>,
     r_restart_policy = NoneRestartPolicy, r_dependencies = deps,
     r_workload = \<lparr>ws_api_version = ''apps/v1'', ws_kind = ''StatefulSet''\<rparr>,
     r_template = sample_template,
     r_leader_worker_set = \<lparr>lt_size = None, lt_patch_leader = None, lt_patch_worker = None\<rparr>,
     r_service_ports = [], r_engine_runtimes = [], r_scaling_adapter = None\<rparr>"

definition sample_rbg :: "role_spec list \<Rightarrow> rbg" where
  "sample_rbg rs = \<lparr>g_api_version = ''workloads.x-k8s.io/v1alpha1'', g_kind = ''RoleBasedGroup'',
     g_meta = sample_meta ''g'' ''uid-g'', g_spec = \<lparr>gp_roles = rs, gp_pod_group_policy = None\<rparr>,
     g_status = \<lparr>gs_observed_generation = 0, gs_conditions = [], gs_role_statuses = []\<rparr>\<rparr>"

definition sample_sts :: "int \<Rightarrow> int \<Rightarrow> int \<Rightarrow> statefulset" where
  "sample_sts n part sz = \<lparr>ss_api_version = ''apps/v1'', ss_kind = ''StatefulSet'',
     ss_meta = (sample_meta ''g-a'' ''uid-s'')\<lparr>om_labels := Some [(''app'', ''a'')],
        om_annotations := Some [(RoleSizeAnnotationKey, show_int sz)]\<rparr>,
     ss_replicas = Some n,
     ss_selector = Some \<lparr>ls_match_labels = Some [(''app'', ''a'')], ls_other = []\<rparr>,
     ss_service_name = ''g-a'', ss_template = sample_template, ss_pod_management_policy = ''Parallel'',
     ss_update_strategy = \<lparr>us_type = RollingUpdateStrategyType, us_rolling_update =
        Some \<lparr>su_partition = Some part, su_max_unavailable = Some (IntVal 1)\<rparr>\<rparr>,
     ss_ready_replicas = n\<rparr>"

definition sample_pod :: "string \<Rightarrow> int \<Rightarrow> string \<Rightarrow> condition_status \<Rightarrow> pod" where
  "sample_pod sts i revision ready = \<lparr>pd_meta = (sample_meta (sts @ ''-'' @ show_int i) ''uid-p'')
       \<lparr>om_labels := Some [(''app'', ''a''), (''apps.kubernetes.io/pod-index'', show_int i),
          (''controller-revision-hash'', revision)]\<rparr>,
     pd_phase = ''Running'', pd_conditions = [(''Ready'', ready)],
     pd_init_statuses = [], pd_statuses = []\<rparr>"

definition sample_revision :: "string \<Rightarrow> int \<Rightarrow> controller_revision" where
  "sample_revision name n = \<lparr>rv_meta = (sample_meta name ''uid-r'')\<lparr>om_labels := Some [(''app'', ''a'')]\<rparr>,
     rv_revision = n\<rparr>"

text \<open>Three replicas; the last one already runs the new revision.\<close>

definition sample_rollout :: cluster where
  "sample_rollout = [ObjRevision (sample_revision ''r1'' 1), ObjRevision (sample_revision ''r2'' 2),
     ObjPod (sample_pod ''g-a'' 0 ''r1'' ConditionTrue), ObjPod (sample_pod ''g-a'' 1 ''r1'' ConditionTrue),
     ObjPod (sample_pod ''g-a'' 2 ''r2'' ConditionTrue)]"

lemmas sample_defs = sample_meta_def sample_container_def sample_template_def sample_role_def
  sample_rbg_def sample_sts_def sample_pod_def sample_revision_def empty_meta_def

end
