(* ===== verification/Discovery.thy ===== *)
theory Discovery
  imports Sample_Cluster
begin

text \<open>
  \<open>pkg/discovery\<close>: what the controller injects into the pod template of a role. The config
  builder describes all roles and their instances and writes them to a config map that is mounted
  in every container; the environment builder sets the variables of the role; the sidecar builder
  adds the containers of the engine runtime profiles.

  The injectors take a pod template and return the changed one; when one fails, its caller drops
  the template, so the partly changed template of the source is not part of the result.
\<close>

section \<open>config_builder.go\<close>

definition to_lower :: "string \<Rightarrow> string" where
  "to_lower s = map (\<lambda>c. let n = (of_char c :: nat) in
     if 65 \<le> n \<and> n \<le> 90 then char_of (n + 32) else c) s"

definition generate_port_key :: "service_port \<Rightarrow> string" where
  "generate_port_key p =
     (if sp_name p \<noteq> [] then to_lower (map (\<lambda>c. if c = CHR ''-'' then CHR ''_'' else c) (sp_name p))
      else ''port'' @ show_int (sp_port p))"

definition build_instance :: "rbg \<Rightarrow> role_spec \<Rightarrow> nat \<Rightarrow> instance_info" where
  "build_instance g r i = \<lparr>
     in_address = r_name r @ ''-'' @ show_int (int i) @ ''.'' @ get_workload_name g r,
     in_ports = fold (\<lambda>p m. gm_set (generate_port_key p) (sp_port p) m) (r_service_ports r) []\<rparr>"

definition build_instances :: "rbg \<Rightarrow> role_spec \<Rightarrow> instance_info list res" where
  "build_instances g r =
     (case deref (r_replicas r) of Inl e \<Rightarrow> Inl e
      | Inr n \<Rightarrow>
          if n < 0 then Inl (Panic MakeSliceNegative)
          else Inr (map (build_instance g r) [0..<nat n]))"

definition roles_info_step :: "rbg \<Rightarrow> role_spec \<Rightarrow> role_instances gomap \<Rightarrow> role_instances gomap res" where
  "roles_info_step g r m =
     (case deref (r_replicas r) of Inl e \<Rightarrow> Inl e
      | Inr n \<Rightarrow>
         (case build_instances g r of Inl e \<Rightarrow> Inl e
          | Inr is \<Rightarrow> Inr (gm_set (r_name r) \<lparr>ri_size = n, ri_instances = is\<rparr> m)))"

definition build_roles_info :: "rbg \<Rightarrow> role_instances gomap res" where
  "build_roles_info g = loop (roles_info_step g) (g_roles g) []"

definition get_role_names :: "rbg \<Rightarrow> string list" where
  "get_role_names g = map r_name (g_roles g)"

definition build_config :: "klib \<Rightarrow> rbg \<Rightarrow> string res" where
  "build_config lib g =
     (case build_roles_info g of Inl e \<Rightarrow> Inl e
      | Inr m \<Rightarrow> lib_yaml lib \<lparr>cc_name = g_name g, cc_size = int (length (g_roles g)),
          cc_role_names = get_role_names g, cc_roles = m\<rparr>)"

definition hide_system_annotations :: "config_map \<Rightarrow> config_map" where
  "hide_system_annotations cm = cm\<lparr>cm_meta := (cm_meta cm)
     \<lparr>om_annotations := filter_system_annotations (om_annotations (cm_meta cm))\<rparr>\<rparr>"

definition semantically_equal_configmap :: "klib \<Rightarrow> config_map option \<Rightarrow> config_map option \<Rightarrow> bool" where
  "semantically_equal_configmap lib old new =
     (case (old, new) of
        (None, None) \<Rightarrow> True
      | (Some a, Some b) \<Rightarrow> lib_config_map_same lib (hide_system_annotations a) (hide_system_annotations b)
      | _ \<Rightarrow> False)"

section \<open>env_builder.go\<close>

definition pod_index_path :: string where
  "pod_index_path = ''metadata.labels['' @ [CHR 0x27] @ ''apps.kubernetes.io/pod-index'' @ [CHR 0x27] @ '']''"

definition build_local_role_vars :: "rbg \<Rightarrow> role_spec \<Rightarrow> env_var list" where
  "build_local_role_vars g r =
     [\<lparr>ev_name = ''GROUP_NAME'', ev_value = g_name g, ev_value_from = None\<rparr>,
      \<lparr>ev_name = ''ROLE_NAME'', ev_value = r_name r, ev_value_from = None\<rparr>] @
     (if ws_kind (r_workload r) = ''StatefulSet'' \<or> ws_kind (r_workload r) = ''LeaderWorkerSet''
      then [\<lparr>ev_name = ''ROLE_INDEX'', ev_value = [], ev_value_from = Some (FieldRef pod_index_path)\<rparr>]
      else [])"

text \<open>A list of variables put into a map by name, later ones overwriting earlier ones, and read
  back sorted by name.\<close>

definition env_map :: "env_var list \<Rightarrow> env_var gomap" where
  "env_map es = fold (\<lambda>e m. gm_set (ev_name e) e m) es []"

definition env_list :: "env_var gomap \<Rightarrow> env_var list" where
  "env_list m = sort_key ev_name (map snd m)"

definition build_env :: "rbg \<Rightarrow> role_spec \<Rightarrow> env_var list" where
  "build_env g r = env_list (env_map (build_local_role_vars g r))"

section \<open>injector.go\<close>

definition config_volume_name :: string where
  "config_volume_name = ''rbg-cluster-config''"

definition config_mount_path :: string where
  "config_mount_path = ''/etc/rbg''"

definition config_key :: string where
  "config_key = ''config.yaml''"

definition as_config_map :: "obj \<Rightarrow> config_map option" where
  "as_config_map ob = (case ob of ObjConfigMap m \<Rightarrow> Some m | _ \<Rightarrow> None)"

definition role_config_map :: "rbg \<Rightarrow> role_spec \<Rightarrow> string \<Rightarrow> config_map" where
  "role_config_map g r data = \<lparr>
     cm_meta = empty_meta\<lparr>om_name := get_workload_name g r, om_namespace := g_namespace g,
       om_owners := [rbg_controller_ref g]\<rparr>,
     cm_data = Some [(config_key, data)]\<rparr>"

definition zero_config_map :: config_map where
  "zero_config_map = \<lparr>cm_meta = empty_meta, cm_data = None\<rparr>"

definition mount_config :: "container \<Rightarrow> container" where
  "mount_config c =
     (if list_ex (\<lambda>m. vm_name m = config_volume_name \<and> vm_mount_path m = config_mount_path) (c_mounts c)
      then c
      else c\<lparr>c_mounts := c_mounts c @ [\<lparr>vm_name = config_volume_name, vm_mount_path = config_mount_path,
        vm_read_only = True, vm_other = []\<rparr>]\<rparr>)"

definition add_config_volume :: "string \<Rightarrow> pod_spec \<Rightarrow> pod_spec" where
  "add_config_volume cm ps =
     (if list_ex (\<lambda>v. v_name v = config_volume_name) (ps_volumes ps) then ps
      else ps\<lparr>ps_volumes := ps_volumes ps @ [\<lparr>v_name = config_volume_name,
        v_source = ConfigMapSource cm [(config_key, config_key)]\<rparr>]\<rparr>)"

definition on_spec :: "(pod_spec \<Rightarrow> pod_spec) \<Rightarrow> pod_template \<Rightarrow> pod_template" where
  "on_spec f t = t\<lparr>pt_spec := f (pt_spec t)\<rparr>"

definition on_containers :: "(container \<Rightarrow> container) \<Rightarrow> pod_spec \<Rightarrow> pod_spec" where
  "on_containers f ps = ps\<lparr>ps_containers := map f (ps_containers ps)\<rparr>"

definition config_template :: "rbg \<Rightarrow> role_spec \<Rightarrow> pod_template \<Rightarrow> pod_template" where
  "config_template g r = on_spec (on_containers mount_config \<circ> add_config_volume (get_workload_name g r))"

definition inject_config ::
  "klib \<Rightarrow> 'w client \<Rightarrow> rbg \<Rightarrow> role_spec \<Rightarrow> pod_template \<Rightarrow> ('w, pod_template) act" where
  "inject_config lib c g r t =
     call (of_res (build_config lib g)) (\<lambda>data.
     let cfg = ObjConfigMap (role_config_map g r data) in
     call (convert_to lib as_config_map cfg) (\<lambda>new.
     call (get_if_exists c KConfigMap as_config_map (g_namespace g, get_workload_name g r)) (\<lambda>old.
     call (if semantically_equal_configmap lib
               (Some (case old of None \<Rightarrow> zero_config_map | Some m \<Rightarrow> m)) (Some new)
           then return_ok ()
           else patch_object_apply_configuration c (Inr (PatchObj cfg)) PatchSpec) (\<lambda>_.
     return_ok (config_template g r t)))))"

definition merge_env :: "env_var list \<Rightarrow> container \<Rightarrow> container" where
  "merge_env envs c = c\<lparr>c_env := env_list (env_map (c_env c @ envs))\<rparr>"

definition inject_env :: "rbg \<Rightarrow> role_spec \<Rightarrow> pod_template \<Rightarrow> pod_template" where
  "inject_env g r = on_spec (on_containers (merge_env (build_env g r)))"

section \<open>sidecar_builder.go\<close>

definition as_profile :: "obj \<Rightarrow> runtime_profile option" where
  "as_profile ob = (case ob of ObjProfile p \<Rightarrow> Some p | _ \<Rightarrow> None)"

text \<open>Append the items whose name is not there yet, one after the other.\<close>

definition add_missing :: "('a \<Rightarrow> string) \<Rightarrow> 'a list \<Rightarrow> 'a list \<Rightarrow> 'a list" where
  "add_missing name items xs =
     fold (\<lambda>x acc. if list_ex (\<lambda>y. name y = name x) acc then acc else acc @ [x]) items xs"

definition override_container :: "container \<Rightarrow> container \<Rightarrow> container" where
  "override_container ovr c = c\<lparr>
     c_env := (if c_env ovr \<noteq> [] then c_env c @ c_env ovr else c_env c),
     c_args := (case c_args ovr of Some (a # as) \<Rightarrow> Some ((case c_args c of None \<Rightarrow> [] | Some bs \<Rightarrow> bs) @ a # as)
                | _ \<Rightarrow> c_args c)\<rparr>"

text \<open>Only the first container with the name is changed.\<close>

fun override_first :: "container \<Rightarrow> container list \<Rightarrow> container list" where
  "override_first ovr [] = []"
| "override_first ovr (c # cs) =
     (if c_name c = c_name ovr then override_container ovr c # cs else c # override_first ovr cs)"

definition override_containers :: "string list \<Rightarrow> container list \<Rightarrow> container list \<Rightarrow> container list" where
  "override_containers names ovrs cs =
     fold (\<lambda>ovr acc. if \<not> contains_string names (c_name ovr) then acc else override_first ovr acc) ovrs cs"

definition runtime_template :: "runtime_profile_spec \<Rightarrow> engine_runtime \<Rightarrow> pod_template \<Rightarrow> pod_template" where
  "runtime_template sp rt = on_spec (\<lambda>ps. ps\<lparr>
     ps_init_containers := add_missing c_name (rp_init_containers sp) (ps_init_containers ps),
     ps_containers := override_containers (map c_name (rp_init_containers sp @ rp_containers sp))
       (er_containers rt) (add_missing c_name (rp_containers sp) (ps_containers ps)),
     ps_volumes := add_missing v_name (rp_volumes sp) (ps_volumes ps)\<rparr>)"

definition inject_runtime ::
  "'w client \<Rightarrow> engine_runtime \<Rightarrow> pod_template \<Rightarrow> ('w, pod_template) act" where
  "inject_runtime c rt t =
     call (wrap_err (GetRuntimeFailed (er_profile_name rt))
       (do_get c KProfile as_profile ([], er_profile_name rt))) (\<lambda>p.
     return_ok (runtime_template (rp_spec p) rt t))"

primrec inject_runtimes ::
  "'w client \<Rightarrow> engine_runtime list \<Rightarrow> pod_template \<Rightarrow> ('w, pod_template) act" where
  "inject_runtimes c [] t = return_ok t"
| "inject_runtimes c (rt # rts) t =
     call (wrap_err (EngineRuntimeFailed (er_profile_name rt)) (inject_runtime c rt t))
       (\<lambda>t'. inject_runtimes c rts t')"

definition inject_sidecar ::
  "'w client \<Rightarrow> rbg \<Rightarrow> role_spec \<Rightarrow> pod_template \<Rightarrow> ('w, pod_template) act" where
  "inject_sidecar c g r t =
     call (of_res (get_role g (r_name r))) (\<lambda>cur.
     inject_runtimes c (r_engine_runtimes cur) t)"

section \<open>Environment: lemmas\<close>

abbreviation by_name :: "env_var list \<Rightarrow> env_var gomap" where
  "by_name es \<equiv> map (\<lambda>e. (ev_name e, e)) es"

definition named_map :: "env_var gomap \<Rightarrow> bool" where
  "named_map m \<longleftrightarrow> gm_ok m \<and> (\<forall>(k, e) \<in> set m. ev_name e = k)"

lemma named_map_set: "named_map m \<Longrightarrow> named_map (gm_set (ev_name e) e m)"
  using gm_set_entries [of "ev_name e" e m] by (auto simp: named_map_def)

lemma fold_env_map:
  "named_map m \<Longrightarrow>
   named_map (fold (\<lambda>e m. gm_set (ev_name e) e m) es m) \<and>
   gm_get (fold (\<lambda>e m. gm_set (ev_name e) e m) es m) = gm_get m ++ map_of (by_name (rev es))"
proof (induction es arbitrary: m)
  case (Cons e es)
  have "named_map (gm_set (ev_name e) e m)" by (rule named_map_set [OF Cons.prems])
  from Cons.IH [OF this] show ?case
    by (auto simp: update_conv' map_add_def fun_eq_iff split: option.splits)
qed simp

lemma env_map_get: "gm_get (env_map es) = map_of (by_name (rev es))"
  and env_map_named: "named_map (env_map es)"
  using fold_env_map [of "[]" es] by (simp_all add: env_map_def named_map_def)

lemma named_map_keys: "named_map m \<Longrightarrow> map fst m = map ev_name (map snd m)"
  by (auto simp: named_map_def)

lemma env_list_sorted:
  assumes "named_map m"
  shows "sorted (map ev_name (env_list m))" and "distinct (map ev_name (env_list m))"
proof -
  have "distinct (map ev_name (map snd m))"
    using assms named_map_keys [OF assms] by (metis named_map_def gm_ok_def)
  then have "distinct (sort (map ev_name (map snd m)))" by simp
  moreover have "map ev_name (env_list m) = sort (map ev_name (map snd m))"
    unfolding env_list_def by (rule properties_for_sort [symmetric]) (simp_all add: multiset.map_comp)
  ultimately show "distinct (map ev_name (env_list m))" by simp
  show "sorted (map ev_name (env_list m))" by (simp add: env_list_def)
qed

lemma set_env_list: "named_map m \<Longrightarrow> e \<in> set (env_list m) \<longleftrightarrow> gm_get m (ev_name e) = Some e"
  by (force simp: env_list_def named_map_def gm_ok_def)

lemma env_list_eqI:
  assumes "named_map m" and "named_map m'" and "gm_get m = gm_get m'"
  shows "env_list m = env_list m'"
proof (rule map_sorted_distinct_set_unique [where f = ev_name])
  have "set (env_list m) = set (env_list m')"
    using assms by (auto simp: set_env_list)
  then show "inj_on ev_name (set (env_list m) \<union> set (env_list m'))"
    and "set (env_list m) = set (env_list m')"
    using env_list_sorted(2) [OF assms(1)] by (simp_all add: distinct_map)
qed (use env_list_sorted assms in blast)+

lemma env_list_lookup:
  assumes "named_map m"
  shows "map_of (by_name (rev (env_list m))) = gm_get m"
proof
  fix k
  have d: "distinct (map fst (by_name (rev (env_list m))))"
    using env_list_sorted(2) [OF assms] by (simp add: rev_map [symmetric] comp_def)
  show "map_of (by_name (rev (env_list m))) k = gm_get m k"
  proof (cases "gm_get m k")
    case None
    then have "k \<notin> fst ` set (by_name (rev (env_list m)))"
      using assms by (auto simp: set_env_list)
    then have "map_of (by_name (rev (env_list m))) k = None" by (simp only: map_of_eq_None_iff not_False_eq_True)
    with None show ?thesis by simp
  next
    case (Some e)
    then have "ev_name e = k" using assms by (auto simp: named_map_def dest!: map_of_SomeD)
    then have "(k, e) \<in> set (by_name (rev (env_list m)))"
      using Some assms by (auto simp: set_env_list)
    with d Some show ?thesis by (simp add: map_of_is_SomeI)
  qed
qed

lemma merge_env_lookup:
  "map_of (by_name (rev (c_env (merge_env envs c)))) = map_of (by_name (rev (c_env c))) ++ map_of (by_name (rev envs))"
  by (simp add: merge_env_def env_list_lookup [OF env_map_named] env_map_get)

lemma merge_env_idem: "merge_env envs (merge_env envs c) = merge_env envs c"
proof -
  have "env_list (env_map (c_env (merge_env envs c) @ envs)) = env_list (env_map (c_env c @ envs))"
  proof (rule env_list_eqI [OF env_map_named env_map_named])
    show "gm_get (env_map (c_env (merge_env envs c) @ envs)) = gm_get (env_map (c_env c @ envs))"
      using merge_env_lookup [of envs c] by (simp add: env_map_get map_add_assoc [symmetric] map_add_def fun_eq_iff split: option.splits)
  qed
  then show ?thesis by (simp add: merge_env_def)
qed

lemma on_containers_idem:
  "(\<And>c. f (f c) = f c) \<Longrightarrow> on_containers f (on_containers f ps) = on_containers f ps"
  by (simp add: on_containers_def comp_def)

lemma inject_env_idem: "inject_env g r (inject_env g r t) = inject_env g r t"
  by (simp add: inject_env_def on_spec_def on_containers_idem merge_env_idem)

section \<open>Configuration: lemmas\<close>

lemma mount_config_idem: "mount_config (mount_config c) = mount_config c"
  by (simp add: mount_config_def)

lemma add_config_volume_idem [simp]: "add_config_volume cm (add_config_volume cm ps) = add_config_volume cm ps"
  by (simp add: add_config_volume_def)

lemma on_containers_volume: "add_config_volume cm (on_containers f ps) = on_containers f (add_config_volume cm ps)"
  by (simp add: add_config_volume_def on_containers_def)

lemma config_template_idem: "config_template g r (config_template g r t) = config_template g r t"
  by (simp add: config_template_def on_spec_def on_containers_volume on_containers_idem mount_config_idem)

lemma show_int_inj: "in_i32 i \<Longrightarrow> in_i32 j \<Longrightarrow> show_int i = show_int j \<Longrightarrow> i = j"
  by (metis atoi_show_i32 option.inject)

lemma show_nat_no_dot: "CHR ''.'' \<notin> set (show_nat n)"
  using show_nat_digits [of n] by (auto simp: list_all_iff is_digit_def)

lemma build_instances_Inr:
  "build_instances g r = Inr is \<longleftrightarrow>
     (\<exists>n. r_replicas r = Some n \<and> 0 \<le> n \<and> is = map (build_instance g r) [0..<nat n])"
  by (cases "r_replicas r") (auto simp: build_instances_def)

lemma roles_info_step_Inr:
  "roles_info_step g r m = Inr m' \<longleftrightarrow>
     (\<exists>n. r_replicas r = Some n \<and> 0 \<le> n \<and> m' = gm_set (r_name r)
        \<lparr>ri_size = n, ri_instances = map (build_instance g r) [0..<nat n]\<rparr> m)"
  by (cases "r_replicas r") (auto simp: roles_info_step_def build_instances_def)

lemma loop_roles_info:
  assumes "loop (roles_info_step g) rs m = Inr m'" and "distinct (map r_name rs)"
  shows "gm_get m' k = (case find (\<lambda>r. r_name r = k) rs of None \<Rightarrow> gm_get m k
     | Some r \<Rightarrow> Some \<lparr>ri_size = the (r_replicas r),
         ri_instances = map (build_instance g r) [0..<nat (the (r_replicas r))]\<rparr>)"
  using assms
proof (induction rs arbitrary: m)
  case (Cons r rs)
  then obtain u where u: "roles_info_step g r m = Inr u" and l: "loop (roles_info_step g) rs u = Inr m'"
    by (auto split: sum.splits)
  have none: "r_name r = k \<Longrightarrow> find (\<lambda>r. r_name r = k) rs = None"
    using Cons.prems(2) by (auto simp: find_None_iff image_iff)
  from Cons.IH [OF l] Cons.prems(2) u none show ?case
    by (auto simp: roles_info_step_Inr update_conv' split: option.splits)
qed simp

section \<open>Sidecars: lemmas\<close>

lemma fold_add_missing:
  "\<exists>zs. add_missing name items xs = xs @ zs \<and> set zs \<subseteq> set items \<and>
     name ` set (xs @ zs) = name ` set xs \<union> name ` set items \<and>
     (distinct (map name xs) \<longrightarrow> distinct (map name (xs @ zs)))"
  unfolding add_missing_def
proof (induction items arbitrary: xs)
  case (Cons x items)
  show ?case
  proof (cases "list_ex (\<lambda>y. name y = name x) xs")
    case True
    then obtain y where "y \<in> set xs" and "name x = name y" unfolding list_ex_iff by metis
    then have "name x \<in> name ` set xs" by (intro image_eqI [where x = y])
    then have known: "name ` set xs \<union> name ` set (x # items) = name ` set xs \<union> name ` set items" by auto
    from Cons.IH [of xs] obtain zs where "fold (\<lambda>x acc. if list_ex (\<lambda>y. name y = name x) acc then acc else acc @ [x])
        items xs = xs @ zs" "set zs \<subseteq> set items" "name ` set (xs @ zs) = name ` set xs \<union> name ` set items"
        "distinct (map name xs) \<longrightarrow> distinct (map name (xs @ zs))" by blast
    with True known show ?thesis by (intro exI [of _ zs]) auto
  next
    case False
    then have new: "name x \<notin> name ` set xs" by (auto simp: list_ex_iff)
    from Cons.IH [of "xs @ [x]"] obtain zs where
      zs: "fold (\<lambda>x acc. if list_ex (\<lambda>y. name y = name x) acc then acc else acc @ [x]) items (xs @ [x]) = (xs @ [x]) @ zs"
        "set zs \<subseteq> set items" "name ` set ((xs @ [x]) @ zs) = name ` set (xs @ [x]) \<union> name ` set items"
        "distinct (map name (xs @ [x])) \<longrightarrow> distinct (map name ((xs @ [x]) @ zs))" by blast
    have "distinct (map name xs) \<longrightarrow> distinct (map name (xs @ [x]))" using new by simp
    with zs False show ?thesis by (intro exI [of _ "x # zs"]) auto
  qed
qed simp

lemma override_first_names [simp]: "map c_name (override_first ovr cs) = map c_name cs"
  by (induction cs) (simp_all add: override_container_def)

lemma override_containers_names [simp]: "map c_name (override_containers names ovrs cs) = map c_name cs"
  unfolding override_containers_def
  by (induction ovrs arbitrary: cs) simp_all

lemma override_first_other:
  "c \<in> set cs \<Longrightarrow> c_name c \<noteq> c_name ovr \<Longrightarrow> c \<in> set (override_first ovr cs)"
  by (induction cs) auto

lemma override_containers_other:
  "c \<in> set cs \<Longrightarrow> c_name c \<notin> set names \<Longrightarrow> c \<in> set (override_containers names ovrs cs)"
  unfolding override_containers_def
proof (induction ovrs arbitrary: cs)
  case (Cons ovr ovrs)
  have "c \<in> set (override_first ovr cs)" if "c_name ovr \<in> set names"
    using that Cons.prems by (intro override_first_other) auto
  with Cons show ?case by simp
qed simp

lemma inject_config_Inr:
  assumes "inject_config lib c g r t s = (Inr t', s')"
  obtains data where "build_config lib g = Inr data" and "t' = config_template g r t"
    and "only_calls (\<lambda>q. (\<exists>a. q = CGet KConfigMap (g_namespace g, get_workload_name g r) a)
        \<or> q = CApply (PatchObj (ObjConfigMap (role_config_map g r data)))) (inject_config lib c g r t)"
proof -
  from assms obtain data where data: "build_config lib g = Inr data"
    by (auto simp: inject_config_def call_eq_Inr_iff)
  let ?P = "\<lambda>q. (\<exists>a. q = CGet KConfigMap (g_namespace g, get_workload_name g r) a)
        \<or> q = CApply (PatchObj (ObjConfigMap (role_config_map g r data)))"
  have "only_calls ?P (inject_config lib c g r t)"
    unfolding inject_config_def data Let_def call_of_res
    by (intro only_calls_call only_calls_if only_calls_patch only_calls_get_if_exists only_calls_convert
        only_calls_return) auto
  moreover have "t' = config_template g r t"
    using assms data by (auto simp: inject_config_def call_eq_Inr_iff Let_def)
  ultimately show thesis using data that by blast
qed

text \<open>A run of \<open>InjectConfig\<close> that succeeds: what was read and whether it was applied.\<close>

definition read_answer :: "config_map option \<Rightarrow> api_error + obj" where
  "read_answer found = (case found of None \<Rightarrow> Inl NotFound | Some m \<Rightarrow> Inr (ObjConfigMap m))"

definition config_current :: "klib \<Rightarrow> config_map option \<Rightarrow> config_map \<Rightarrow> bool" where
  "config_current lib found new \<longleftrightarrow> semantically_equal_configmap lib
     (Some (case found of None \<Rightarrow> zero_config_map | Some m \<Rightarrow> m)) (Some new)"

lemma inject_config_run:
  assumes "inject_config lib c g r t s = (Inr t', s')"
  obtains data new found where "build_config lib g = Inr data"
    and "lib_convert lib (ObjConfigMap (role_config_map g r data)) = Inr (ObjConfigMap new)"
    and "t' = config_template g r t"
    and "calls s' = calls s @ CGet KConfigMap (g_namespace g, get_workload_name g r) (read_answer found) #
      (if config_current lib found new then [] else [CApply (PatchObj (ObjConfigMap (role_config_map g r data)))])"
proof -
  obtain data new found u where data: "build_config lib g = Inr data"
    and conv: "convert_to lib as_config_map (ObjConfigMap (role_config_map g r data)) s = (Inr new, s)"
    and read: "get_if_exists c KConfigMap as_config_map (g_namespace g, get_workload_name g r) s = (Inr found, u)"
    and applied: "(if config_current lib found new then return_ok () else
        patch_object_apply_configuration c (Inr (PatchObj (ObjConfigMap (role_config_map g r data)))) PatchSpec) u = (Inr (), s')"
    and t': "t' = config_template g r t"
    using assms by (auto simp: inject_config_def call_eq_Inr_iff Let_def convert_to_def config_current_def)
  have cm: "as_config_map ob = Some m \<longleftrightarrow> ob = ObjConfigMap m" for ob m
    by (cases ob) (auto simp: as_config_map_def)
  have "lib_convert lib (ObjConfigMap (role_config_map g r data)) = Inr (ObjConfigMap new)"
    using conv by (auto simp: convert_to_def cm split: sum.splits option.splits)
  moreover have "calls u = calls s @ [CGet KConfigMap (g_namespace g, get_workload_name g r) (read_answer found)]"
    using read by (rule get_if_exists_cases) (auto simp: read_answer_def cm)
  moreover have "calls s' = calls u @ (if config_current lib found new then []
      else [CApply (PatchObj (ObjConfigMap (role_config_map g r data)))])"
    using applied by (auto simp: patch_object_apply_configuration_def call_eq_Inr_iff do_apply_def log_call_def
        split: if_splits prod.splits)
  ultimately show thesis by (intro that [OF data _ t']) simp_all
qed

section \<open>Properties\<close>

text \<open>The variables of a role by name.\<close>

lemma build_env_lookup:
  "map_of (by_name (rev (build_env g r))) x =
     (if x = ''GROUP_NAME'' then Some \<lparr>ev_name = x, ev_value = g_name g, ev_value_from = None\<rparr>
      else if x = ''ROLE_NAME'' then Some \<lparr>ev_name = x, ev_value = r_name r, ev_value_from = None\<rparr>
      else if x = ''ROLE_INDEX'' \<and> ws_kind (r_workload r) \<in> {''StatefulSet'', ''LeaderWorkerSet''}
      then Some \<lparr>ev_name = x, ev_value = [], ev_value_from = Some (FieldRef pod_index_path)\<rparr>
      else None)"
  by (simp add: build_env_def env_list_lookup [OF env_map_named] env_map_get build_local_role_vars_def)

lemma map_of_by_name_rev: "distinct (map ev_name es) \<Longrightarrow> map_of (by_name (rev es)) = map_of (by_name es)"
  by (rule gm_get_perm) (simp_all add: gm_ok_def comp_def rev_map [symmetric])

lemma merge_env_by_name:
  "map_of (by_name (c_env (merge_env envs c))) = map_of (by_name (rev (c_env c))) ++ map_of (by_name (rev envs))"
  unfolding merge_env_lookup [symmetric]
  by (rule map_of_by_name_rev [symmetric]) (simp add: merge_env_def env_list_sorted(2) [OF env_map_named])

text \<open>C40: \<open>InjectEnv\<close> changes the environment of the containers and nothing else. Afterwards the variables
  of a container are sorted by name without duplicates, and looking up a name gives the variable of the
  role when the role has one of that name (the group's name, the role's name, for a StatefulSet or a
  LeaderWorkerSet the pod's index), otherwise the last one the container had of that name, or nothing.
  Injecting again changes nothing.\<close>

theorem inject_env_result:
  "list_all2 (\<lambda>c c'. c' = c\<lparr>c_env := c_env c'\<rparr> \<and> sorted (map ev_name (c_env c')) \<and> distinct (map ev_name (c_env c')) \<and>
      (\<forall>x. map_of (map (\<lambda>e. (ev_name e, e)) (c_env c')) x =
        (if x = ''GROUP_NAME'' then Some \<lparr>ev_name = x, ev_value = g_name g, ev_value_from = None\<rparr>
         else if x = ''ROLE_NAME'' then Some \<lparr>ev_name = x, ev_value = r_name r, ev_value_from = None\<rparr>
         else if x = ''ROLE_INDEX'' \<and> ws_kind (r_workload r) \<in> {''StatefulSet'', ''LeaderWorkerSet''}
         then Some \<lparr>ev_name = x, ev_value = [], ev_value_from = Some (FieldRef pod_index_path)\<rparr>
         else map_of (map (\<lambda>e. (ev_name e, e)) (rev (c_env c))) x)))
     (ps_containers (pt_spec t)) (ps_containers (pt_spec (inject_env g r t))) \<and>
   inject_env g r t = t\<lparr>pt_spec := (pt_spec t)\<lparr>ps_containers := ps_containers (pt_spec (inject_env g r t))\<rparr>\<rparr> \<and>
   inject_env g r (inject_env g r t) = inject_env g r t"
proof (intro conjI inject_env_idem)
  show "inject_env g r t = t\<lparr>pt_spec := (pt_spec t)\<lparr>ps_containers := ps_containers (pt_spec (inject_env g r t))\<rparr>\<rparr>"
    by (simp add: inject_env_def on_spec_def on_containers_def)
  have env: "c_env (merge_env envs c) = env_list (env_map (c_env c @ envs))" and same: "merge_env envs c = c\<lparr>c_env := c_env (merge_env envs c)\<rparr>"
    for envs c by (simp_all add: merge_env_def)
  show "list_all2 (\<lambda>c c'. c' = c\<lparr>c_env := c_env c'\<rparr> \<and> sorted (map ev_name (c_env c')) \<and> distinct (map ev_name (c_env c')) \<and>
      (\<forall>x. map_of (map (\<lambda>e. (ev_name e, e)) (c_env c')) x =
        (if x = ''GROUP_NAME'' then Some \<lparr>ev_name = x, ev_value = g_name g, ev_value_from = None\<rparr>
         else if x = ''ROLE_NAME'' then Some \<lparr>ev_name = x, ev_value = r_name r, ev_value_from = None\<rparr>
         else if x = ''ROLE_INDEX'' \<and> ws_kind (r_workload r) \<in> {''StatefulSet'', ''LeaderWorkerSet''}
         then Some \<lparr>ev_name = x, ev_value = [], ev_value_from = Some (FieldRef pod_index_path)\<rparr>
         else map_of (map (\<lambda>e. (ev_name e, e)) (rev (c_env c))) x)))
     (ps_containers (pt_spec t)) (ps_containers (pt_spec (inject_env g r t)))"
    unfolding inject_env_def on_spec_def on_containers_def
    by (simp add: list_all2_map2 list.rel_refl same [symmetric] merge_env_by_name map_add_def build_env_lookup)
      (simp add: list_all2_same env env_list_sorted [OF env_map_named] merge_env_def)
qed

theorem inject_env_result_witness:
  "\<exists>c'. ps_containers (pt_spec (inject_env (sample_rbg [sample_role ''a'' [] 2]) (sample_role ''a'' [] 2)
       (on_spec (\<lambda>ps. ps\<lparr>ps_containers := [(sample_container ''m'')\<lparr>c_env := [\<lparr>ev_name = ''X'', ev_value = ''1'', ev_value_from = None\<rparr>]\<rparr>]\<rparr>)
          sample_template))) = [c'] \<and>
     map_of (map (\<lambda>e. (ev_name e, e)) (c_env c')) ''X'' = Some \<lparr>ev_name = ''X'', ev_value = ''1'', ev_value_from = None\<rparr> \<and>
     map_of (map (\<lambda>e. (ev_name e, e)) (c_env c')) ''ROLE_NAME'' = Some \<lparr>ev_name = ''ROLE_NAME'', ev_value = ''a'', ev_value_from = None\<rparr>"
proof -
  let ?c = "(sample_container ''m'')\<lparr>c_env := [\<lparr>ev_name = ''X'', ev_value = ''1'', ev_value_from = None\<rparr>]\<rparr>"
  let ?t = "on_spec (\<lambda>ps. ps\<lparr>ps_containers := [?c]\<rparr>) sample_template"
  have one: "ps_containers (pt_spec ?t) = [?c]" by (simp add: on_spec_def)
  show ?thesis
    using inject_env_result [of "sample_rbg [sample_role ''a'' [] 2]" "sample_role ''a'' [] 2" ?t]
    unfolding one list_all2_Cons1 by (auto simp: sample_role_def)
qed

text \<open>The order in which a template lists its variables does not matter: two containers whose
  environments hold the same variables with unique names get the same merged environment.\<close>

theorem merge_env_order_independent:
  assumes "distinct (map ev_name e1)" and "mset e1 = mset e2"
  shows "merge_env envs (c\<lparr>c_env := e1\<rparr>) = merge_env envs (c\<lparr>c_env := e2\<rparr>)"
proof -
  have "map_of (by_name (rev e1)) = map_of (by_name (rev e2))"
  proof (rule gm_get_perm)
    show "gm_ok (by_name (rev e1))"
      using assms(1) by (simp add: gm_ok_def comp_def rev_map [symmetric])
    show "mset (by_name (rev e1)) = mset (by_name (rev e2))" using assms(2) by simp
  qed
  then have "env_list (env_map (e1 @ envs)) = env_list (env_map (e2 @ envs))"
    by (intro env_list_eqI env_map_named) (simp add: env_map_get)
  then show ?thesis by (simp add: merge_env_def)
qed

definition sample_var :: "string \<Rightarrow> string \<Rightarrow> env_var" where
  "sample_var n v = \<lparr>ev_name = n, ev_value = v, ev_value_from = None\<rparr>"

theorem merge_env_order_independent_witness:
  "merge_env [] ((sample_container ''m'')\<lparr>c_env := [sample_var ''B'' ''1'', sample_var ''A'' ''2'']\<rparr>)
    = merge_env [] ((sample_container ''m'')\<lparr>c_env := [sample_var ''A'' ''2'', sample_var ''B'' ''1'']\<rparr>)"
  by (rule merge_env_order_independent) (simp_all add: sample_var_def)

text \<open>C39: What \<open>InjectConfig\<close> does when it succeeds. It reads the role's config map once, and applies the
  one built from the group (the group's configuration under \<open>config.yaml\<close>, the role's workload name, the
  group as controller) exactly when the one it read, or an empty one where none was found, differs from
  it. The template gains the volume of that config map, unless it has a volume of that name, and each
  container its read-only mount at \<open>/etc/rbg\<close>, unless it has it; nothing else of the template changes.\<close>

theorem inject_config_result:
  assumes "fst (inject_config lib c g r t s) = Inr t'"
  shows "\<exists>data cm new found. build_config lib g = Inr data \<and>
    cm = \<lparr>cm_meta = empty_meta\<lparr>om_name := get_workload_name g r, om_namespace := g_namespace g,
            om_owners := [rbg_controller_ref g]\<rparr>,
          cm_data = Some [(''config.yaml'', data)]\<rparr> \<and>
    lib_convert lib (ObjConfigMap cm) = Inr (ObjConfigMap new) \<and>
    calls (snd (inject_config lib c g r t s)) = calls s @
      CGet KConfigMap (g_namespace g, get_workload_name g r)
        (case found of None \<Rightarrow> Inl NotFound | Some m \<Rightarrow> Inr (ObjConfigMap m)) #
      (if semantically_equal_configmap lib (Some (case found of None \<Rightarrow> zero_config_map | Some m \<Rightarrow> m)) (Some new)
       then [] else [CApply (PatchObj (ObjConfigMap cm))]) \<and>
    t' = t\<lparr>pt_spec := (pt_spec t)\<lparr>
      ps_volumes := ps_volumes (pt_spec t) @
        (if \<exists>v \<in> set (ps_volumes (pt_spec t)). v_name v = ''rbg-cluster-config'' then []
         else [\<lparr>v_name = ''rbg-cluster-config'',
           v_source = ConfigMapSource (get_workload_name g r) [(''config.yaml'', ''config.yaml'')]\<rparr>]),
      ps_containers := map (\<lambda>x. x\<lparr>c_mounts := c_mounts x @
        (if \<exists>m \<in> set (c_mounts x). vm_name m = ''rbg-cluster-config'' \<and> vm_mount_path m = ''/etc/rbg'' then []
         else [\<lparr>vm_name = ''rbg-cluster-config'', vm_mount_path = ''/etc/rbg'', vm_read_only = True, vm_other = []\<rparr>])\<rparr>)
        (ps_containers (pt_spec t))\<rparr>\<rparr>"
proof -
  obtain s' where run: "inject_config lib c g r t s = (Inr t', s')"
    using assms by (metis prod.collapse)
  from inject_config_run [OF this] obtain data new found where
    cfg: "build_config lib g = Inr data"
      "lib_convert lib (ObjConfigMap (role_config_map g r data)) = Inr (ObjConfigMap new)"
    and t': "t' = config_template g r t"
    and trace: "calls s' = calls s @ CGet KConfigMap (g_namespace g, get_workload_name g r) (read_answer found) #
      (if config_current lib found new then [] else [CApply (PatchObj (ObjConfigMap (role_config_map g r data)))])" .
  have mounted: "mount_config x = x\<lparr>c_mounts := c_mounts x @
      (if \<exists>m \<in> set (c_mounts x). vm_name m = ''rbg-cluster-config'' \<and> vm_mount_path m = ''/etc/rbg'' then []
       else [\<lparr>vm_name = ''rbg-cluster-config'', vm_mount_path = ''/etc/rbg'', vm_read_only = True, vm_other = []\<rparr>])\<rparr>" for x
    by (simp add: mount_config_def config_volume_name_def config_mount_path_def list_ex_iff)
  have "t' = t\<lparr>pt_spec := (pt_spec t)\<lparr>
      ps_volumes := ps_volumes (pt_spec t) @
        (if \<exists>v \<in> set (ps_volumes (pt_spec t)). v_name v = ''rbg-cluster-config'' then []
         else [\<lparr>v_name = ''rbg-cluster-config'',
           v_source = ConfigMapSource (get_workload_name g r) [(''config.yaml'', ''config.yaml'')]\<rparr>]),
      ps_containers := map mount_config (ps_containers (pt_spec t))\<rparr>\<rparr>"
    by (simp add: t' config_template_def on_spec_def on_containers_def add_config_volume_def
        config_volume_name_def config_key_def list_ex_iff)
  with cfg trace run show ?thesis
    unfolding mounted [abs_def]
    by (intro exI [of _ data] exI [of _ "role_config_map g r data"] exI [of _ new] exI [of _ found])
      (simp add: role_config_map_def config_key_def read_answer_def config_current_def)
qed

theorem inject_config_result_witness:
  "\<exists>t' data. fst (inject_config sample_lib store_client (sample_rbg [sample_role ''a'' [] 2]) (sample_role ''a'' [] 2)
      sample_template (run_on [])) = Inr t' \<and>
    map v_source (ps_volumes (pt_spec t')) =
      [ConfigMapSource (get_workload_name (sample_rbg [sample_role ''a'' [] 2]) (sample_role ''a'' [] 2))
        [(''config.yaml'', ''config.yaml'')]] \<and>
    build_config sample_lib (sample_rbg [sample_role ''a'' [] 2]) = Inr data \<and>
    CApply (PatchObj (ObjConfigMap (role_config_map (sample_rbg [sample_role ''a'' [] 2]) (sample_role ''a'' [] 2) data)))
      \<in> set (calls (snd (inject_config sample_lib store_client (sample_rbg [sample_role ''a'' [] 2])
        (sample_role ''a'' [] 2) sample_template (run_on []))))"
proof -
  let ?g = "sample_rbg [sample_role ''a'' [] 2]" and ?r = "sample_role ''a'' [] 2"
  let ?run = "inject_config sample_lib store_client ?g ?r sample_template (run_on [])"
  have "\<not> isl (fst ?run)" and len: "length (calls (snd ?run)) = 2" and none: "ps_volumes (pt_spec sample_template) = []"
    by code_simp+
  then obtain t' where t': "fst ?run = Inr t'" by (cases "fst ?run") auto
  from inject_config_result [OF this] len none show ?thesis
    unfolding t' by (auto simp: run_on_def role_config_map_def config_key_def split: if_splits)
qed

text \<open>The cluster configuration is complete: with unique role names, every role of the group has
  an entry with its replica count and one instance per replica, and no two instances of a role have
  the same address.\<close>

theorem roles_info_complete:
  assumes "build_roles_info g = Inr m" and "distinct (map r_name (g_roles g))"
    and "r \<in> set (g_roles g)" and "r_replicas r = Some n" and "n < 2147483648"
  shows "\<exists>info. gm_get m (r_name r) = Some info \<and> ri_size info = n \<and>
    length (ri_instances info) = nat n \<and> distinct (map in_address (ri_instances info))"
proof -
  have "find (\<lambda>q. r_name q = r_name r) (g_roles g) \<noteq> None" using assms(3) by (auto simp: find_None_iff)
  then obtain q where q: "find (\<lambda>q. r_name q = r_name r) (g_roles g) = Some q" by auto
  then have "q \<in> set (g_roles g)" and "r_name q = r_name r" by (auto simp: find_Some_iff)
  with assms(2,3) have "q = r" by (auto simp: distinct_map inj_on_def)
  with q loop_roles_info [of g "g_roles g" "[]" m "r_name r"] assms(1,2,4) have
    get: "gm_get m (r_name r) = Some \<lparr>ri_size = n, ri_instances = map (build_instance g r) [0..<nat n]\<rparr>"
    by (simp add: build_roles_info_def)
  have "inj_on (\<lambda>i. show_int (int i)) {0..<nat n}"
  proof (rule inj_onI)
    fix x y assume "x \<in> {0..<nat n}" "y \<in> {0..<nat n}" "show_int (int x) = show_int (int y)"
    then have "int x = int y" using assms(5) by (intro show_int_inj) (auto simp: in_i32_def)
    then show "x = y" by simp
  qed
  then have "inj_on (\<lambda>i. in_address (build_instance g r i)) {0..<nat n}"
    by (simp add: inj_on_def build_instance_def)
  then have "distinct (map in_address (map (build_instance g r) [0..<nat n]))"
    by (simp only: map_map distinct_map comp_def distinct_upt set_upt simp_thms)
  with get show ?thesis by (simp del: map_map)
qed

theorem roles_info_complete_witness:
  "\<exists>m info. build_roles_info (sample_rbg [sample_role ''a'' [] 2]) = Inr m \<and> gm_get m ''a'' = Some info \<and>
    ri_size info = 2 \<and> length (ri_instances info) = 2 \<and> distinct (map in_address (ri_instances info))"
proof -
  let ?r = "sample_role ''a'' [] 2"
  have "\<not> isl (build_roles_info (sample_rbg [?r]))" by code_simp
  then obtain m where m: "build_roles_info (sample_rbg [?r]) = Inr m" 
    by (cases "build_roles_info (sample_rbg [?r])") auto
  have "r_name ?r = ''a''" and "r_replicas ?r = Some 2" by (simp_all add: sample_role_def)
  with roles_info_complete [OF m, of ?r 2] m show ?thesis by (auto simp: sample_rbg_def)
qed

text \<open>Injecting an engine runtime profile keeps what the template has: the containers keep their
  names and order, the containers of the profile that are missing follow, a container the profile
  does not name is left as it is, and distinct names stay distinct.\<close>

theorem runtime_template_result:
  "\<exists>zs. map c_name (ps_containers (pt_spec (runtime_template sp rt t))) = map c_name (ps_containers (pt_spec t)) @ zs \<and>
     set (map c_name (rp_containers sp)) \<subseteq> set (map c_name (ps_containers (pt_spec t)) @ zs) \<and>
     (\<forall>c \<in> set (ps_containers (pt_spec t)). c_name c \<notin> c_name ` set (rp_init_containers sp @ rp_containers sp) \<longrightarrow>
        c \<in> set (ps_containers (pt_spec (runtime_template sp rt t)))) \<and>
     (distinct (map c_name (ps_containers (pt_spec t))) \<longrightarrow>
        distinct (map c_name (ps_containers (pt_spec (runtime_template sp rt t)))))"
proof -
  obtain zs where zs: "add_missing c_name (rp_containers sp) (ps_containers (pt_spec t)) = ps_containers (pt_spec t) @ zs"
    "c_name ` set (ps_containers (pt_spec t) @ zs) = c_name ` set (ps_containers (pt_spec t)) \<union> c_name ` set (rp_containers sp)"
    "distinct (map c_name (ps_containers (pt_spec t))) \<longrightarrow> distinct (map c_name (ps_containers (pt_spec t) @ zs))"
    using fold_add_missing [of c_name "rp_containers sp" "ps_containers (pt_spec t)"] by blast
  have names: "map c_name (ps_containers (pt_spec (runtime_template sp rt t)))
      = map c_name (ps_containers (pt_spec t)) @ map c_name zs"
    by (simp add: runtime_template_def on_spec_def zs(1))
  have keep: "c \<in> set (ps_containers (pt_spec (runtime_template sp rt t)))"
    if "c \<in> set (ps_containers (pt_spec t))" "c_name c \<notin> c_name ` set (rp_init_containers sp @ rp_containers sp)" for c
    unfolding runtime_template_def on_spec_def
    by simp (rule override_containers_other, use that zs(1) in auto)
  have "set (map c_name (rp_containers sp)) \<subseteq> set (map c_name (ps_containers (pt_spec t)) @ map c_name zs)"
    using zs(2) by auto
  with names keep zs(3) show ?thesis by (metis map_append)
qed

definition sample_profile :: runtime_profile_spec where
  "sample_profile = \<lparr>rp_init_containers = [], rp_containers = [sample_container ''sidecar''],
     rp_volumes = [], rp_update_strategy = []\<rparr>"

theorem runtime_template_result_witness:
  "distinct (map c_name (ps_containers (pt_spec (runtime_template sample_profile
       \<lparr>er_profile_name = ''p'', er_inject_containers = [], er_containers = []\<rparr> sample_template)))) \<and>
   sample_container ''main'' \<in> set (ps_containers (pt_spec (runtime_template sample_profile
       \<lparr>er_profile_name = ''p'', er_inject_containers = [], er_containers = []\<rparr> sample_template)))"
proof -
  have "distinct (map c_name (ps_containers (pt_spec sample_template)))"
    and "sample_container ''main'' \<in> set (ps_containers (pt_spec sample_template))"
    and "c_name (sample_container ''main'') \<notin>
      c_name ` set (rp_init_containers sample_profile @ rp_containers sample_profile)"
    by (simp_all add: sample_profile_def sample_template_def sample_container_def)
  with runtime_template_result [of sample_profile "\<lparr>er_profile_name = ''p'', er_inject_containers = [], er_containers = []\<rparr>"
      sample_template] show ?thesis by blast
qed

end
