(* ===== verification/Pod_Template.thy ===== *)
theory Pod_Template
  imports Discovery
begin

text \<open>
  \<open>ConstructPodTemplateSpecApplyConfiguration\<close> of \<open>pod_reconciler.go\<close>: the pod template of a role
  with everything injected and the labels of the workload on it.

  The builder methods of the apply configurations (\<open>WithLabels\<close>, \<open>WithSpec\<close> and so on) set the
  fields of the record; \<open>WithLabels\<close> and \<open>WithAnnotations\<close> put their entries into the map that is
  there.
\<close>

definition with_entries :: "strmap \<Rightarrow> strmap \<Rightarrow> strmap" where
  "with_entries entries m =
     (if sm_entries entries = [] then m
      else Some (fold (\<lambda>(k, v). gm_set k v) (sm_entries entries) (sm_entries m)))"

definition default_injectors :: "string list" where
  "default_injectors = [''config'', ''sidecar'', ''env'']"

definition pod_labels_for :: "rbg \<Rightarrow> strmap \<Rightarrow> strmap" where
  "pod_labels_for g labels =
     (if enable_gang_scheduling g
      then Some (gm_set PodGroupLabelKey (g_name g) (sm_entries labels))
      else labels)"

definition construct_pod_template ::
  "klib \<Rightarrow> 'w client \<Rightarrow> string list option \<Rightarrow> rbg \<Rightarrow> role_spec \<Rightarrow> strmap \<Rightarrow> pod_template option
     \<Rightarrow> ('w, pod_template) act" where
  "construct_pod_template lib c injectors g r labels tmpl =
     (let t0 = (case tmpl of Some t \<Rightarrow> t | None \<Rightarrow> r_template r);
          injs = (case injectors of Some xs \<Rightarrow> xs | None \<Rightarrow> default_injectors) in
      call (if contains_string injs ''config''
            then wrap_err InjectConfigFailed (inject_config lib c g r t0) else return_ok t0) (\<lambda>t1.
      call (if contains_string injs ''sidecar''
            then wrap_err InjectSidecarFailed (inject_sidecar c g r t1) else return_ok t1) (\<lambda>t2.
      let t3 = (if contains_string injs ''env'' then inject_env g r t2 else t2) in
      call (of_res (lib_convert_template lib t3)) (\<lambda>t4.
      return_ok (t4\<lparr>pt_meta := (pt_meta t4)
        \<lparr>om_labels := with_entries (pod_labels_for g labels) (om_labels (pt_meta t4))\<rparr>\<rparr>)))))"

section \<open>In place\<close>

text \<open>
  Called with a template of the caller, the function works on the caller's array of containers. The
  config and environment injectors write into its elements, the sidecar builder overrides elements and
  appends new ones; the first append moves the containers to a new array, because the cache hands out
  deep copies and those have no spare capacity, and what follows is written to that one. The caller is
  left with its array and its length.

  \<open>construct_pod_template_on\<close> returns with the configuration the containers the caller is left with. In
  \<open>inject_runtimes_on\<close> the second component is \<open>None\<close> while the template still works on that array.
\<close>

definition left_behind :: "pod_template \<Rightarrow> pod_template \<Rightarrow> container list option" where
  "left_behind t t' =
     (if length (ps_containers (pt_spec t')) = length (ps_containers (pt_spec t)) then None
      else Some (ps_containers (pt_spec t)))"

primrec inject_runtimes_on ::
  "'w client \<Rightarrow> engine_runtime list \<Rightarrow> pod_template \<Rightarrow> container list option
     \<Rightarrow> ('w, pod_template \<times> container list option) act" where
  "inject_runtimes_on c [] t left = return_ok (t, left)"
| "inject_runtimes_on c (rt # rts) t left =
     call (wrap_err (EngineRuntimeFailed (er_profile_name rt)) (inject_runtime c rt t)) (\<lambda>t'.
     inject_runtimes_on c rts t' (case left of Some cs \<Rightarrow> Some cs | None \<Rightarrow> left_behind t t'))"

definition construct_pod_template_on ::
  "klib \<Rightarrow> 'w client \<Rightarrow> string list option \<Rightarrow> rbg \<Rightarrow> role_spec \<Rightarrow> strmap \<Rightarrow> pod_template
     \<Rightarrow> ('w, pod_template \<times> container list) act" where
  "construct_pod_template_on lib c injectors g r labels t0 =
     (let injs = (case injectors of Some xs \<Rightarrow> xs | None \<Rightarrow> default_injectors) in
      call (if contains_string injs ''config''
            then wrap_err InjectConfigFailed (inject_config lib c g r t0) else return_ok t0) (\<lambda>t1.
      call (if contains_string injs ''sidecar''
            then wrap_err InjectSidecarFailed (call (of_res (get_role g (r_name r))) (\<lambda>cur.
              inject_runtimes_on c (r_engine_runtimes cur) t1 None)) else return_ok (t1, None)) (\<lambda>(t2, left).
      let t3 = (if contains_string injs ''env'' then inject_env g r t2 else t2) in
      call (of_res (lib_convert_template lib t3)) (\<lambda>t4.
      return_ok (t4\<lparr>pt_meta := (pt_meta t4)
        \<lparr>om_labels := with_entries (pod_labels_for g labels) (om_labels (pt_meta t4))\<rparr>\<rparr>,
        case left of Some cs \<Rightarrow> cs | None \<Rightarrow> ps_containers (pt_spec t3))))))"

lemma inject_runtimes_on_fst:
  "call (inject_runtimes_on c rts t left) (\<lambda>(t', l). return_ok t') = inject_runtimes c rts t"
  by (induction rts arbitrary: t left) (simp_all add: call_assoc)

lemma wrap_err_call_pair:
  "wrap_err f (call m (\<lambda>(x, l). return_ok x)) = call (wrap_err f m) (\<lambda>(x, l). return_ok x)"
  by (rule ext) (auto simp: wrap_err_def handle_def call_def return_ok_def return_err_def split: prod.splits sum.splits)

lemma construct_pod_template_on_fst:
  "call (construct_pod_template_on lib c injs g r labels t) (\<lambda>(x, left). return_ok x)
     = construct_pod_template lib c injs g r labels (Some t)"
proof -
  have sidecar: "wrap_err InjectSidecarFailed (inject_sidecar c g r t1) =
      call (wrap_err InjectSidecarFailed (call (of_res (get_role g (r_name r))) (\<lambda>cur.
        inject_runtimes_on c (r_engine_runtimes cur) t1 None))) (\<lambda>(x, l). return_ok x)" for t1
    by (simp add: inject_sidecar_def inject_runtimes_on_fst [symmetric, of _ _ _ None] call_assoc [symmetric]
        wrap_err_call_pair)
  show ?thesis
    by (cases "contains_string (case injs of Some xs \<Rightarrow> xs | None \<Rightarrow> default_injectors) ''sidecar''")
      (simp_all add: construct_pod_template_def construct_pod_template_on_def Let_def call_assoc sidecar case_prod_beta
        split del: if_split cong: if_cong)
qed

lemma call_pair_state: "snd (call m (\<lambda>(x, l). return_ok x) s) = snd (m s)"
  and call_pair_error: "fst (call m (\<lambda>(x, l). return_ok x) s) = Inl e \<longleftrightarrow> fst (m s) = Inl e"
  by (auto simp: call_def return_ok_def split: prod.splits sum.splits)

lemma only_calls_map:
  assumes "only_calls P (call m (\<lambda>(x, l). return_ok x))"
  shows "only_calls P m"
  unfolding only_calls_def
proof (intro allI impI)
  fix s r t assume "m s = (r, t)"
  then have "snd (call m (\<lambda>(x, l). return_ok x) s) = t" by (simp add: call_pair_state)
  then show "(\<exists>cs. calls t = calls s @ cs \<and> list_all P cs) \<and> watched t = watched s"
    using assms unfolding only_calls_def by (metis prod.collapse)
qed

section \<open>Lemmas\<close>

lemma fold_set_get:
  "gm_get (fold (\<lambda>(k, v). gm_set k v) es m) = gm_get m ++ map_of (rev es)"
proof (induction es arbitrary: m)
  case (Cons e es)
  then show ?case by (cases e) (auto simp: update_conv' map_add_def fun_eq_iff split: option.splits)
qed simp

lemma with_entries_get:
  "gm_get (sm_entries (with_entries es m)) = gm_get (sm_entries m) ++ map_of (rev (sm_entries es))"
  by (simp add: with_entries_def fold_set_get)

lemma with_entries_hit:
  "gm_ok (sm_entries es) \<Longrightarrow> gm_get (sm_entries es) k = Some v \<Longrightarrow>
   gm_get (sm_entries (with_entries es m)) k = Some v"
  using gm_get_perm [of "sm_entries es" "rev (sm_entries es)"] by (simp add: with_entries_get)

text \<open>The calls: reads, and applies of the role's config map.\<close>

definition template_call :: "klib \<Rightarrow> rbg \<Rightarrow> role_spec \<Rightarrow> call \<Rightarrow> bool" where
  "template_call lib g r q \<longleftrightarrow> (\<exists>k n a. q = CGet k n a) \<or>
     (\<exists>data. build_config lib g = Inr data \<and> q = CApply (PatchObj (ObjConfigMap (role_config_map g r data))))"

lemma only_calls_inject_config: "only_calls (template_call lib g r) (inject_config lib c g r t)"
proof (cases "build_config lib g")
  case (Inr data)
  show ?thesis
    unfolding inject_config_def Inr call_of_res Let_def
    by (intro only_calls_call only_calls_if only_calls_patch only_calls_get_if_exists only_calls_convert
        only_calls_return) (auto simp: template_call_def Inr)
qed (simp add: inject_config_def)

lemma only_calls_inject_runtimes: "only_calls (template_call lib g r) (inject_runtimes c rts t)"
proof (induction rts arbitrary: t)
  case (Cons rt rts)
  then show ?case
    unfolding inject_runtimes.simps inject_runtime_def
    by (intro only_calls_call only_calls_wrap_err only_calls_client only_calls_return)
      (auto simp: template_call_def)
qed simp

lemma only_calls_inject_sidecar: "only_calls (template_call lib g r) (inject_sidecar c g r t)"
  unfolding inject_sidecar_def by (intro only_calls_call only_calls_return only_calls_inject_runtimes)

lemma only_calls_construct_pod_template:
  "only_calls (template_call lib g r) (construct_pod_template lib c injs g r labels tmpl)"
  unfolding construct_pod_template_def Let_def
  by (intro only_calls_call only_calls_if only_calls_wrap_err only_calls_return only_calls_inject_config
      only_calls_inject_sidecar)

text \<open>A template that was built: the role's config map is read first and applied only when it is not
  current, and the rest are reads.\<close>

lemma only_reads_inject_sidecar: "only_calls is_read (inject_sidecar c g r t)"
proof -
  have "only_calls is_read (inject_runtimes c rts t)" for rts t
  proof (induction rts arbitrary: t)
    case (Cons rt rts)
    then show ?case
      unfolding inject_runtimes.simps inject_runtime_def
      by (intro only_calls_call only_calls_wrap_err only_calls_client only_calls_return) (simp_all add: is_read_def)
  qed simp
  then show ?thesis unfolding inject_sidecar_def by (intro only_calls_call only_calls_return)
qed

lemma construct_pod_template_trace:
  assumes "construct_pod_template lib c None g r labels tmpl s = (Inr t, s')"
  obtains data new found cs where "build_config lib g = Inr data"
    and "lib_convert lib (ObjConfigMap (role_config_map g r data)) = Inr (ObjConfigMap new)"
    and "calls s' = calls s @ CGet KConfigMap (g_namespace g, get_workload_name g r) (read_answer found) #
      (if config_current lib found new then [] else [CApply (PatchObj (ObjConfigMap (role_config_map g r data)))]) @ cs"
    and "list_all is_read cs"
proof -
  from assms obtain t1 t2 u where cfg: "inject_config lib c g r (case tmpl of Some t \<Rightarrow> t | None \<Rightarrow> r_template r) s = (Inr t1, u)"
    and car: "inject_sidecar c g r t1 u = (Inr t2, s')"
    by (auto simp: construct_pod_template_def Let_def call_eq_Inr_iff default_injectors_def contains_string_def)
  from only_callsD [OF only_reads_inject_sidecar car] obtain cs where cs: "calls s' = calls u @ cs" "list_all is_read cs" .
  from inject_config_run [OF cfg] obtain data new found where "build_config lib g = Inr data"
    and "lib_convert lib (ObjConfigMap (role_config_map g r data)) = Inr (ObjConfigMap new)"
    and "calls u = calls s @ CGet KConfigMap (g_namespace g, get_workload_name g r) (read_answer found) #
      (if config_current lib found new then [] else [CApply (PatchObj (ObjConfigMap (role_config_map g r data)))])" .
  with cs show thesis by (intro that) simp_all
qed

lemma only_calls_construct_pod_template_on:
  "only_calls (template_call lib g r) (construct_pod_template_on lib c injs g r labels tmpl)"
  by (rule only_calls_map) (simp add: construct_pod_template_on_fst only_calls_construct_pod_template)

lemma construct_pod_template_labels:
  assumes "construct_pod_template lib c injs g r labels tmpl s = (Inr t, s')"
    and "gm_ok (sm_entries labels)" and "gm_get (sm_entries labels) k = Some v"
    and "k \<noteq> PodGroupLabelKey"
  shows "gm_get (sm_entries (om_labels (pt_meta t))) k = Some v"
proof -
  from assms(1) obtain m where "om_labels (pt_meta t) = with_entries (pod_labels_for g labels) m"
    by (auto simp: construct_pod_template_def call_eq_Inr_iff Let_def)
  moreover have "gm_ok (sm_entries (pod_labels_for g labels))"
    and "gm_get (sm_entries (pod_labels_for g labels)) k = Some v"
    using assms(2-4) by (simp_all add: pod_labels_for_def gm_get_set)
  ultimately show ?thesis by (simp add: with_entries_hit)
qed

end
