(* ===== verification/Workload_Interface.thy ===== *)
theory Workload_Interface
  imports Pod_Template
begin

text \<open>
  The interface \<open>WorkloadReconciler\<close> of \<open>workload_reconciler.go\<close>: a table of the five operations, the
  code its three implementations share (role status, orphan cleanup, waiting for a workload to be
  created again) and the locale with what the group controller relies on. The theories of the
  StatefulSet, Deployment and LeaderWorkerSet reconcilers provide the interpretations.

  \<open>wait.PollUntilContextTimeout\<close> runs its condition at once and then every five seconds for five
  minutes, unless the context ends: the number of further attempts is the parameter \<open>attempts\<close>.
\<close>

section \<open>Operations\<close>

record 'w workload_ops =
  wo_reconcile :: "rbg \<Rightarrow> role_spec \<Rightarrow> ('w, unit) act"
  wo_role_status :: "rbg \<Rightarrow> role_spec \<Rightarrow> ('w, role_status \<times> bool) act"
  wo_ready :: "rbg \<Rightarrow> role_spec \<Rightarrow> ('w, bool) act"
  wo_cleanup :: "rbg \<Rightarrow> ('w, unit) act"
  wo_recreate :: "rbg \<Rightarrow> role_spec \<Rightarrow> ('w, unit) act"

definition workload_key :: "rbg \<Rightarrow> role_spec \<Rightarrow> nsname" where
  "workload_key g r = (g_namespace g, get_workload_name g r)"

text \<open>The end of every \<open>ConstructRoleStatus\<close>: the status the group has is kept unless one of the two
  counts differs.\<close>

definition role_status_of :: "rbg \<Rightarrow> role_spec \<Rightarrow> int \<Rightarrow> int \<Rightarrow> role_status \<times> bool" where
  "role_status_of g r current_replicas current_ready =
     (case get_role_status g (r_name r) of (st, found) \<Rightarrow>
        if \<not> found \<or> st_replicas st \<noteq> current_replicas \<or> st_ready_replicas st \<noteq> current_ready
        then (\<lparr>st_name = r_name r, st_ready_replicas = current_ready, st_replicas = current_replicas\<rparr>, True)
        else (st, False))"

text \<open>The labels every cleanup lists by, and its loop over the workloads found.\<close>

definition owner_selector :: "rbg \<Rightarrow> strmap" where
  "owner_selector g = Some [(SetNameLabelKey, g_name g)]"

definition has_role_for :: "rbg \<Rightarrow> string \<Rightarrow> string \<Rightarrow> bool" where
  "has_role_for g kind_name name \<longleftrightarrow>
     list_ex (\<lambda>r. ws_kind (r_workload r) = kind_name \<and> get_workload_name g r = name) (g_roles g)"

definition delete_orphans ::
  "klib \<Rightarrow> 'w client \<Rightarrow> rbg \<Rightarrow> string \<Rightarrow> ('o \<Rightarrow> object_meta) \<Rightarrow> ('o \<Rightarrow> obj) \<Rightarrow> 'o list \<Rightarrow> ('w, unit) act" where
  "delete_orphans lib c g kind_name meta_of to_obj xs =
     for_each (\<lambda>x.
       if \<not> lib_is_controlled_by lib (meta_of x) (g_meta g) then return_ok ()
       else if has_role_for g kind_name (om_name (meta_of x)) then return_ok ()
       else wrap_err (DeleteFailed (om_name (meta_of x))) (do_delete c (to_obj x))) xs"

text \<open>The condition polled until the workload exists again. Whatever ends the wait, the function
  returns the error of the last attempt.\<close>

primrec wait_created :: "'w client \<Rightarrow> kind \<Rightarrow> (obj \<Rightarrow> 'a option) \<Rightarrow> nsname \<Rightarrow> nat \<Rightarrow> ('w, unit) act" where
  "wait_created c k sel key 0 = handle (do_get c k sel key) (\<lambda>r. case r of
       Inr _ \<Rightarrow> return_ok () | Inl e \<Rightarrow> return_err e)"
| "wait_created c k sel key (Suc n) = handle (do_get c k sel key) (\<lambda>r. case r of
       Inr _ \<Rightarrow> return_ok ()
     | Inl e \<Rightarrow> if is_not_found e then wait_created c k sel key n else return_err e)"

text \<open>\<open>if err := client.Delete(obj); err != nil && !IsNotFound(err) { return err }\<close>\<close>

definition delete_if_exists :: "'w client \<Rightarrow> obj \<Rightarrow> ('w, unit) act" where
  "delete_if_exists c ob = handle (do_delete c ob) (\<lambda>r. case r of
       Inr _ \<Rightarrow> return_ok ()
     | Inl e \<Rightarrow> if is_not_found e then return_ok () else return_err e)"

section \<open>Lemmas\<close>

lemmas only_calls_intros = only_calls_call only_calls_handle only_calls_if only_calls_wrap_err
  only_calls_return only_calls_convert only_calls_get_if_exists only_calls_client only_calls_patch

text \<open>What the reconcile of a role may request: reads, and applies of objects that have the name of
  the role's workload, in the group's namespace.\<close>

definition role_call :: "rbg \<Rightarrow> role_spec \<Rightarrow> call \<Rightarrow> bool" where
  "role_call g r q \<longleftrightarrow> is_read q \<or> (\<exists>ob. q = CApply (PatchObj ob) \<and> obj_key ob = workload_key g r)"

lemma role_call_read [simp]: "is_read q \<Longrightarrow> role_call g r q"
  by (simp add: role_call_def)

lemma role_call_apply: "obj_key ob = workload_key g r \<Longrightarrow> role_call g r (CApply (PatchObj ob))"
  by (auto simp: role_call_def)

lemma role_call_template: "template_call lib g r q \<Longrightarrow> role_call g r q"
  by (auto simp: template_call_def role_call_def is_read_def role_config_map_def obj_key_def workload_key_def
      empty_meta_def)

lemmas role_calls_template = only_calls_construct_pod_template [THEN only_calls_mono, OF role_call_template]
  only_calls_construct_pod_template_on [THEN only_calls_mono, OF role_call_template]

text \<open>A workload object all of whose replicas are ready.\<close>

fun workload_ready_obj :: "obj \<Rightarrow> bool" where
  "workload_ready_obj (ObjSts x) \<longleftrightarrow> ss_replicas x = Some (ss_ready_replicas x)"
| "workload_ready_obj (ObjDeploy x) \<longleftrightarrow> dp_replicas x = Some (dp_ready_replicas x)"
| "workload_ready_obj (ObjLws x) \<longleftrightarrow> lw_status_replicas x = lw_ready_replicas x"
| "workload_ready_obj _ \<longleftrightarrow> False"

definition read_ready :: "rbg \<Rightarrow> role_spec \<Rightarrow> call \<Rightarrow> bool" where
  "read_ready g r q \<longleftrightarrow> (\<exists>k ob. q = CGet k (workload_key g r) (Inr ob) \<and> workload_ready_obj ob)"

text \<open>A read that found the workload of a role.\<close>

definition read_found :: "rbg \<Rightarrow> role_spec \<Rightarrow> call \<Rightarrow> bool" where
  "read_found g r q \<longleftrightarrow> (\<exists>k ob. q = CGet k (workload_key g r) (Inr ob))"

text \<open>A workload object that has replicas missing, and the read that found one.\<close>

fun workload_waiting_obj :: "obj \<Rightarrow> bool" where
  "workload_waiting_obj (ObjSts x) \<longleftrightarrow> ss_replicas x \<notin> {None, Some (ss_ready_replicas x)}"
| "workload_waiting_obj (ObjDeploy x) \<longleftrightarrow> dp_replicas x \<notin> {None, Some (dp_ready_replicas x)}"
| "workload_waiting_obj (ObjLws x) \<longleftrightarrow> lw_status_replicas x \<noteq> lw_ready_replicas x"
| "workload_waiting_obj _ \<longleftrightarrow> False"

definition read_waiting :: "rbg \<Rightarrow> role_spec \<Rightarrow> call \<Rightarrow> bool" where
  "read_waiting g r q \<longleftrightarrow> (\<exists>k ob. q = CGet k (workload_key g r) (Inr ob) \<and> workload_waiting_obj ob)"

lemma role_status_of_result:
  assumes "role_status_of g r replicas ready = (st, upd)"
  shows "st_name st = r_name r \<and> st_replicas st = replicas \<and> st_ready_replicas st = ready"
    and "\<not> upd \<Longrightarrow> st \<in> set (gs_role_statuses (g_status g))"
proof -
  have found: "st' \<in> set (gs_role_statuses (g_status g)) \<and> st_name st' = r_name r"
    if "get_role_status g (r_name r) = (st', True)" for st'
    using that by (auto simp: get_role_status_def find_Some_iff split: if_splits option.splits)
  then show "st_name st = r_name r \<and> st_replicas st = replicas \<and> st_ready_replicas st = ready"
    and "\<not> upd \<Longrightarrow> st \<in> set (gs_role_statuses (g_status g))"
    using assms by (auto simp: role_status_of_def split: prod.splits if_splits)
qed

lemmas role_status_of_run = role_status_of_result [OF sym]

lemma only_calls_delete_orphans:
  "only_calls (\<lambda>q. \<exists>x \<in> set xs. q = CDelete (to_obj x) \<and> lib_is_controlled_by lib (meta_of x) (g_meta g)
       \<and> \<not> has_role_for g kind_name (om_name (meta_of x)))
     (delete_orphans lib c g kind_name meta_of to_obj xs)"
  unfolding delete_orphans_def
  by (intro only_calls_for_each only_calls_if only_calls_wrap_err only_calls_return only_calls_client) auto

lemma only_calls_wait_created:
  "(\<And>a. P (CGet k key a)) \<Longrightarrow> only_calls P (wait_created c k sel key n)"
proof (induction n)
  case 0
  then show ?case by (simp, intro only_calls_handle only_calls_client) (auto split: sum.splits)
next
  case (Suc n)
  then show ?case by (simp, intro only_calls_handle only_calls_client) (auto split: sum.splits)
qed

lemma only_calls_delete_if_exists: "P (CDelete ob) \<Longrightarrow> only_calls P (delete_if_exists c ob)"
  unfolding delete_if_exists_def
  by (intro only_calls_handle only_calls_client) (auto split: sum.splits)

text \<open>The trace of a get that succeeds, and of a wait that does.\<close>

lemma do_get_found:
  assumes "do_get c k sel key s = (Inr x, t)"
  obtains ob where "calls t = calls s @ [CGet k key (Inr ob)]" and "sel ob = Some x"
  using do_get_trace [OF assms] decode_found [OF sym] by metis

lemma not_found_no_panic [simp]: "is_not_found e \<Longrightarrow> \<not> is_panic e"
  by (auto simp: is_not_found_def)

lemma wait_created_trace:
  assumes "wait_created c k sel key n s = (Inr (), t)"
  shows "\<exists>m ob. m \<le> n \<and> calls t = calls s @ replicate m (CGet k key (Inl NotFound)) @ [CGet k key (Inr ob)]"
  using assms
proof (induction n arbitrary: s)
  case 0
  obtain q u where g: "do_get c k sel key s = (q, u)" by fastforce
  from do_get_trace [OF g] obtain a where a: "calls u = calls s @ [CGet k key a]" "q = decode sel a" by blast
  from 0 g obtain x where q: "q = Inr x" and "u = t"
    by (cases q) (auto simp: handle_def split: if_splits)
  moreover obtain ob where "a = Inr ob" using a(2) decode_found [of sel a x] q by auto
  ultimately show ?case using a(1) by (intro exI [of _ 0] exI [of _ ob]) simp
next
  case (Suc n)
  obtain q u where g: "do_get c k sel key s = (q, u)" by fastforce
  from do_get_trace [OF g] obtain a where a: "calls u = calls s @ [CGet k key a]" "q = decode sel a" by blast
  show ?case
  proof (cases q)
    case (Inr x)
    with Suc.prems g have "u = t" by (simp add: handle_def)
    with a Inr decode_found [of sel a x] show ?thesis by (intro exI [of _ 0]) auto
  next
    case (Inl e)
    with Suc.prems g have nf: "is_not_found e" and rest: "wait_created c k sel key n u = (Inr (), t)"
      by (auto simp: handle_def split: if_splits)
    from nf a(2) Inl have "a = Inl NotFound" by (metis decode_not_found)
    moreover from Suc.IH [OF rest] obtain m ob where
      "m \<le> n" "calls t = calls u @ replicate m (CGet k key (Inl NotFound)) @ [CGet k key (Inr ob)]" by blast
    ultimately show ?thesis using a(1) by (intro exI [of _ "Suc m"] exI [of _ ob]) simp
  qed
qed

lemma delete_if_exists_trace:
  assumes "delete_if_exists c ob s = (r, t)"
  shows "calls t = calls s @ [CDelete ob]"
  using assms
  by (auto simp: delete_if_exists_def handle_def do_delete_def log_call_def
      split: prod.splits sum.splits if_splits)

text \<open>The last request of a function that succeeds.\<close>

lemma do_create_last: "do_create c ob s = (r, t) \<Longrightarrow> calls t = calls s @ [CCreate ob]"
  by (auto simp: do_create_def log_call_def split: prod.splits)

lemma do_update_last: "do_update c sel ob s = (r, t) \<Longrightarrow> calls t = calls s @ [CUpdate ob]"
  by (auto simp: do_update_def log_call_def split: prod.splits)

lemma do_delete_last: "do_delete c ob s = (r, t) \<Longrightarrow> calls t = calls s @ [CDelete ob]"
  by (auto simp: do_delete_def log_call_def split: prod.splits)

lemma only_calls_extends:
  assumes "only_calls P m" and "m s = (r, t)"
  shows "\<exists>cs. calls t = calls s @ cs"
  using only_callsD [OF assms] by blast

text \<open>Reads of one key and deletes: what recreating a workload may request.\<close>

definition recreate_call :: "nsname \<Rightarrow> (call \<Rightarrow> bool) \<Rightarrow> call \<Rightarrow> bool" where
  "recreate_call key del q \<longleftrightarrow> (\<exists>k a. q = CGet k key a) \<or> del q"

lemma recreate_call_get [simp]: "recreate_call key del (CGet k key a)"
  by (auto simp: recreate_call_def)

text \<open>A recreation that succeeded ended with a read of the workload; when it deleted something, that
  read found the workload again.\<close>

definition recreated :: "nsname \<Rightarrow> call list \<Rightarrow> bool" where
  "recreated key cs \<longleftrightarrow> (\<exists>ds k a. cs = ds @ [CGet k key a] \<and> (ds = [] \<or> (\<exists>ob. a = Inr ob)))"

lemma recreated_single: "recreated key [CGet k key a]"
  by (auto simp: recreated_def)

lemma recreated_found: "recreated key (ds @ [CGet k key (Inr ob)])"
  by (auto simp: recreated_def)

lemma delete_wait_recreated:
  assumes "delete_if_exists c ob s = (Inr (), u)" and "wait_created c k sel key n u = (Inr (), t)"
    and "calls s = cs @ [CGet k key a]"
  shows "\<exists>ds. calls t = cs @ ds \<and> recreated key ds"
proof -
  from delete_if_exists_trace [OF assms(1)] have u: "calls u = cs @ [CGet k key a, CDelete ob]" using assms(3) by simp
  from wait_created_trace [OF assms(2)] obtain m ob' where
    "calls t = calls u @ replicate m (CGet k key (Inl NotFound)) @ [CGet k key (Inr ob')]" by blast
  then have "calls t = cs @ ([CGet k key a, CDelete ob] @ replicate m (CGet k key (Inl NotFound))) @ [CGet k key (Inr ob')]"
    using u by simp
  then show ?thesis using recreated_found by (metis append_assoc)
qed

section \<open>The contract\<close>

text \<open>
  What the controllers rely on. The reconcile of a role writes only objects named after the role.
  A role is reported ready only after its workload was read and had all its replicas ready, and not
  ready only after it was read with replicas missing. Reading
  a role's status and readiness only reads. The status that
  \<open>ConstructRoleStatus\<close> returns is that of a workload that was read and exists; it carries the role's
  name, and when it asks for no update it is one the group already has. A cleanup deletes nothing but workloads the group controls and no role of
  this kind claims. Recreating a workload reads
  only the role's workload and deletes only objects of its kind; a recreation that succeeds has
  seen the workload absent or created again.
\<close>

locale workload_reconciler =
  fixes ops :: "'w workload_ops"
    and kind_name :: string
    and meta_of :: "'o \<Rightarrow> object_meta"
    and to_obj :: "'o \<Rightarrow> obj"
    and lib :: klib
  assumes reconcile_calls: "only_calls (role_call g r) (wo_reconcile ops g r)"
    and ready_reads: "only_calls is_read (wo_ready ops g r)"
    and ready_true: "wo_ready ops g r s = (Inr True, t) \<Longrightarrow>
      \<exists>q. calls t = calls s @ [q] \<and> read_ready g r q"
    and ready_false: "wo_ready ops g r s = (Inr False, t) \<Longrightarrow>
      \<exists>q. calls t = calls s @ [q] \<and> read_waiting g r q"
    and status_reads: "only_calls is_read (wo_role_status ops g r)"
    and status_found: "wo_role_status ops g r s = (Inr (st, upd), t) \<Longrightarrow>
      \<exists>q. calls t = calls s @ [q] \<and> read_found g r q"
    and status_name: "wo_role_status ops g r s = (Inr (st, upd), t) \<Longrightarrow> st_name st = r_name r"
    and status_kept: "wo_role_status ops g r s = (Inr (st, False), t) \<Longrightarrow>
      st \<in> set (gs_role_statuses (g_status g))"
    and cleanup_calls: "only_calls (\<lambda>q. is_read q \<or> (\<exists>x. q = CDelete (to_obj x)
        \<and> lib_is_controlled_by lib (meta_of x) (g_meta g)
        \<and> \<not> has_role_for g kind_name (om_name (meta_of x)))) (wo_cleanup ops g)"
    and recreate_calls: "only_calls (recreate_call (workload_key g r) (\<lambda>q. \<exists>x. q = CDelete (to_obj x))) (wo_recreate ops g r)"
    and recreate_done: "wo_recreate ops g r s = (Inr (), t) \<Longrightarrow>
      \<exists>cs. calls t = calls s @ cs \<and> recreated (workload_key g r) cs"
begin

text \<open>A cleanup never deletes the workload of a role of its kind.\<close>

lemma cleanup_keeps_roles:
  assumes "wo_cleanup ops g s = (a, t)" and "r \<in> set (g_roles g)"
    and "ws_kind (r_workload r) = kind_name" and "om_name (meta_of x) = get_workload_name g r"
    and "inj to_obj" and "calls s = []"
  shows "CDelete (to_obj x) \<notin> set (calls t)"
proof
  assume del: "CDelete (to_obj x) \<in> set (calls t)"
  from only_callsD [OF cleanup_calls assms(1)] obtain cs where "calls t = calls s @ cs"
    and all: "list_all (\<lambda>q. is_read q \<or> (\<exists>x. q = CDelete (to_obj x)
        \<and> lib_is_controlled_by lib (meta_of x) (g_meta g)
        \<and> \<not> has_role_for g kind_name (om_name (meta_of x)))) cs" .
  with del assms(6) have "\<exists>y. CDelete (to_obj x) = CDelete (to_obj y) \<and> \<not> has_role_for g kind_name (om_name (meta_of y))"
    by (auto simp: list_all_iff is_read_def)
  then have "\<not> has_role_for g kind_name (om_name (meta_of x))"
    using assms(5) by (auto dest: injD)
  then show False using assms(2-4) by (auto simp: has_role_for_def list_ex_iff)
qed

text \<open>Nothing but the status check itself is needed to see that no status update is due.\<close>

lemma status_unchanged_known:
  assumes "wo_role_status ops g r s = (Inr (st, False), t)"
  shows "\<exists>q \<in> set (gs_role_statuses (g_status g)). st_name q = r_name r"
  using status_name [OF assms] status_kept [OF assms] by blast

end

end
