(* ===== verification/Equality.thy ===== *)
theory Equality
  imports Sample_Cluster
begin

text \<open>
  The comparisons that decide whether a workload must be patched (\<open>pod_reconciler.go\<close>, and the
  \<open>SemanticallyEqual\<close> functions of the StatefulSet, Deployment and LeaderWorkerSet reconcilers).
  A Go result \<open>(bool, error)\<close> whose error is nil exactly when the values are equal is a
  \<open>unit res\<close>: \<open>Inr ()\<close> for equal, \<open>Inl (NotEqual msg)\<close> with the fixed part of the message
  otherwise (the printed values are left out). A nil dereference is a panic.

  The interface \<open>workload_equality\<close> is what the reconcilers rely on; the three comparisons are its
  interpretations.
\<close>

section \<open>Results\<close>

definition check :: "bool \<Rightarrow> string \<Rightarrow> unit res" where
  "check b msg = (if b then Inr () else Inl (NotEqual msg))"

definition and_then :: "unit res \<Rightarrow> unit res \<Rightarrow> unit res" where
  "and_then r q = (case r of Inl e \<Rightarrow> Inl e | Inr _ \<Rightarrow> q)"

text \<open>\<open>fmt.Errorf("...: %s", err.Error())\<close>: the error text gets a prefix; a panic passes.\<close>

fun wrap :: "string \<Rightarrow> unit res \<Rightarrow> unit res" where
  "wrap msg (Inl (NotEqual m)) = Inl (NotEqual (msg @ m))"
| "wrap msg r = r"

lemma check_Inr [simp]: "check b msg = Inr () \<longleftrightarrow> b"
  by (simp add: check_def)

lemma and_then_Inr [simp]: "and_then r q = Inr () \<longleftrightarrow> r = Inr () \<and> q = Inr ()"
  by (cases r) (simp_all add: and_then_def)

lemma wrap_Inr [simp]: "wrap msg r = Inr () \<longleftrightarrow> r = Inr ()"
  by (cases "(msg, r)" rule: wrap.cases) simp_all

section \<open>Maps and metadata\<close>

definition maps_equal :: "strmap \<Rightarrow> strmap \<Rightarrow> bool" where
  "maps_equal m1 m2 =
     (let e1 = sm_entries m1; e2 = sm_entries m2 in
      if e1 = [] \<and> e2 = [] then True
      else if (e1 = []) \<noteq> (e2 = []) then False
      else if length e1 \<noteq> length e2 then False
      else list_all (\<lambda>(k, v). gm_get e2 k = Some v) e1)"

text \<open>\<open>reflect.DeepEqual\<close> of two \<open>map[string]string\<close>: nil is only equal to nil.\<close>

definition deep_equal_map :: "strmap \<Rightarrow> strmap \<Rightarrow> bool" where
  "deep_equal_map m1 m2 =
     (case (m1, m2) of
        (None, None) \<Rightarrow> True
      | (Some e1, Some e2) \<Rightarrow> length e1 = length e2 \<and> list_all (\<lambda>(k, v). gm_get e2 k = Some v) e1
      | _ \<Rightarrow> False)"

definition deep_equal_selector :: "label_selector option \<Rightarrow> label_selector option \<Rightarrow> bool" where
  "deep_equal_selector s1 s2 =
     (case (s1, s2) of
        (None, None) \<Rightarrow> True
      | (Some a, Some b) \<Rightarrow> deep_equal_map (ls_match_labels a) (ls_match_labels b) \<and> ls_other a = ls_other b
      | _ \<Rightarrow> False)"

definition object_meta_equal :: "object_meta \<Rightarrow> object_meta \<Rightarrow> unit res" where
  "object_meta_equal m1 m2 =
     and_then (check (maps_equal (filter_system_labels (om_labels m1)) (filter_system_labels (om_labels m2)))
       ''label not equal'')
     (check (maps_equal (filter_system_annotations (om_annotations m1))
         (filter_system_annotations (om_annotations m2))) ''annotation not equal'')"

section \<open>Pod templates\<close>

text \<open>A loop over two slices of the same length.\<close>

definition each_pair :: "('a \<Rightarrow> 'a \<Rightarrow> unit res) \<Rightarrow> 'a list \<Rightarrow> 'a list \<Rightarrow> unit res" where
  "each_pair f xs ys = loop (\<lambda>(x, y) _. f x y) (zip xs ys) ()"

definition env_vars_equal :: "env_var list \<Rightarrow> env_var list \<Rightarrow> unit res" where
  "env_vars_equal env1 env2 =
     (let e1 = filter_system_envs env1; e2 = filter_system_envs env2 in
      and_then (check (length e1 = length e2) ''env vars len not equal'')
      (each_pair (\<lambda>a b. and_then (check (ev_value a = ev_value b) ''env vars value not equal'')
          (check (ev_name a = ev_name b) ''env vars name not equal''))
        (sort_key ev_name e1) (sort_key ev_name e2)))"

definition volumes_equal :: "volume list \<Rightarrow> volume list \<Rightarrow> unit res" where
  "volumes_equal v1 v2 =
     and_then (check (length v1 = length v2) ''volumes not equal'')
     (each_pair (\<lambda>a b. check (v_name a = v_name b) ''volume name not equal'')
       (sort_key v_name v1) (sort_key v_name v2))"

definition volume_mounts_equal :: "volume_mount list \<Rightarrow> volume_mount list \<Rightarrow> unit res" where
  "volume_mounts_equal m1 m2 =
     and_then (check (length m1 = length m2) ''volume mounts len not equal'')
     (each_pair (\<lambda>a b. check (vm_name a = vm_name b) ''volume mount name not equal'')
       (sort_key vm_name m1) (sort_key vm_name m2))"

definition container_equal :: "container \<Rightarrow> container \<Rightarrow> unit res" where
  "container_equal c1 c2 =
     and_then (check (c_name c1 = c_name c2) ''container name not equal'')
     (and_then (check (c_image c1 = c_image c2) ''container image not equal'')
     (and_then (check (c_command c1 = c_command c2) ''container command not equal'')
     (and_then (check (c_args c1 = c_args c2) ''container args not equal'')
     (and_then (check (c_ports c1 = c_ports c2) ''container ports not equal'')
     (and_then (check (c_resources c1 = c_resources c2) ''container resources not equal'')
     (and_then (check (\<not> (c_pull_policy c1 \<noteq> [] \<and> c_pull_policy c2 \<noteq> [] \<and> c_pull_policy c1 \<noteq> c_pull_policy c2))
        ''container image pull policy not equal'')
     (and_then (wrap ''env not equal: '' (env_vars_equal (c_env c1) (c_env c2)))
     (wrap ''podTemplate volumes mounts not equal: '' (volume_mounts_equal (c_mounts c1) (c_mounts c2))))))))))"

definition sort_containers :: "container list \<Rightarrow> container list" where
  "sort_containers cs = sort_key c_name cs"

definition pod_spec_equal :: "pod_spec \<Rightarrow> pod_spec \<Rightarrow> unit res" where
  "pod_spec_equal s1 s2 =
     and_then (check (length (ps_containers s1) = length (ps_containers s2))
       ''pod template spec containers len not equal'')
     (and_then (each_pair (\<lambda>a b. wrap ''container not equal: '' (container_equal a b))
       (sort_containers (ps_containers s1)) (sort_containers (ps_containers s2)))
     (wrap ''podTemplate volumes not equal: '' (volumes_equal (ps_volumes s1) (ps_volumes s2))))"

definition pod_template_spec_equal :: "pod_template \<Rightarrow> pod_template \<Rightarrow> unit res" where
  "pod_template_spec_equal t1 t2 =
     and_then (wrap ''objectMeta not equal: '' (object_meta_equal (pt_meta t1) (pt_meta t2)))
     (wrap ''spec not equal: '' (pod_spec_equal (pt_spec t1) (pt_spec t2)))"

section \<open>Workloads\<close>

definition stateful_set_spec_equal :: "statefulset \<Rightarrow> statefulset \<Rightarrow> unit res" where
  "stateful_set_spec_equal s1 s2 =
     and_then (check (deep_equal_selector (ss_selector s1) (ss_selector s2)) ''selector not equal'')
     (and_then (check (ss_service_name s1 = ss_service_name s2) ''serviceName not equal'')
     (wrap ''podTemplateSpec not equal, '' (pod_template_spec_equal (ss_template s1) (ss_template s2))))"

definition semantically_equal_sts :: "statefulset option \<Rightarrow> statefulset option \<Rightarrow> unit res" where
  "semantically_equal_sts old new =
     (case old of None \<Rightarrow> Inl (NotEqual ''old sts not exist'')
      | Some s1 \<Rightarrow>
         if om_uid (ss_meta s1) = [] then Inl (NotEqual ''old sts not exist'')
         else (case new of None \<Rightarrow> Inl (NotEqual ''new sts is nil'')
           | Some s2 \<Rightarrow>
              and_then (wrap ''objectMeta not equal: '' (object_meta_equal (ss_meta s1) (ss_meta s2)))
              (wrap ''spec not equal: '' (stateful_set_spec_equal s1 s2))))"

definition deployment_spec_equal :: "deployment \<Rightarrow> deployment \<Rightarrow> unit res" where
  "deployment_spec_equal d1 d2 =
     and_then (check (case (dp_replicas d1, dp_replicas d2) of (Some a, Some b) \<Rightarrow> a = b | _ \<Rightarrow> True)
       ''replicas not equal'')
     (and_then (check (deep_equal_selector (dp_selector d1) (dp_selector d2)) ''selector not equal'')
     (wrap ''podTemplateSpec not equal, '' (pod_template_spec_equal (dp_template d1) (dp_template d2))))"

definition semantically_equal_deployment :: "deployment option \<Rightarrow> deployment option \<Rightarrow> unit res" where
  "semantically_equal_deployment old new =
     (case old of None \<Rightarrow> Inl (NotEqual ''old deployment not exist'')
      | Some d1 \<Rightarrow>
         if om_uid (dp_meta d1) = [] then Inl (NotEqual ''old deployment not exist'')
         else (case new of None \<Rightarrow> Inl (NotEqual ''new deployment is nil'')
           | Some d2 \<Rightarrow>
              and_then (wrap ''objectMeta not equal: '' (object_meta_equal (dp_meta d1) (dp_meta d2)))
              (wrap ''spec not equal: '' (deployment_spec_equal d1 d2))))"

definition leader_worker_template_equal :: "leader_worker_set \<Rightarrow> leader_worker_set \<Rightarrow> unit res" where
  "leader_worker_template_equal l1 l2 =
     (case deref (lw_leader_template l1) of Inl e \<Rightarrow> Inl e | Inr t1 \<Rightarrow>
     (case deref (lw_leader_template l2) of Inl e \<Rightarrow> Inl e | Inr t2 \<Rightarrow>
      and_then (wrap ''leaderTemplate not equal: '' (pod_template_spec_equal t1 t2))
      (and_then (wrap ''workerTemplate not equal: ''
         (pod_template_spec_equal (lw_worker_template l1) (lw_worker_template l2)))
      (case deref (lw_size l1) of Inl e \<Rightarrow> Inl e | Inr n1 \<Rightarrow>
      (case deref (lw_size l2) of Inl e \<Rightarrow> Inl e | Inr n2 \<Rightarrow>
       and_then (check (n1 = n2) ''lws size not equal'')
       (check (lw_restart_policy l1 = lw_restart_policy l2) ''restart policy not equal''))))))"

definition lws_spec_equal :: "leader_worker_set \<Rightarrow> leader_worker_set \<Rightarrow> unit res" where
  "lws_spec_equal l1 l2 =
     and_then (wrap ''leaderWorkerTemplate not equal: '' (leader_worker_template_equal l1 l2))
     (check ((case lw_replicas l1 of None \<Rightarrow> 1 | Some n \<Rightarrow> n) = (case lw_replicas l2 of None \<Rightarrow> 1 | Some n \<Rightarrow> n))
       ''LeaderWorkerSetSpec replicas not equal'')"

definition semantically_equal_lws :: "leader_worker_set option \<Rightarrow> leader_worker_set option \<Rightarrow> unit res" where
  "semantically_equal_lws old new =
     (case old of None \<Rightarrow> Inl (NotEqual ''old lws not exist'')
      | Some l1 \<Rightarrow>
         if om_uid (lw_meta l1) = [] then Inl (NotEqual ''old lws not exist'')
         else (case new of None \<Rightarrow> Inl (NotEqual ''new lws is nil'')
           | Some l2 \<Rightarrow>
              and_then (wrap ''objectMeta not equal: '' (object_meta_equal (lw_meta l1) (lw_meta l2)))
              (wrap ''spec not equal: '' (lws_spec_equal l1 l2))))"

definition semantically_equal_service :: "service option \<Rightarrow> service option \<Rightarrow> unit res" where
  "semantically_equal_service s1 s2 =
     (case (s1, s2) of
        (None, None) \<Rightarrow> Inr ()
      | (Some a, Some b) \<Rightarrow>
          and_then (wrap ''objectMeta not equal: '' (object_meta_equal (sv_meta a) (sv_meta b)))
          (check (deep_equal_map (sv_selector a) (sv_selector b)) ''selector not equal'')
      | _ \<Rightarrow> Inl (NotEqual ''object is nil''))"

text \<open>\<open>WorkloadEqual\<close>, which the watch predicates use: two objects of the same kind with equal
  specs and equal ready counts.\<close>

definition workload_equal :: "obj \<Rightarrow> obj \<Rightarrow> unit res" where
  "workload_equal obj1 obj2 =
     (let unsupported = Inl (NotEqual ''not support workload'') in
      case obj1 of
        ObjDeploy d1 \<Rightarrow> (case obj2 of ObjDeploy d2 \<Rightarrow>
          and_then (wrap ''deploy not equal, error: '' (semantically_equal_deployment (Some d1) (Some d2)))
          (check (dp_ready_replicas d1 = dp_ready_replicas d2) ''ReadyReplicas not equal'') | _ \<Rightarrow> unsupported)
      | ObjSts s1 \<Rightarrow> (case obj2 of ObjSts s2 \<Rightarrow>
          and_then (wrap ''sts not equal, error: '' (semantically_equal_sts (Some s1) (Some s2)))
          (check (ss_ready_replicas s1 = ss_ready_replicas s2) ''ReadyReplicas not equal'') | _ \<Rightarrow> unsupported)
      | ObjLws l1 \<Rightarrow> (case obj2 of ObjLws l2 \<Rightarrow>
          and_then (wrap ''lws not equal, error: '' (semantically_equal_lws (Some l1) (Some l2)))
          (check (lw_ready_replicas l1 = lw_ready_replicas l2) ''ReadyReplicas not equal'') | _ \<Rightarrow> unsupported)
      | _ \<Rightarrow> unsupported)"

section \<open>Lemmas\<close>

lemma each_pair_Inr:
  "length xs = length ys \<Longrightarrow> each_pair f xs ys = Inr () \<longleftrightarrow> list_all2 (\<lambda>x y. f x y = Inr ()) xs ys"
proof (induction xs ys rule: list_induct2)
  case (Cons x xs y ys)
  then show ?case by (cases "f x y") (simp_all add: each_pair_def)
qed (simp add: each_pair_def)

lemma gm_same_iff:
  assumes "gm_ok e1" and "gm_ok e2"
  shows "length e1 = length e2 \<and> list_all (\<lambda>(k, v). gm_get e2 k = Some v) e1 \<longleftrightarrow> gm_get e1 = gm_get e2"
    (is "?len \<and> ?sub \<longleftrightarrow> _")
proof
  have d: "distinct (map fst e1)" "distinct (map fst e2)" using assms by (simp_all add: gm_ok_def)
  assume as: "?len \<and> ?sub"
  then have sub: "(k, v) \<in> set e1 \<Longrightarrow> (k, v) \<in> set e2" for k v
    by (auto simp: list_all_iff dest: map_of_SomeD)
  have "distinct e1" "distinct e2" using d by (simp_all add: distinct_map)
  then have "card (set e1) = card (set e2)" using as by (simp add: distinct_card)
  then have "set e1 = set e2" using sub by (intro card_subset_eq) auto
  then show "gm_get e1 = gm_get e2" using d by (auto intro: map_of_inject_set [THEN iffD2])
next
  assume eq: "gm_get e1 = gm_get e2"
  have d: "distinct (map fst e1)" "distinct (map fst e2)" using assms by (simp_all add: gm_ok_def)
  from eq have same: "set e1 = set e2" using d by (simp add: map_of_inject_set)
  moreover have "distinct e1" "distinct e2" using d by (simp_all add: distinct_map)
  ultimately have "length e1 = length e2" using same by (metis distinct_card)
  moreover have ?sub using d same by (auto simp: list_all_iff)
  ultimately show "?len \<and> ?sub" by simp
qed

lemma maps_equal_iff:
  assumes "gm_ok (sm_entries m1)" and "gm_ok (sm_entries m2)"
  shows "maps_equal m1 m2 \<longleftrightarrow> gm_get (sm_entries m1) = gm_get (sm_entries m2)"
proof -
  have "maps_equal m1 m2 \<longleftrightarrow> length (sm_entries m1) = length (sm_entries m2) \<and>
      list_all (\<lambda>(k, v). gm_get (sm_entries m2) k = Some v) (sm_entries m1)"
    by (auto simp: maps_equal_def Let_def)
  with gm_same_iff [OF assms] show ?thesis by simp
qed

lemma gm_ok_filter [simp]: "gm_ok m \<Longrightarrow> gm_ok (filter P m)"
  by (simp add: gm_ok_def distinct_map_filter)

lemma sm_entries_filter [simp]:
  "sm_entries (filter_system_labels m) = filter (\<lambda>(k, v). \<not> system_label k) (sm_entries m)"
  "sm_entries (filter_system_annotations m) = filter (\<lambda>(k, v). \<not> system_annotation k) (sm_entries m)"
  by (cases m; simp add: filter_system_labels_def filter_system_annotations_def)+

lemma maps_equal_refl: "gm_ok (sm_entries m) \<Longrightarrow> maps_equal m m"
  by (simp add: maps_equal_iff)

lemma deep_equal_map_refl: "gm_ok (sm_entries m) \<Longrightarrow> deep_equal_map m m"
  by (cases m) (auto simp: deep_equal_map_def gm_ok_def list_all_iff)

definition meta_ok :: "object_meta \<Rightarrow> bool" where
  "meta_ok m \<longleftrightarrow> gm_ok (sm_entries (om_labels m)) \<and> gm_ok (sm_entries (om_annotations m))"

lemma object_meta_equal_refl: "meta_ok m \<Longrightarrow> object_meta_equal m m = Inr ()"
  by (simp add: object_meta_equal_def meta_ok_def maps_equal_refl)

text \<open>The result of the sorted pairwise comparison is equality of the multisets of keys.\<close>

lemma list_all2_same: "list_all2 (\<lambda>x y. h x = h y) xs ys \<longleftrightarrow> map h xs = map h ys"
  by (auto simp: list_eq_iff_nth_eq list_all2_conv_all_nth)

lemma sorted_pairs_mset:
  fixes k :: "'a \<Rightarrow> 'b::linorder"
  assumes "list_all2 (\<lambda>x y. h x = h y) (sort_key k xs) (sort_key k ys)"
  shows "mset (map h xs) = mset (map h ys)"
proof -
  have "map h (sort_key k xs) = map h (sort_key k ys)"
    using assms by (simp add: list_all2_same)
  then have "mset (map h (sort_key k xs)) = mset (map h (sort_key k ys))" by simp
  then show ?thesis by simp
qed

lemma map_sort_key: "map k (sort_key k xs) = sort (map k xs)"
  by (rule properties_for_sort [symmetric]) simp_all

lemma names_pairs_iff:
  fixes k :: "'a \<Rightarrow> 'b::linorder"
  shows "list_all2 (\<lambda>x y. k x = k y) (sort_key k xs) (sort_key k ys) \<longleftrightarrow> mset (map k xs) = mset (map k ys)"
proof
  assume "mset (map k xs) = mset (map k ys)"
  then have "sort (map k xs) = sort (map k ys)" by (metis sorted_list_of_multiset_mset)
  then show "list_all2 (\<lambda>x y. k x = k y) (sort_key k xs) (sort_key k ys)"
    by (simp only: list_all2_same map_sort_key)
qed (rule sorted_pairs_mset)

lemma volumes_equal_iff:
  "volumes_equal v1 v2 = Inr () \<longleftrightarrow> mset (map v_name v1) = mset (map v_name v2)"
proof -
  have "mset (map v_name v1) = mset (map v_name v2) \<Longrightarrow> length v1 = length v2"
    by (metis length_map size_mset)
  then show ?thesis
    by (auto simp: volumes_equal_def each_pair_Inr names_pairs_iff)
qed

lemma volume_mounts_equal_iff:
  "volume_mounts_equal m1 m2 = Inr () \<longleftrightarrow> mset (map vm_name m1) = mset (map vm_name m2)"
proof -
  have "mset (map vm_name m1) = mset (map vm_name m2) \<Longrightarrow> length m1 = length m2"
    by (metis length_map size_mset)
  then show ?thesis
    by (auto simp: volume_mounts_equal_def each_pair_Inr names_pairs_iff)
qed

abbreviation env_binding :: "env_var \<Rightarrow> string \<times> string" where
  "env_binding e \<equiv> (ev_name e, ev_value e)"

lemma env_vars_equal_sorted:
  "env_vars_equal e1 e2 = Inr () \<longleftrightarrow>
     length (filter_system_envs e1) = length (filter_system_envs e2) \<and>
     list_all2 (\<lambda>a b. env_binding a = env_binding b)
       (sort_key ev_name (filter_system_envs e1)) (sort_key ev_name (filter_system_envs e2))"
proof -
  have "(\<lambda>a b. ev_value a = ev_value b \<and> ev_name a = ev_name b) = (\<lambda>a b. env_binding a = env_binding b)"
    by auto
  then show ?thesis by (auto simp: env_vars_equal_def Let_def each_pair_Inr)
qed

lemma env_vars_equal_iff:
  assumes "distinct (map ev_name (filter_system_envs e1))"
  shows "env_vars_equal e1 e2 = Inr () \<longleftrightarrow>
    mset (map env_binding (filter_system_envs e1)) = mset (map env_binding (filter_system_envs e2))"
    (is "_ \<longleftrightarrow> mset (map _ ?f1) = mset (map _ ?f2)")
proof
  assume "env_vars_equal e1 e2 = Inr ()"
  then have "list_all2 (\<lambda>a b. env_binding a = env_binding b) (sort_key ev_name ?f1) (sort_key ev_name ?f2)"
    by (simp only: env_vars_equal_sorted)
  then show "mset (map env_binding ?f1) = mset (map env_binding ?f2)" by (rule sorted_pairs_mset)
next
  assume m: "mset (map env_binding ?f1) = mset (map env_binding ?f2)"
  have len: "length ?f1 = length ?f2" using m by (metis length_map size_mset)
  have s1: "map env_binding (sort_key ev_name f) = sort_key fst (map env_binding f)"
    if "distinct (map ev_name f)" for f
    using that by (intro sorted_perm_unique) (simp_all add: comp_def)
  have "image_mset fst (mset (map env_binding ?f1)) = image_mset fst (mset (map env_binding ?f2))"
    by (simp only: m)
  then have "mset (map ev_name ?f1) = mset (map ev_name ?f2)"
    by (simp add: multiset.map_comp comp_def)
  then have "distinct (map ev_name ?f2)" using assms by (rule mset_eq_imp_distinct_iff [THEN iffD1])
  moreover have "sort_key fst (map env_binding ?f2) = sort_key fst (map env_binding ?f1)"
    using m assms by (intro sort_key_perm) (simp_all add: comp_def)
  ultimately have "map env_binding (sort_key ev_name ?f1) = map env_binding (sort_key ev_name ?f2)"
    using s1 assms by simp
  then show "env_vars_equal e1 e2 = Inr ()"
    by (simp only: env_vars_equal_sorted list_all2_same len)
qed

text \<open>What the comparison of two containers looks at, besides their environment and mounts.\<close>

definition container_core ::
  "container \<Rightarrow> string \<times> string \<times> string list option \<times> string list option \<times> string list option \<times> string" where
  "container_core c = (c_name c, c_image c, c_command c, c_args c, c_ports c, c_resources c)"

lemma container_equal_iff:
  "container_equal a b = Inr () \<longleftrightarrow> container_core a = container_core b \<and>
     (c_pull_policy a = [] \<or> c_pull_policy b = [] \<or> c_pull_policy a = c_pull_policy b) \<and>
     env_vars_equal (c_env a) (c_env b) = Inr () \<and> volume_mounts_equal (c_mounts a) (c_mounts b) = Inr ()"
  by (auto simp: container_equal_def container_core_def)

lemma env_vars_equal_refl [simp]: "env_vars_equal e e = Inr ()"
  by (simp only: env_vars_equal_sorted list_all2_same simp_thms)

lemma container_equal_refl [simp]: "container_equal c c = Inr ()"
  by (simp add: container_equal_iff volume_mounts_equal_iff)

lemma pod_spec_equal_iff:
  "pod_spec_equal s1 s2 = Inr () \<longleftrightarrow>
     length (ps_containers s1) = length (ps_containers s2) \<and>
     list_all2 (\<lambda>a b. container_equal a b = Inr ())
       (sort_containers (ps_containers s1)) (sort_containers (ps_containers s2)) \<and>
     mset (map v_name (ps_volumes s1)) = mset (map v_name (ps_volumes s2))"
  by (auto simp: pod_spec_equal_def each_pair_Inr volumes_equal_iff sort_containers_def)

lemma pod_spec_equal_core:
  assumes "pod_spec_equal s1 s2 = Inr ()"
  shows "mset (map container_core (ps_containers s1)) = mset (map container_core (ps_containers s2))"
proof -
  have "list_all2 (\<lambda>a b. container_core a = container_core b)
      (sort_key c_name (ps_containers s1)) (sort_key c_name (ps_containers s2))"
    using assms by (auto simp: pod_spec_equal_iff container_equal_iff sort_containers_def elim: list_all2_mono)
  then show ?thesis by (rule sorted_pairs_mset)
qed

lemma pod_template_spec_equal_iff:
  "pod_template_spec_equal t1 t2 = Inr () \<longleftrightarrow>
     object_meta_equal (pt_meta t1) (pt_meta t2) = Inr () \<and> pod_spec_equal (pt_spec t1) (pt_spec t2) = Inr ()"
  by (simp add: pod_template_spec_equal_def)

lemma pod_template_spec_equal_refl: "meta_ok (pt_meta t) \<Longrightarrow> pod_template_spec_equal t t = Inr ()"
  by (simp add: pod_template_spec_equal_iff pod_spec_equal_iff object_meta_equal_refl list_all2_same
      list_all2_refl)

lemma deep_equal_selector_refl:
  "(case s of None \<Rightarrow> True | Some l \<Rightarrow> gm_ok (sm_entries (ls_match_labels l))) \<Longrightarrow> deep_equal_selector s s"
  by (auto simp: deep_equal_selector_def deep_equal_map_refl split: option.splits)

text \<open>A label or annotation of the controller never makes a difference.\<close>

lemma filter_set_hidden:
  "\<not> P k \<Longrightarrow> filter (\<lambda>(k, v). P k) (gm_set k v m) = filter (\<lambda>(k, v). P k) m"
  by (induction m) auto

lemma filter_system_labels_set [simp]:
  "system_label k \<Longrightarrow> filter_system_labels (Some (gm_set k v m)) = filter_system_labels (Some m)"
  by (simp add: filter_system_labels_def filter_set_hidden [of "\<lambda>k. \<not> system_label k"])

lemma filter_system_annotations_set [simp]:
  "system_annotation k \<Longrightarrow> filter_system_annotations (Some (gm_set k v m)) = filter_system_annotations (Some m)"
  by (simp add: filter_system_annotations_def filter_set_hidden [of "\<lambda>k. \<not> system_annotation k"])

section \<open>The interface of the workload comparisons\<close>

text \<open>
  What a reconciler relies on when it skips its patch because the comparison found no difference:
  a workload that was not created yet is never equal, nothing is patched when nothing changed, and
  equal workloads agree on metadata and pod templates.
\<close>

locale workload_equality =
  fixes equal :: "'o option \<Rightarrow> 'o option \<Rightarrow> unit res"
    and meta_of :: "'o \<Rightarrow> object_meta"
    and templates :: "'o \<Rightarrow> pod_template list"
    and wf :: "'o \<Rightarrow> bool"
  assumes created: "equal (Some x) q = Inr () \<Longrightarrow> om_uid (meta_of x) \<noteq> []"
    and not_nil: "equal p None \<noteq> Inr ()"
    and refl: "wf x \<Longrightarrow> om_uid (meta_of x) \<noteq> [] \<Longrightarrow> equal (Some x) (Some x) = Inr ()"
    and same_meta: "equal (Some x) (Some y) = Inr () \<Longrightarrow> object_meta_equal (meta_of x) (meta_of y) = Inr ()"
    and same_templates: "equal (Some x) (Some y) = Inr () \<Longrightarrow>
      list_all2 (\<lambda>a b. pod_template_spec_equal a b = Inr ()) (templates x) (templates y)"
begin

lemma absent_differs: "om_uid (meta_of x) = [] \<Longrightarrow> equal (Some x) q \<noteq> Inr ()"
  using created by blast

lemma same_containers:
  assumes "equal (Some x) (Some y) = Inr ()"
  shows "map (\<lambda>t. mset (map container_core (ps_containers (pt_spec t)))) (templates x)
    = map (\<lambda>t. mset (map container_core (ps_containers (pt_spec t)))) (templates y)"
  unfolding list_all2_same [symmetric]
  by (rule list_all2_mono [OF same_templates [OF assms]])
    (use pod_spec_equal_core pod_template_spec_equal_iff in blast)

lemma same_user_labels:
  assumes "equal (Some x) (Some y) = Inr ()" and "meta_ok (meta_of x)" and "meta_ok (meta_of y)"
    and "\<not> system_label k"
  shows "gm_get (sm_entries (om_labels (meta_of x))) k = gm_get (sm_entries (om_labels (meta_of y))) k"
proof -
  have get: "gm_get (filter (\<lambda>(k, v). \<not> system_label k) m) k = gm_get m k" for m :: "string gomap"
    using assms(4) by (induction m) auto
  from same_meta [OF assms(1)] assms(2,3)
  have "gm_get (filter (\<lambda>(k, v). \<not> system_label k) (sm_entries (om_labels (meta_of x))))
      = gm_get (filter (\<lambda>(k, v). \<not> system_label k) (sm_entries (om_labels (meta_of y))))"
    by (simp add: object_meta_equal_def maps_equal_iff meta_ok_def)
  then show ?thesis using get by metis
qed

end

definition selector_ok :: "label_selector option \<Rightarrow> bool" where
  "selector_ok s \<longleftrightarrow> (case s of None \<Rightarrow> True | Some l \<Rightarrow> gm_ok (sm_entries (ls_match_labels l)))"

definition sts_ok :: "statefulset \<Rightarrow> bool" where
  "sts_ok s \<longleftrightarrow> meta_ok (ss_meta s) \<and> meta_ok (pt_meta (ss_template s)) \<and> selector_ok (ss_selector s)"

definition deployment_ok :: "deployment \<Rightarrow> bool" where
  "deployment_ok d \<longleftrightarrow> meta_ok (dp_meta d) \<and> meta_ok (pt_meta (dp_template d)) \<and> selector_ok (dp_selector d)"

definition lws_ok :: "leader_worker_set \<Rightarrow> bool" where
  "lws_ok l \<longleftrightarrow> meta_ok (lw_meta l) \<and> meta_ok (pt_meta (lw_worker_template l)) \<and> lw_size l \<noteq> None \<and>
     (case lw_leader_template l of None \<Rightarrow> False | Some t \<Rightarrow> meta_ok (pt_meta t))"

definition lws_templates :: "leader_worker_set \<Rightarrow> pod_template list" where
  "lws_templates l = (case lw_leader_template l of None \<Rightarrow> [] | Some t \<Rightarrow> [t]) @ [lw_worker_template l]"

lemma leader_worker_template_equal_iff:
  "leader_worker_template_equal l1 l2 = Inr () \<longleftrightarrow>
     (\<exists>t1 t2 n. lw_leader_template l1 = Some t1 \<and> lw_leader_template l2 = Some t2 \<and>
        lw_size l1 = Some n \<and> lw_size l2 = Some n \<and> pod_template_spec_equal t1 t2 = Inr () \<and>
        pod_template_spec_equal (lw_worker_template l1) (lw_worker_template l2) = Inr () \<and>
        lw_restart_policy l1 = lw_restart_policy l2)"
  by (cases "lw_leader_template l1"; cases "lw_leader_template l2"; cases "lw_size l1"; cases "lw_size l2")
    (auto simp: leader_worker_template_equal_def)

interpretation sts_eq: workload_equality semantically_equal_sts ss_meta "\<lambda>s. [ss_template s]" sts_ok
  by unfold_locales
    (auto simp: semantically_equal_sts_def stateful_set_spec_equal_def sts_ok_def selector_ok_def
      object_meta_equal_refl pod_template_spec_equal_refl deep_equal_selector_refl
      split: option.splits if_splits)

interpretation deployment_eq:
  workload_equality semantically_equal_deployment dp_meta "\<lambda>d. [dp_template d]" deployment_ok
  by unfold_locales
    (auto simp: semantically_equal_deployment_def deployment_spec_equal_def deployment_ok_def selector_ok_def
      object_meta_equal_refl pod_template_spec_equal_refl deep_equal_selector_refl
      split: option.splits if_splits)

interpretation lws_eq: workload_equality semantically_equal_lws lw_meta lws_templates lws_ok
  by unfold_locales
    (auto simp: semantically_equal_lws_def lws_spec_equal_def leader_worker_template_equal_iff lws_ok_def
      lws_templates_def object_meta_equal_refl pod_template_spec_equal_refl
      split: option.splits if_splits)

section \<open>Properties\<close>

text \<open>The StatefulSet reconciler patches when it must: if \<open>SemanticallyEqualStatefulSet\<close> finds no
  difference, the old object exists, and the name, image, command, arguments, ports and resources
  of all containers, the names of all volumes, the service name, the selector and every label that
  is not the controller's own agree.\<close>

theorem sts_equal_means_same:
  assumes "semantically_equal_sts (Some old) (Some new) = Inr ()"
    and "meta_ok (ss_meta old)" and "meta_ok (ss_meta new)"
  shows "om_uid (ss_meta old) \<noteq> [] \<and>
    mset (map container_core (ps_containers (pt_spec (ss_template old))))
      = mset (map container_core (ps_containers (pt_spec (ss_template new)))) \<and>
    mset (map v_name (ps_volumes (pt_spec (ss_template old))))
      = mset (map v_name (ps_volumes (pt_spec (ss_template new)))) \<and>
    ss_service_name old = ss_service_name new \<and>
    deep_equal_selector (ss_selector old) (ss_selector new) \<and>
    (\<forall>k. \<not> system_label k \<longrightarrow>
       gm_get (sm_entries (om_labels (ss_meta old))) k = gm_get (sm_entries (om_labels (ss_meta new))) k)"
proof -
  have "stateful_set_spec_equal old new = Inr ()"
    using assms(1) by (auto simp: semantically_equal_sts_def split: if_splits)
  then have "ss_service_name old = ss_service_name new"
    and "deep_equal_selector (ss_selector old) (ss_selector new)"
    by (simp_all add: stateful_set_spec_equal_def)
  moreover have "pod_spec_equal (pt_spec (ss_template old)) (pt_spec (ss_template new)) = Inr ()"
    using sts_eq.same_templates [OF assms(1)] by (simp add: pod_template_spec_equal_iff)
  ultimately show ?thesis
    using sts_eq.created [OF assms(1)] sts_eq.same_containers [OF assms(1)]
      sts_eq.same_user_labels [OF assms] by (simp add: pod_spec_equal_iff)
qed

theorem sts_equal_means_same_witness:
  "mset (map container_core (ps_containers (pt_spec (ss_template (sample_sts 3 2 3)))))
    = mset (map container_core (ps_containers (pt_spec (ss_template (sample_sts 5 0 5)))))"
proof -
  have "semantically_equal_sts (Some (sample_sts 3 2 3)) (Some (sample_sts 5 0 5)) = Inr ()" by code_simp
  moreover have "meta_ok (ss_meta (sample_sts 3 2 3))" and "meta_ok (ss_meta (sample_sts 5 0 5))"
    by (simp_all add: meta_ok_def sample_defs gm_ok_def)
  ultimately show ?thesis using sts_equal_means_same by blast
qed

text \<open>Nothing is patched when nothing changed: for every supported kind, a created workload with
  well-formed maps is equal to itself, so the watch predicate does not fire on it.\<close>

theorem workload_equal_refl:
  assumes "case w of ObjSts s \<Rightarrow> sts_ok s \<and> om_uid (ss_meta s) \<noteq> []
    | ObjDeploy d \<Rightarrow> deployment_ok d \<and> om_uid (dp_meta d) \<noteq> []
    | ObjLws l \<Rightarrow> lws_ok l \<and> om_uid (lw_meta l) \<noteq> [] | _ \<Rightarrow> False"
  shows "workload_equal w w = Inr ()"
  using assms by (cases w) (simp_all add: workload_equal_def sts_eq.refl deployment_eq.refl lws_eq.refl)

theorem workload_equal_refl_witness: "workload_equal (ObjSts (sample_sts 3 2 3)) (ObjSts (sample_sts 3 2 3)) = Inr ()"
  by (rule workload_equal_refl)
    (simp add: sts_ok_def selector_ok_def meta_ok_def sample_defs gm_ok_def)

text \<open>C38: The comparison of environments is exact on names and values: with unique names, it finds
  two lists equal exactly when, without the controller's own variables, they hold the same pairs of
  name and value in any order.\<close>

theorem env_vars_equal_exact:
  assumes "distinct (map ev_name (filter_system_envs e1))"
  shows "env_vars_equal e1 e2 = Inr () \<longleftrightarrow>
    mset (map (\<lambda>e. (ev_name e, ev_value e)) (filter_system_envs e1))
      = mset (map (\<lambda>e. (ev_name e, ev_value e)) (filter_system_envs e2))"
  by (rule env_vars_equal_iff [OF assms])

definition sample_env :: "string \<Rightarrow> string \<Rightarrow> env_var" where
  "sample_env n v = \<lparr>ev_name = n, ev_value = v, ev_value_from = None\<rparr>"

theorem env_vars_equal_exact_witness:
  "env_vars_equal [sample_env ''B'' ''1'', sample_env ''A'' ''2'', sample_env ''RBG_GROUP_SIZE'' ''4'']
     [sample_env ''A'' ''2'', sample_env ''B'' ''1''] = Inr ()"
proof -
  let ?e = "[sample_env ''B'' ''1'', sample_env ''A'' ''2'', sample_env ''RBG_GROUP_SIZE'' ''4'']"
  have "distinct (map ev_name (filter_system_envs ?e))"
    by (simp add: filter_system_envs_def sample_env_def)
  from env_vars_equal_exact [OF this, of "[sample_env ''A'' ''2'', sample_env ''B'' ''1'']"]
  show ?thesis by (simp add: filter_system_envs_def sample_env_def)
qed

text \<open>\<open>mapsEqual\<close> decides equality of two string maps as functions, whatever their iteration
  order, with nil equal to empty.\<close>

theorem maps_equal_correct:
  assumes "gm_ok (sm_entries m1)" and "gm_ok (sm_entries m2)"
  shows "maps_equal m1 m2 \<longleftrightarrow> gm_get (sm_entries m1) = gm_get (sm_entries m2)"
  by (rule maps_equal_iff [OF assms])

theorem maps_equal_correct_witness:
  "maps_equal (Some [(''a'', ''1''), (''b'', ''2'')]) (Some [(''b'', ''2''), (''a'', ''1'')]) \<longleftrightarrow>
    gm_get [(''a'', ''1''), (''b'', ''2'')] = gm_get [(''b'', ''2''), (''a'', ''1'')]"
  using maps_equal_correct [of "Some [(''a'', ''1''), (''b'', ''2'')]" "Some [(''b'', ''2''), (''a'', ''1'')]"]
  by (simp add: gm_ok_def)

text \<open>The labels and annotations the controller writes itself never cause a patch or an event:
  setting a system label and a system annotation on either side leaves the comparison of the
  metadata unchanged.\<close>

theorem controller_metadata_ignored:
  assumes "system_label k" and "system_annotation a"
  shows "object_meta_equal
      (m\<lparr>om_labels := Some (gm_set k v labels), om_annotations := Some (gm_set a w annotations)\<rparr>) other
    = object_meta_equal (m\<lparr>om_labels := Some labels, om_annotations := Some annotations\<rparr>) other"
  using assms by (simp add: object_meta_equal_def)

theorem controller_metadata_ignored_witness:
  "object_meta_equal ((sample_meta ''x'' ''u'')\<lparr>om_labels := Some [(SetNameLabelKey, ''g'')],
      om_annotations := Some [(RoleSizeAnnotationKey, ''3'')]\<rparr>) (sample_meta ''x'' ''u'')
    = object_meta_equal ((sample_meta ''x'' ''u'')\<lparr>om_labels := Some [], om_annotations := Some []\<rparr>)
      (sample_meta ''x'' ''u'')"
  using controller_metadata_ignored [where k = SetNameLabelKey and a = RoleSizeAnnotationKey
      and v = "''g''" and w = "''3''" and labels = "[]" and annotations = "[]"
      and m = "sample_meta ''x'' ''u''" and other = "sample_meta ''x'' ''u''"] by simp

text \<open>Changes the comparison does not see: the source of an environment variable and the source of
  a volume.\<close>

lemma insort_key_map: "(\<And>x. k (h x) = k x) \<Longrightarrow> insort_key k (h x) (map h ys) = map h (insort_key k x ys)"
  by (induction ys) simp_all

lemma sort_key_map: "(\<And>x. k (h x) = k x) \<Longrightarrow> sort_key k (map h xs) = map h (sort_key k xs)"
  by (induction xs) (simp_all add: insort_key_map)

lemma env_source_ignored:
  "env_vars_equal (map (\<lambda>e. e\<lparr>ev_value_from := f e\<rparr>) env) env = Inr ()"
proof -
  have "filter_system_envs (map (\<lambda>e. e\<lparr>ev_value_from := f e\<rparr>) env)
      = map (\<lambda>e. e\<lparr>ev_value_from := f e\<rparr>) (filter_system_envs env)"
    by (simp add: filter_system_envs_def filter_map comp_def)
  moreover have "sort_key ev_name (map (\<lambda>e. e\<lparr>ev_value_from := f e\<rparr>) xs)
      = map (\<lambda>e. e\<lparr>ev_value_from := f e\<rparr>) (sort_key ev_name xs)" for xs
    by (rule sort_key_map) simp
  ultimately show ?thesis
    by (simp only: env_vars_equal_sorted list_all2_same) simp
qed

lemma volume_source_ignored:
  "volumes_equal (map (\<lambda>v. v\<lparr>v_source := f v\<rparr>) vs) vs = Inr ()"
  by (simp add: volumes_equal_iff comp_def)

end
