(* ===== verification/Rolling_Update.thy ===== *)
theory Rolling_Update
  imports Sample_Cluster
begin

text \<open>
  The rolling update of a StatefulSet role (\<open>sts_reconciler.go\<close>): the validation of the strategy,
  the state of each replica read from the pods and the controller revisions, and the partition and
  replica count of the next patch (\<open>rollingUpdateParameters\<close> and its helpers). Every 32-bit
  operation of the source is wrapped in \<open>i32\<close>, every slice access may panic.
\<close>

section \<open>The strategy\<close>

definition default_rollout_strategy :: rollout_strategy where
  "default_rollout_strategy = \<lparr>rs_type = RollingUpdateStrategyType,
     rs_rolling_update = Some \<lparr>ru_max_unavailable = IntVal 1, ru_max_surge = IntVal 0\<rparr>\<rparr>"

definition validate_rollout_strategy ::
  "klib \<Rightarrow> rollout_strategy option \<Rightarrow> int \<Rightarrow> rollout_strategy res" where
  "validate_rollout_strategy lib strategy replicas =
     (case strategy of None \<Rightarrow> Inr default_rollout_strategy
      | Some st \<Rightarrow>
        (case rs_rolling_update st of None \<Rightarrow> Inr default_rollout_strategy
         | Some ru \<Rightarrow>
           (case lib_scaled lib (ru_max_surge ru) replicas True of Inl e \<Rightarrow> Inl e
            | Inr max_surge \<Rightarrow>
              (case lib_scaled lib (ru_max_unavailable ru) replicas False of Inl e \<Rightarrow> Inl e
               | Inr max_available \<Rightarrow>
                   if max_available = 0 \<and> max_surge = 0 then Inl InvalidRollout else Inr st))))"

section \<open>The state of the replicas\<close>

record replica_state =
  rep_updated :: bool
  rep_ready :: bool

text \<open>\<open>sortedPods[idx] = pod\<close>: a pod whose index label is no number, or too large, is skipped; a
  negative index panics. An entry never assigned holds the zero pod, here \<open>None\<close>.\<close>

definition place_pod :: "int \<Rightarrow> pod \<Rightarrow> pod option list \<Rightarrow> pod option list res" where
  "place_pod n p sorted_pods =
     (case atoi (sm_get (om_labels (pd_meta p)) ''apps.kubernetes.io/pod-index'') of
        None \<Rightarrow> Inr sorted_pods
      | Some idx \<Rightarrow>
          if n \<le> idx then Inr sorted_pods
          else if idx < 0 then Inl (Panic IndexOutOfRange)
          else Inr (sorted_pods[nat idx := Some p]))"

definition replica_state_of :: "string \<Rightarrow> string \<Rightarrow> nat \<Rightarrow> pod option \<Rightarrow> replica_state" where
  "replica_state_of sts_name revision idx entry =
     (case entry of
        None \<Rightarrow> \<lparr>rep_updated = False, rep_ready = False\<rparr>
      | Some p \<Rightarrow>
          if sts_name @ ''-'' @ show_int (int idx) \<noteq> om_name (pd_meta p)
          then \<lparr>rep_updated = False, rep_ready = False\<rparr>
          else \<lparr>rep_updated = (sm_get (om_labels (pd_meta p)) ''controller-revision-hash'' = revision),
                rep_ready = pod_running_and_ready p\<rparr>)"

definition get_sts_highest_revision ::
  "klib \<Rightarrow> 'w client \<Rightarrow> statefulset \<Rightarrow> ('w, controller_revision option) act" where
  "get_sts_highest_revision lib c sts =
     call (of_res (lib_selector lib (om_labels (ss_meta sts)))) (\<lambda>sel.
     call (list_revisions lib c (ss_meta sts) sel) (\<lambda>revisions.
     return_ok (get_highest_revision revisions)))"

definition get_replica_states ::
  "klib \<Rightarrow> 'w client \<Rightarrow> statefulset \<Rightarrow> ('w, replica_state list) act" where
  "get_replica_states lib c sts =
     call (of_res (deref (ss_replicas sts))) (\<lambda>n.
     call (if n < 0 then return_err (Panic MakeSliceNegative) else return_ok ()) (\<lambda>_.
     call (do_list c KPod as_pod (om_namespace (ss_meta sts)) (om_labels (ss_meta sts))) (\<lambda>pods.
     call (of_res (loop (place_pod n) pods (replicate (nat n) None))) (\<lambda>sorted_pods.
     call (get_sts_highest_revision lib c sts) (\<lambda>highest.
     case highest of
       None \<Rightarrow> return_err (NoRevision (om_name (ss_meta sts)))
     | Some rv \<Rightarrow>
         return_ok (map (\<lambda>idx. replica_state_of (om_name (ss_meta sts)) (om_name (rv_meta rv)) idx
             (sorted_pods ! idx)) [0..<nat n]))))))"

definition calculate_role_unready_replicas :: "replica_state list \<Rightarrow> int \<Rightarrow> int" where
  "calculate_role_unready_replicas states role_replicas =
     int (length (filter
       (\<lambda>idx. length states \<le> idx \<or> \<not> rep_ready (states ! idx) \<or> \<not> rep_updated (states ! idx))
       [0..<nat role_replicas]))"

definition calculate_continuous_ready_replicas :: "replica_state list \<Rightarrow> int" where
  "calculate_continuous_ready_replicas states =
     int (length (takeWhile (\<lambda>s. rep_ready s \<and> rep_updated s) (rev states)))"

section \<open>The partition\<close>

definition count_unavailable_step :: "replica_state list \<Rightarrow> int \<Rightarrow> int \<Rightarrow> int res" where
  "count_unavailable_step states idx unavailable =
     (case slice_at states idx of
        None \<Rightarrow> Inl (Panic IndexOutOfRange)
      | Some s \<Rightarrow> Inr (if rep_ready s then unavailable else i32 (unavailable + 1)))"

text \<open>The loop that lowers the partition: it walks down from the given indices and stops at the
  first replica that is ready and still old.\<close>

primrec lower_partition :: "replica_state list \<Rightarrow> int list \<Rightarrow> int \<Rightarrow> int res" where
  "lower_partition states [] part = Inr part"
| "lower_partition states (idx # idxs) part =
     (case slice_at states idx of
        None \<Rightarrow> Inl (Panic IndexOutOfRange)
      | Some s \<Rightarrow>
          if \<not> rep_ready s \<or> rep_updated s then lower_partition states idxs idx
          else Inr part)"

definition rolling_step_partition :: "replica_state list \<Rightarrow> int \<Rightarrow> int \<Rightarrow> int" where
  "rolling_step_partition states sts_replicas rolling_step =
     non_zero_value (i32 (i32 (sts_replicas - calculate_continuous_ready_replicas states) - rolling_step))"

definition rolling_update_partition :: "replica_state list \<Rightarrow> int \<Rightarrow> int \<Rightarrow> int \<Rightarrow> int res" where
  "rolling_update_partition states sts_replicas rolling_step current_partition =
     (let step_partition = rolling_step_partition states sts_replicas rolling_step in
      case loop (count_unavailable_step states) (map int [0..<nat step_partition]) 0 of
        Inl e \<Rightarrow> Inl e
      | Inr unavailable \<Rightarrow>
          let part = i32 (step_partition + unavailable) in
          (case lower_partition states
                  (rev [step_partition..min part (i32 (sts_replicas - 1))]) part of
             Inl e \<Rightarrow> Inl e
           | Inr lowered \<Rightarrow> Inr (min lowered current_partition)))"

section \<open>Partition and replicas of the next patch\<close>

definition capped_surge :: "int \<Rightarrow> int \<Rightarrow> int" where
  "capped_surge role_replicas scaled = (if role_replicas < scaled then role_replicas else scaled)"

definition burst_replicas :: "int \<Rightarrow> int \<Rightarrow> int" where
  "burst_replicas role_replicas max_surge = i32 (role_replicas + i32 max_surge)"

definition want_replicas :: "int \<Rightarrow> int \<Rightarrow> int \<Rightarrow> int" where
  "want_replicas role_replicas max_surge unready =
     (if unready \<le> i32 max_surge
      then i32 (role_replicas + non_zero_value (i32 (unready - 1)))
      else burst_replicas role_replicas max_surge)"

text \<open>\<open>role.RolloutStrategy.RollingUpdate\<close>, through two pointers.\<close>

definition role_rolling_update :: "role_spec \<Rightarrow> rolling_update res" where
  "role_rolling_update r =
     (case deref (r_rollout_strategy r) of Inl e \<Rightarrow> Inl e | Inr st \<Rightarrow> deref (rs_rolling_update st))"

definition sts_partition :: "statefulset \<Rightarrow> int res" where
  "sts_partition sts =
     (case deref (us_rolling_update (ss_update_strategy sts)) of
        Inl e \<Rightarrow> Inl e | Inr u \<Rightarrow> deref (su_partition u))"

definition parse_role_size :: "statefulset \<Rightarrow> int res" where
  "parse_role_size sts =
     (let v = sm_get (om_annotations (ss_meta sts)) RoleSizeAnnotationKey in
      case atoi v of None \<Rightarrow> Inl (InvalidNumber v) | Some n \<Rightarrow> Inr n)"

definition rolling_update_parameters ::
  "klib \<Rightarrow> 'w client \<Rightarrow> role_spec \<Rightarrow> statefulset \<Rightarrow> bool \<Rightarrow> ('w, int \<times> int) act" where
  "rolling_update_parameters lib c role sts sts_updated =
     call (of_res (deref (r_replicas role))) (\<lambda>role_replicas.
     if om_uid (ss_meta sts) = [] then return_ok (0, role_replicas)
     else
     call (of_res (deref (ss_replicas sts))) (\<lambda>sts_replicas.
     call (of_res (role_rolling_update role)) (\<lambda>ru.
     call (of_res (lib_scaled lib (ru_max_surge ru) role_replicas True)) (\<lambda>scaled_surge.
     let max_surge = capped_surge role_replicas scaled_surge;
         burst = burst_replicas role_replicas max_surge in
     if sts_updated then
       return_ok (min role_replicas sts_replicas, want_replicas role_replicas max_surge role_replicas)
     else
     call (of_res (sts_partition sts)) (\<lambda>part.
     if part = 0 \<and> sts_replicas = role_replicas then return_ok (0, role_replicas)
     else
     call (get_replica_states lib c sts) (\<lambda>states.
     let unready = calculate_role_unready_replicas states role_replicas in
     call (of_res (parse_role_size sts)) (\<lambda>original.
     if original \<noteq> role_replicas then
       return_ok (min part burst, want_replicas role_replicas max_surge unready)
     else
     call (of_res (lib_scaled lib (ru_max_unavailable ru) role_replicas False)) (\<lambda>max_unavailable.
     let rolling_step = max_unavailable + (max_surge - (burst - sts_replicas)) in
     call (of_res (rolling_update_partition states sts_replicas (i32 rolling_step) part)) (\<lambda>p.
     return_ok (p, want_replicas role_replicas max_surge unready))))))))))"

section \<open>Executions of the unit tests\<close>

definition test_states :: "replica_state list" where
  "test_states = map (\<lambda>(u, r). \<lparr>rep_updated = u, rep_ready = r\<rparr>)
     [(False, True), (False, True), (False, True), (False, True), (True, True), (True, False)]"

lemma rolling_update_partition_test: "rolling_update_partition test_states 6 4 4 = Inr 2"
  by code_simp

section \<open>The partition: lemmas\<close>

abbreviation old_ready :: "replica_state \<Rightarrow> bool" where
  "old_ready s \<equiv> rep_ready s \<and> \<not> rep_updated s"

abbreviation new_ready :: "replica_state \<Rightarrow> bool" where
  "new_ready s \<equiv> rep_ready s \<and> rep_updated s"

lemma continuous_ready_bounds:
  "0 \<le> calculate_continuous_ready_replicas states"
  "calculate_continuous_ready_replicas states \<le> int (length states)"
  unfolding calculate_continuous_ready_replicas_def
  using length_takeWhile_le [of new_ready "rev states"] by simp_all

text \<open>The replicas counted by \<open>calculateContinuousReadyReplicas\<close> are the last ones, and all of
  them are new and ready.\<close>

lemma continuous_ready_tail:
  assumes "length states - nat (calculate_continuous_ready_replicas states) \<le> i" and "i < length states"
  shows "new_ready (states ! i)"
proof -
  let ?k = "length (takeWhile new_ready (rev states))"
  have "length states - Suc i < ?k"
    using assms by (simp add: calculate_continuous_ready_replicas_def)
  then have "new_ready (rev states ! (length states - Suc i))"
    by (metis (no_types, lifting) nth_mem set_takeWhileD takeWhile_nth)
  then show ?thesis using assms(2) by (simp add: rev_nth)
qed

text \<open>The first loop counts the replicas below an index that are not ready, and panics when the
  index runs past the slice.\<close>

definition unready_below :: "replica_state list \<Rightarrow> nat \<Rightarrow> nat" where
  "unready_below states k = length (filter (\<lambda>s. \<not> rep_ready s) (take k states))"

lemma unready_below_le: "unready_below states k \<le> k"
  unfolding unready_below_def
  using length_filter_le [of "\<lambda>s. \<not> rep_ready s" "take k states"] by simp

lemma unready_below_Suc:
  "k < length states \<Longrightarrow>
   unready_below states (Suc k) = unready_below states k + (if rep_ready (states ! k) then 0 else 1)"
  by (simp add: unready_below_def take_Suc_conv_app_nth)

lemma loop_count_unavailable:
  assumes "k \<le> length states" and "length states < 2147483648"
  shows "loop (count_unavailable_step states) (map int [0..<k]) 0 = Inr (int (unready_below states k))"
  using assms(1)
proof (induction k)
  case 0
  then show ?case by (simp add: unready_below_def)
next
  case (Suc k)
  have "int (unready_below states k) + 1 < 2147483648"
    using unready_below_le [of states k] Suc.prems assms(2) by simp
  then have "in_i32 (int (unready_below states k) + 1)" by (simp add: in_i32_def)
  with Suc show ?case by (simp add: count_unavailable_step_def unready_below_Suc)
qed

lemma loop_count_unavailable_panic:
  assumes "length states < k" and "length states < 2147483648"
  shows "loop (count_unavailable_step states) (map int [0..<k]) 0 = Inl (Panic IndexOutOfRange)"
proof -
  have "map int [0..<k] = map int [0..<length states] @ int (length states) # map int [Suc (length states)..<k]"
    using assms(1) by (metis append_Cons append_Nil le_eq_less_or_eq list.simps(9) map_append
        upt_add_eq_append upt_conv_Cons zero_le le_add_diff_inverse)
  then show ?thesis
    using loop_count_unavailable [OF le_refl assms(2)]
    by (simp add: count_unavailable_step_def slice_at_def)
qed

text \<open>The second loop returns either the partition it was given, or an index it reached; every
  replica from there up to the start of the walk is not ready or already new.\<close>

lemma lower_partition_spec:
  assumes "0 \<le> lo" and "hi < int (length states)"
  shows "\<exists>q. lower_partition states (rev [lo..hi]) part = Inr q \<and>
    (q = part \<or> lo \<le> q \<and> q \<le> hi) \<and>
    (q \<noteq> part \<longrightarrow> (\<forall>i. q \<le> i \<and> i \<le> hi \<longrightarrow> \<not> old_ready (states ! nat i)))"
  using assms(2)
proof (induction "nat (hi - lo + 1)" arbitrary: hi part)
  case 0
  then have "[lo..hi] = []" by simp
  then show ?case by simp
next
  case (Suc n)
  then have "lo \<le> hi" by simp
  then have rev: "rev [lo..hi] = hi # rev [lo..hi - 1]" by (simp add: upto_rec2)
  have at: "slice_at states hi = Some (states ! nat hi)"
    using assms(1) \<open>lo \<le> hi\<close> Suc.prems by (simp add: slice_at_in_range)
  show ?case
  proof (cases "old_ready (states ! nat hi)")
    case True
    with rev at show ?thesis by simp
  next
    case False
    obtain q where q: "lower_partition states (rev [lo..hi - 1]) hi = Inr q"
      "q = hi \<or> lo \<le> q \<and> q \<le> hi - 1"
      "q \<noteq> hi \<longrightarrow> (\<forall>i. q \<le> i \<and> i \<le> hi - 1 \<longrightarrow> \<not> old_ready (states ! nat i))"
      using Suc.hyps(1) [of "hi - 1" hi] Suc.hyps(2) Suc.prems by fastforce
    have "\<forall>i. q \<le> i \<and> i \<le> hi \<longrightarrow> \<not> old_ready (states ! nat i)"
    proof (intro allI impI)
      fix i assume i: "q \<le> i \<and> i \<le> hi"
      show "\<not> old_ready (states ! nat i)"
      proof (cases "i = hi")
        case False
        with i q(2) have "q \<noteq> hi" and "i \<le> hi - 1" by auto
        with q(3) i show ?thesis by blast
      qed (use \<open>\<not> old_ready (states ! nat hi)\<close> in simp)
    qed
    with q(1,2) rev at False \<open>lo \<le> hi\<close> show ?thesis by auto
  qed
qed

text \<open>
  The partition of one step, when the walk stays inside the slice: it is the lower of the current
  partition and a value \<open>q\<close> between \<open>rollingStepPartition\<close> and \<open>rollingStepPartition\<close> plus the
  unready replicas below it, and no replica from \<open>q\<close> up to that sum is ready and old.
\<close>

lemma rolling_update_partition_spec:
  fixes states :: "replica_state list" and step cur :: int
  defines "n \<equiv> int (length states)"
  defines "rsp \<equiv> rolling_step_partition states n step"
  defines "u \<equiv> int (unready_below states (nat rsp))"
  assumes small: "n < 1073741824" and inside: "rsp \<le> n"
  shows "\<exists>q. rolling_update_partition states n step cur = Inr (min q cur) \<and> rsp \<le> q \<and> q \<le> rsp + u \<and>
    (\<forall>i. q \<le> i \<longrightarrow> i < n \<longrightarrow> i < rsp + u \<longrightarrow> \<not> old_ready (states ! nat i))"
proof -
  have rsp0: "0 \<le> rsp" by (simp add: rsp_def rolling_step_partition_def non_zero_value_def)
  have u: "0 \<le> u" "u \<le> rsp"
    using unready_below_le [of states "nat rsp"] rsp0 by (auto simp: u_def)
  have loop: "loop (count_unavailable_step states) (map int [0..<nat rsp]) 0 = Inr u"
    unfolding u_def using inside small rsp0 by (intro loop_count_unavailable) (auto simp: n_def)
  have p0: "i32 (rsp + u) = rsp + u" and n1: "i32 (n - 1) = n - 1"
    using u rsp0 inside small by (auto simp: in_i32_def n_def)
  obtain q where q: "lower_partition states (rev [rsp..min (rsp + u) (n - 1)]) (rsp + u) = Inr q"
    "q = rsp + u \<or> rsp \<le> q \<and> q \<le> min (rsp + u) (n - 1)"
    "q \<noteq> rsp + u \<longrightarrow> (\<forall>i. q \<le> i \<and> i \<le> min (rsp + u) (n - 1) \<longrightarrow> \<not> old_ready (states ! nat i))"
  proof -
    have "min (rsp + u) (n - 1) < int (length states)" by (simp add: n_def)
    from lower_partition_spec [OF rsp0 this, of "rsp + u"] that show thesis by blast
  qed
  have "rolling_update_partition states n step cur = Inr (min q cur)"
    using loop q(1) by (simp add: rolling_update_partition_def Let_def p0 n1 flip: rsp_def)
  moreover have "rsp \<le> q" and "q \<le> rsp + u" using q(2) u by auto
  moreover have "\<forall>i. q \<le> i \<longrightarrow> i < n \<longrightarrow> i < rsp + u \<longrightarrow> \<not> old_ready (states ! nat i)"
    using q(2,3) by auto
  ultimately show ?thesis by blast
qed

text \<open>Outside that range the first loop reads past the slice.\<close>

lemma rolling_update_partition_panic:
  assumes "int (length states) < rolling_step_partition states n step"
    and "length states < 2147483648"
  shows "rolling_update_partition states n step cur = Inl (Panic IndexOutOfRange)"
  using loop_count_unavailable_panic [of states "nat (rolling_step_partition states n step)"] assms
  by (simp add: rolling_update_partition_def Let_def)

lemma rolling_step_partition_eq:
  assumes "n = int (length states)" and "n < 1073741824"
    and "- 1073741824 \<le> step" and "step < 1073741824"
  shows "rolling_step_partition states n step
    = max 0 (n - calculate_continuous_ready_replicas states - step)"
proof -
  have "in_i32 (n - calculate_continuous_ready_replicas states)"
    and "in_i32 (n - calculate_continuous_ready_replicas states - step)"
    using continuous_ready_bounds [of states] assms by (auto simp: in_i32_def)
  then show ?thesis by (simp add: rolling_step_partition_def non_zero_value_max)
qed

text \<open>The ready replicas still to be replaced at or above an index: those the StatefulSet
  controller may take down when the partition is that index.\<close>

definition disrupted :: "replica_state list \<Rightarrow> int \<Rightarrow> nat" where
  "disrupted states p = length (filter (\<lambda>i. old_ready (states ! i)) [nat p..<length states])"

lemma disrupted_bound:
  assumes "0 \<le> q"
    and "\<forall>i. q \<le> i \<longrightarrow> i < int (length states) \<longrightarrow> i < b \<longrightarrow> \<not> old_ready (states ! nat i)"
  shows "int (disrupted states q)
    \<le> max 0 (int (length states) - calculate_continuous_ready_replicas states - max b q)"
proof -
  let ?hi = "int (length states) - calculate_continuous_ready_replicas states"
  have "{i. old_ready (states ! i)} \<inter> set [nat q..<length states] \<subseteq> nat ` {max b q..<?hi}"
  proof
    fix i assume "i \<in> {i. old_ready (states ! i)} \<inter> set [nat q..<length states]"
    then have i: "old_ready (states ! i)" "nat q \<le> i" "i < length states" by auto
    have "\<not> int i < b"
    proof
      assume "int i < b"
      then have "\<not> old_ready (states ! nat (int i))" using assms(2) i(2,3) by (intro assms(2) [rule_format]) auto
      with i(1) show False by simp
    qed
    moreover have "int i < ?hi"
    proof (rule ccontr)
      assume "\<not> int i < ?hi"
      then have "length states - nat (calculate_continuous_ready_replicas states) \<le> i" by linarith
      then have "new_ready (states ! i)" using i(3) by (rule continuous_ready_tail)
      with i(1) show False by simp
    qed
    ultimately have "int i \<in> {max b q..<?hi}" using i(2) by simp
    then show "i \<in> nat ` {max b q..<?hi}" by force
  qed
  then have "disrupted states q \<le> card (nat ` {max b q..<?hi})"
    unfolding disrupted_def by (subst distinct_length_filter) (auto intro: card_mono)
  also have "\<dots> \<le> card {max b q..<?hi}" by (rule card_image_le) simp
  finally show ?thesis by simp
qed

lemma disrupted_all_updated:
  assumes "\<And>i. nat p \<le> i \<Longrightarrow> i < length states \<Longrightarrow> rep_updated (states ! i)"
  shows "disrupted states p = 0"
  unfolding disrupted_def using assms by (simp add: filter_empty_conv)

text \<open>What the code returns for each partition it computes without a panic.\<close>

lemma rolling_update_partition_Inr_inside:
  assumes "rolling_update_partition states n step cur = Inr p" and "n = int (length states)"
    and "n < 1073741824"
  shows "rolling_step_partition states n step \<le> n"
proof (rule ccontr)
  assume "\<not> ?thesis"
  then have "rolling_update_partition states n step cur = Inl (Panic IndexOutOfRange)"
    using assms(2,3) by (intro rolling_update_partition_panic) auto
  with assms(1) show False by simp
qed

lemma rolling_update_partition_range:
  assumes "rolling_update_partition states n step cur = Inr p" and "n = int (length states)"
    and "n < 1073741824"
  shows "p \<le> cur \<and> (p = cur \<or> rolling_step_partition states n step \<le> p)"
  using rolling_update_partition_spec [of states step cur]
    rolling_update_partition_Inr_inside [OF assms] assms by auto

lemma rolling_step_partition_nonneg: "0 \<le> rolling_step_partition states n step"
  by (simp add: rolling_step_partition_def non_zero_value_def)

lemma unready_below_all_ready: "list_all rep_ready states \<Longrightarrow> unready_below states k = 0"
  by (auto simp: unready_below_def filter_empty_conv list_all_iff dest: in_set_takeD)

lemma unready_below_none_ready:
  assumes "list_all (\<lambda>s. \<not> rep_ready s) states" and "k \<le> length states"
  shows "unready_below states k = k"
proof -
  have "filter (\<lambda>s. \<not> rep_ready s) (take k states) = take k states"
    using assms(1) by (intro filter_True) (auto simp: list_all_iff dest: in_set_takeD)
  then show ?thesis using assms(2) by (simp add: unready_below_def)
qed

lemma rolling_update_partition_safe:
  assumes run: "rolling_update_partition states n step cur = Inr p" and n: "n = int (length states)"
    and "n < 1073741824" and "- 1073741824 \<le> step" and "step < 1073741824" and "p < cur"
  shows "disrupted states p = 0 \<or>
    int (disrupted states p) + int (unready_below states (nat (rolling_step_partition states n step))) \<le> step"
proof -
  let ?rsp = "rolling_step_partition states n step"
  let ?u = "int (unready_below states (nat ?rsp))"
  obtain q where q: "p = min q cur" "?rsp \<le> q" "q \<le> ?rsp + ?u"
    "\<forall>i. q \<le> i \<longrightarrow> i < n \<longrightarrow> i < ?rsp + ?u \<longrightarrow> \<not> old_ready (states ! nat i)"
    using rolling_update_partition_spec [of states step cur]
      rolling_update_partition_Inr_inside [OF assms(1-3)] assms(1-3) by auto
  have pq: "p = q" using q(1) \<open>p < cur\<close> by simp
  have "0 \<le> p" using pq q(2) rolling_step_partition_nonneg [of states n step] by simp
  then have "int (disrupted states p) \<le> max 0 (n - calculate_continuous_ready_replicas states - (?rsp + ?u))"
    using disrupted_bound [of p states "?rsp + ?u"] q(3,4) pq n by (simp add: max_def split: if_splits)
  moreover have "n - calculate_continuous_ready_replicas states - step \<le> ?rsp"
    using rolling_step_partition_eq [OF n assms(3-5)] by simp
  ultimately show ?thesis by linarith
qed

lemma rolling_update_partition_all_ready:
  assumes "list_all rep_ready states" and "n = int (length states)" and "n < 1073741824"
    and "0 \<le> step" and "step < 1073741824"
  shows "rolling_update_partition states n step cur
    = Inr (min (max 0 (n - calculate_continuous_ready_replicas states - step)) cur)"
proof -
  let ?rsp = "rolling_step_partition states n step"
  have rsp: "?rsp = max 0 (n - calculate_continuous_ready_replicas states - step)"
    using assms by (intro rolling_step_partition_eq) auto
  have "?rsp \<le> n" using rsp continuous_ready_bounds(1) [of states] assms(2,4) by simp
  with rolling_update_partition_spec [of states step cur] show ?thesis
    using assms rsp by (auto simp: unready_below_all_ready)
qed

text \<open>With no replica ready, the walk goes down to the step's lower bound: the update is never
  stuck behind replicas that are already down.\<close>

lemma lower_partition_all:
  assumes "0 \<le> lo" and "lo \<le> hi" and "hi < int (length states)"
    and "\<And>i. lo \<le> i \<Longrightarrow> i \<le> hi \<Longrightarrow> \<not> old_ready (states ! nat i)"
  shows "lower_partition states (rev [lo..hi]) part = Inr lo"
  using assms(2-4)
proof (induction "nat (hi - lo)" arbitrary: hi part)
  case 0
  then have "hi = lo" by simp
  then show ?case using 0 assms(1) by (auto simp: slice_at_in_range)
next
  case (Suc m)
  then have rev: "rev [lo..hi] = hi # rev [lo..hi - 1]" by (simp add: upto_rec2)
  have at: "slice_at states hi = Some (states ! nat hi)"
    using assms(1) Suc.prems by (simp add: slice_at_in_range)
  have "lower_partition states (rev [lo..hi - 1]) hi = Inr lo"
    using Suc.hyps(2) Suc.prems by (intro Suc.hyps(1)) auto
  with rev at Suc.prems show ?case by auto
qed

lemma rolling_update_partition_none_ready:
  assumes "list_all (\<lambda>s. \<not> rep_ready s) states" and n: "n = int (length states)"
    and "0 < n" and "n < 1073741824" and "0 < step" and "step < 1073741824"
  shows "rolling_update_partition states n step cur = Inr (min (max 0 (n - step)) cur)"
proof -
  let ?rsp = "rolling_step_partition states n step"
  have "takeWhile new_ready (rev states) = []"
    using assms(1) by (cases "rev states") (auto simp: list_all_iff simp flip: set_rev [of states])
  then have crr: "calculate_continuous_ready_replicas states = 0"
    by (simp add: calculate_continuous_ready_replicas_def)
  have rsp: "?rsp = max 0 (n - step)" using assms crr by (subst rolling_step_partition_eq) auto
  then have lt: "0 \<le> ?rsp" "?rsp < n" using assms by auto
  have u: "loop (count_unavailable_step states) (map int [0..<nat ?rsp]) 0 = Inr ?rsp"
    using loop_count_unavailable [of "nat ?rsp" states] unready_below_none_ready [OF assms(1), of "nat ?rsp"]
      lt n assms(4) by (auto simp: nat_le_iff)
  have p0: "i32 (2 * ?rsp) = 2 * ?rsp" and n1: "i32 (n - 1) = n - 1"
    using lt assms by (auto simp: in_i32_def)
  have "lower_partition states (rev [?rsp..min (?rsp + ?rsp) (n - 1)]) (?rsp + ?rsp) = Inr ?rsp"
    using lt n assms(1) by (intro lower_partition_all) (auto simp: list_all_iff nat_less_iff)
  then have "rolling_update_partition states n step cur = Inr (min ?rsp cur)"
    by (simp add: rolling_update_partition_def Let_def u p0 n1)
  with rsp show ?thesis by simp
qed

section \<open>The parameters: lemmas\<close>

lemma capped_surge_min: "capped_surge n m = min n m"
  by (simp add: capped_surge_def)

text \<open>The cases of \<open>rollingUpdateParameters\<close>, as its comments number them.\<close>

lemma rolling_update_parameters_cases:
  assumes run: "rolling_update_parameters lib c role sts upd s = (Inr (p, k), t)"
  obtains (not_created) n where
      "r_replicas role = Some n" "om_uid (ss_meta sts) = []" "p = 0" "k = n" "t = s"
  | (started) n m ru surge where
      "r_replicas role = Some n" "om_uid (ss_meta sts) \<noteq> []" "ss_replicas sts = Some m"
      "role_rolling_update role = Inr ru" "lib_scaled lib (ru_max_surge ru) n True = Inr surge"
      "upd" "p = min n m" "k = want_replicas n (capped_surge n surge) n" "t = s"
  | (completed) n ru surge where
      "r_replicas role = Some n" "om_uid (ss_meta sts) \<noteq> []" "ss_replicas sts = Some n"
      "role_rolling_update role = Inr ru" "lib_scaled lib (ru_max_surge ru) n True = Inr surge"
      "\<not> upd" "sts_partition sts = Inr 0" "p = 0" "k = n" "t = s"
  | (resized) n m ru surge part states size where
      "r_replicas role = Some n" "om_uid (ss_meta sts) \<noteq> []" "ss_replicas sts = Some m"
      "role_rolling_update role = Inr ru" "lib_scaled lib (ru_max_surge ru) n True = Inr surge"
      "\<not> upd" "sts_partition sts = Inr part" "\<not> (part = 0 \<and> m = n)"
      "get_replica_states lib c sts s = (Inr states, t)"
      "parse_role_size sts = Inr size" "size \<noteq> n"
      "p = min part (burst_replicas n (capped_surge n surge))"
      "k = want_replicas n (capped_surge n surge) (calculate_role_unready_replicas states n)"
  | (stepping) n m ru surge part states unavailable where
      "r_replicas role = Some n" "om_uid (ss_meta sts) \<noteq> []" "ss_replicas sts = Some m"
      "role_rolling_update role = Inr ru" "lib_scaled lib (ru_max_surge ru) n True = Inr surge"
      "\<not> upd" "sts_partition sts = Inr part" "\<not> (part = 0 \<and> m = n)"
      "get_replica_states lib c sts s = (Inr states, t)"
      "parse_role_size sts = Inr n" "lib_scaled lib (ru_max_unavailable ru) n False = Inr unavailable"
      "rolling_update_partition states m
         (i32 (unavailable + (capped_surge n surge - (burst_replicas n (capped_surge n surge) - m)))) part = Inr p"
      "k = want_replicas n (capped_surge n surge) (calculate_role_unready_replicas states n)"
proof -
  obtain n where n: "r_replicas role = Some n"
    using run by (auto simp: rolling_update_parameters_def call_eq_Inr_iff)
  show thesis
  proof (cases "om_uid (ss_meta sts) = []")
    case True
    then show thesis
      using run n by (intro not_created [of n]) (auto simp: rolling_update_parameters_def)
  next
    case created: False
    obtain m ru surge where m: "ss_replicas sts = Some m" and ru: "role_rolling_update role = Inr ru"
      and surge: "lib_scaled lib (ru_max_surge ru) n True = Inr surge"
      using run n created
      by (auto simp: rolling_update_parameters_def call_eq_Inr_iff)
    note base = n created m ru surge
    note go = run [unfolded rolling_update_parameters_def Let_def]
    show thesis
    proof (cases upd)
      case True
      then show thesis using go base by (intro started [of n m ru surge]) simp_all
    next
      case old: False
      obtain part where part: "sts_partition sts = Inr part"
        using go base old by (auto simp: call_eq_Inr_iff)
      show thesis
      proof (cases "part = 0 \<and> m = n")
        case True
        then show thesis using go base old part by (intro completed [of n ru surge]) simp_all
      next
        case busy: False
        obtain states size where states: "get_replica_states lib c sts s = (Inr states, t)"
          and size: "parse_role_size sts = Inr size"
          and rest: "if size \<noteq> n then p = min part (burst_replicas n (capped_surge n surge)) \<and>
             k = want_replicas n (capped_surge n surge) (calculate_role_unready_replicas states n)
           else \<exists>unavailable. lib_scaled lib (ru_max_unavailable ru) n False = Inr unavailable \<and>
             rolling_update_partition states m
               (i32 (unavailable + (capped_surge n surge - (burst_replicas n (capped_surge n surge) - m)))) part = Inr p \<and>
             k = want_replicas n (capped_surge n surge) (calculate_role_unready_replicas states n)"
          using go base old part busy by (simp add: call_eq_Inr_iff) (auto simp: call_eq_Inr_iff split: if_splits)
        show thesis
        proof (cases "size = n")
          case True
          with rest obtain unavailable where
            un: "lib_scaled lib (ru_max_unavailable ru) n False = Inr unavailable"
            and p: "rolling_update_partition states m
               (i32 (unavailable + (capped_surge n surge - (burst_replicas n (capped_surge n surge) - m)))) part = Inr p"
            and k: "k = want_replicas n (capped_surge n surge) (calculate_role_unready_replicas states n)"
            by auto
          from size True have "parse_role_size sts = Inr n" by simp
          then show thesis
            by (rule stepping [OF n created m ru surge old part busy states _ un p k])
        next
          case False
          with rest have p: "p = min part (burst_replicas n (capped_surge n surge))"
            and k: "k = want_replicas n (capped_surge n surge) (calculate_role_unready_replicas states n)"
            by simp_all
          show thesis by (rule resized [OF n created m ru surge old part busy states size False p k])
        qed
      qed
    qed
  qed
qed

lemma burst_replicas_eq:
  assumes "0 \<le> n" and "n < 1073741824" and "0 \<le> surge"
  shows "burst_replicas n (capped_surge n surge) = n + min n surge"
proof -
  have "in_i32 (min n surge)" and "in_i32 (n + min n surge)" using assms by (auto simp: in_i32_def)
  then show ?thesis by (simp add: burst_replicas_def capped_surge_min)
qed

lemma want_replicas_eq:
  assumes "0 \<le> n" and "n < 1073741824" and "0 \<le> surge" and "0 \<le> u" and "u \<le> n"
  shows "want_replicas n (capped_surge n surge) u =
    (if u \<le> min n surge then n + max 0 (u - 1) else n + min n surge)"
proof -
  have "in_i32 (min n surge)" and "in_i32 (u - 1)" and "in_i32 (n + max 0 (u - 1))"
    using assms by (auto simp: in_i32_def)
  then show ?thesis
    using burst_replicas_eq [OF assms(1-3)]
    by (simp add: want_replicas_def non_zero_value_max capped_surge_min)
qed

lemma role_unready_bounds:
  "0 \<le> calculate_role_unready_replicas states n"
  "0 \<le> n \<Longrightarrow> calculate_role_unready_replicas states n \<le> n"
  using length_filter_le [of "\<lambda>idx. length states \<le> idx \<or> \<not> rep_ready (states ! idx) \<or>
      \<not> rep_updated (states ! idx)" "[0..<nat n]"]
  unfolding calculate_role_unready_replicas_def by auto

lemma role_unready_0_iff:
  assumes "0 \<le> n"
  shows "calculate_role_unready_replicas states n = 0 \<longleftrightarrow>
    n \<le> int (length states) \<and> (\<forall>i < nat n. new_ready (states ! i))"
proof
  assume "calculate_role_unready_replicas states n = 0"
  then have all: "\<forall>i < nat n. i < length states \<and> new_ready (states ! i)"
    by (force simp: calculate_role_unready_replicas_def filter_empty_conv)
  moreover have "nat n \<le> length states"
    using all by (metis less_irrefl not_le)
  ultimately show "n \<le> int (length states) \<and> (\<forall>i < nat n. new_ready (states ! i))" by auto
next
  assume "n \<le> int (length states) \<and> (\<forall>i < nat n. new_ready (states ! i))"
  then show "calculate_role_unready_replicas states n = 0"
    by (auto simp: calculate_role_unready_replicas_def filter_empty_conv)
qed

lemma want_replicas_bounds:
  assumes "0 \<le> n" and "n < 1073741824" and "0 \<le> surge" and "0 \<le> u" and "u \<le> n"
  shows "n \<le> want_replicas n (capped_surge n surge) u"
    and "want_replicas n (capped_surge n surge) u \<le> n + min n surge"
  using want_replicas_eq [OF assms] assms by auto

text \<open>The states read from the cluster: one for each replica of the StatefulSet.\<close>

lemma get_replica_states_length:
  assumes "get_replica_states lib c sts s = (Inr states, t)" and "ss_replicas sts = Some m"
  shows "int (length states) = m"
  using assms by (auto simp: get_replica_states_def call_eq_Inr_iff split: if_splits option.splits)

text \<open>A partition of a round in which every replica is ready and those from the current partition
  on are new.\<close>

lemma continuous_ready_settled:
  assumes "list_all rep_ready states" and "\<And>i. cur \<le> int i \<Longrightarrow> i < length states \<Longrightarrow> rep_updated (states ! i)"
    and "0 \<le> cur" and "cur \<le> int (length states)"
  shows "int (length states) - calculate_continuous_ready_replicas states \<le> cur"
proof -
  let ?tail = "drop (nat cur) states"
  have "\<forall>x \<in> set (rev ?tail). new_ready x"
  proof
    fix x assume "x \<in> set (rev ?tail)"
    then obtain j where j: "j < length ?tail" "x = ?tail ! j" by (auto simp: in_set_conv_nth)
    then have "nat cur + j < length states" and x: "x = states ! (nat cur + j)" by auto
    then show "new_ready x"
      using assms(1) assms(2) [of "nat cur + j"] assms(3) by (auto simp: list_all_length)
  qed
  then have "takeWhile new_ready (rev ?tail @ rev (take (nat cur) states))
      = rev ?tail @ takeWhile new_ready (rev (take (nat cur) states))"
    by (intro takeWhile_append2) auto
  moreover have "rev states = rev ?tail @ rev (take (nat cur) states)"
    by (metis append_take_drop_id rev_append)
  ultimately have "length ?tail \<le> length (takeWhile new_ready (rev states))" by simp
  then have "length states - nat cur \<le> length (takeWhile new_ready (rev states))" by simp
  then show ?thesis
    using assms(3,4) by (simp add: calculate_continuous_ready_replicas_def)
qed

text \<open>The last case of \<open>rollingUpdateParameters\<close> as an equation: the step is the number of replicas
  that may be unavailable once the surge is counted in.\<close>

definition stepping_case ::
  "klib \<Rightarrow> 'w client \<Rightarrow> role_spec \<Rightarrow> statefulset \<Rightarrow> 'w sys \<Rightarrow> int \<Rightarrow> int \<Rightarrow> int \<Rightarrow> int \<Rightarrow> int \<Rightarrow>
     replica_state list \<Rightarrow> 'w sys \<Rightarrow> bool" where
  "stepping_case lib c role sts s n m surge unavailable part states t \<longleftrightarrow>
     r_replicas role = Some n \<and> om_uid (ss_meta sts) \<noteq> [] \<and> ss_replicas sts = Some m \<and>
     (\<exists>ru. role_rolling_update role = Inr ru \<and> lib_scaled lib (ru_max_surge ru) n True = Inr surge \<and>
        lib_scaled lib (ru_max_unavailable ru) n False = Inr unavailable) \<and>
     sts_partition sts = Inr part \<and> \<not> (part = 0 \<and> m = n) \<and>
     get_replica_states lib c sts s = (Inr states, t) \<and> parse_role_size sts = Inr n"

lemma rolling_update_parameters_stepping:
  assumes "stepping_case lib c role sts s n m surge unavailable part states t"
    and "0 \<le> n" and "n < 536870912" and "0 \<le> m" and "m < 536870912"
    and "0 \<le> surge" and "0 \<le> unavailable" and "unavailable < 536870912"
  shows "rolling_update_parameters lib c role sts False s =
    (case rolling_update_partition states m (unavailable + m - n) part of
       Inl e \<Rightarrow> (Inl e, t)
     | Inr p \<Rightarrow> (Inr (p, want_replicas n (capped_surge n surge) (calculate_role_unready_replicas states n)), t))"
proof -
  obtain ru where ru: "role_rolling_update role = Inr ru"
      "lib_scaled lib (ru_max_surge ru) n True = Inr surge"
      "lib_scaled lib (ru_max_unavailable ru) n False = Inr unavailable"
    and st: "r_replicas role = Some n" "om_uid (ss_meta sts) \<noteq> []" "ss_replicas sts = Some m"
      "sts_partition sts = Inr part" "\<not> (part = 0 \<and> m = n)"
      "get_replica_states lib c sts s = (Inr states, t)" "parse_role_size sts = Inr n"
    using assms(1) by (auto simp: stepping_case_def)
  have "unavailable + (capped_surge n surge - (burst_replicas n (capped_surge n surge) - m))
      = unavailable + m - n"
    using burst_replicas_eq [of n surge] assms by (simp add: capped_surge_min)
  moreover have "i32 (unavailable + m - n) = unavailable + m - n"
    using assms by (auto simp: in_i32_def)
  ultimately have step:
    "i32 (unavailable + (capped_surge n surge - (burst_replicas n (capped_surge n surge) - m)))
      = unavailable + m - n" by metis
  have run: "call (get_replica_states lib c sts) f s = f states t" for f :: "replica_state list \<Rightarrow> ('a, int \<times> int) act"
    by (rule call_Inr) (rule st(6))
  have busy: "(part = 0 \<and> m = n) = False" using st(5) by simp
  show ?thesis
    by (cases "rolling_update_partition states m (unavailable + m - n) part")
      (simp_all add: rolling_update_parameters_def Let_def st(1-4,7) busy ru run step split del: if_split)
qed

lemma stepping_case_length:
  "stepping_case lib c role sts s n m surge unavailable part states t \<Longrightarrow> int (length states) = m"
  by (auto simp: stepping_case_def dest: get_replica_states_length)

lemma continuous_ready_all:
  "list_all new_ready states \<Longrightarrow> calculate_continuous_ready_replicas states = int (length states)"
proof -
  assume "list_all new_ready states"
  then have "takeWhile new_ready (rev states) = rev states"
    by (auto simp: takeWhile_eq_all_conv list_all_iff)
  then show ?thesis by (simp only: calculate_continuous_ready_replicas_def length_rev)
qed

lemma rolling_update_partition_done:
  assumes "list_all new_ready states" and "n = int (length states)" and "n < 1073741824"
    and "0 \<le> step" and "step < 1073741824" and "0 \<le> cur"
  shows "rolling_update_partition states n step cur = Inr 0"
  using rolling_update_partition_all_ready [of states n step cur] continuous_ready_all [OF assms(1)] assms
  by (auto simp: list_all_iff)

lemma rolling_update_partition_panic_iff:
  assumes "n = int (length states)" and "n < 1073741824" and "- 1073741824 \<le> step" and "step < 1073741824"
  shows "rolling_update_partition states n step cur = Inl (Panic IndexOutOfRange) \<longleftrightarrow>
    calculate_continuous_ready_replicas states + step < 0"
  using rolling_update_partition_spec [of states step cur]
    rolling_update_partition_panic [of states n step cur] rolling_step_partition_eq [OF assms] assms
  by (cases "rolling_step_partition states n step \<le> n") auto

lemma rolling_update_replicas_range:
  assumes "fst (rolling_update_parameters lib c role sts upd s) = Inr (p, k)"
    and "r_replicas role = Some n" and "0 \<le> n" and "n < 1073741824"
    and "role_rolling_update role = Inr ru"
    and "lib_scaled lib (ru_max_surge ru) n True = Inr surge" and "0 \<le> surge"
  shows "n \<le> k \<and> k \<le> n + min n surge"
proof -
  obtain t where "rolling_update_parameters lib c role sts upd s = (Inr (p, k), t)"
    using assms(1) by (metis prod.collapse)
  then show ?thesis
    by (cases rule: rolling_update_parameters_cases)
      (use assms want_replicas_bounds [of n surge] role_unready_bounds [where n = n] in auto)
qed

section \<open>The rollout as a sequence of rounds\<close>

text \<open>
  The rollout of one revision: the controller lowers the partition, the StatefulSet controller
  replaces replicas from the partition on (a replaced replica is new and not ready), and any
  replica may become ready or unready.
\<close>

inductive rollout_step ::
  "int \<Rightarrow> int \<Rightarrow> replica_state list \<times> int \<Rightarrow> replica_state list \<times> int \<Rightarrow> bool" for n step where
  reconcile: "rolling_update_partition states n step part = Inr p \<Longrightarrow>
     rollout_step n step (states, part) (states, p)"
| replace: "part \<le> int i \<Longrightarrow> i < length states \<Longrightarrow>
     rollout_step n step (states, part) (states[i := \<lparr>rep_updated = True, rep_ready = False\<rparr>], part)"
| change: "i < length states \<Longrightarrow>
     rollout_step n step (states, part) (states[i := (states ! i)\<lparr>rep_ready := b\<rparr>], part)"

inductive_cases rollout_stepE: "rollout_step n step (states, part) (states', part')"

definition rollout_inv :: "int \<Rightarrow> replica_state list \<times> int \<Rightarrow> bool" where
  "rollout_inv n x \<longleftrightarrow> int (length (fst x)) = n \<and> 0 \<le> snd x \<and>
     (\<forall>i < length (fst x). int i < snd x \<longrightarrow> \<not> rep_updated (fst x ! i))"

lemma rollout_step_inv:
  assumes "rollout_step n step x y" and "rollout_inv n x" and "n < 1073741824"
  shows "rollout_inv n y \<and> snd y \<le> snd x"
  using assms
proof (induction rule: rollout_step.induct)
  case (reconcile states part p)
  have "p \<le> part \<and> 0 \<le> p"
    using rolling_update_partition_range [OF reconcile(1)] reconcile(2,3)
      rolling_step_partition_nonneg [of states n step] by (auto simp: rollout_inv_def)
  with reconcile(2) show ?case by (auto simp: rollout_inv_def)
qed (auto simp: rollout_inv_def nth_list_update)

lemma rollout_reachable_inv:
  assumes "(rollout_step n step)\<^sup>*\<^sup>* x y" and "rollout_inv n x" and "n < 1073741824"
  shows "rollout_inv n y \<and> snd y \<le> snd x"
  using assms
  by (induction rule: rtranclp_induct) (auto dest: rollout_step_inv)

lemma rollout_round:
  assumes "list_all rep_ready states" and "int (length states) = n" and "n < 1073741824"
    and "0 \<le> cur" and "cur \<le> n" and "0 \<le> step" and "step < 1073741824"
    and "\<And>i. cur \<le> int i \<Longrightarrow> i < length states \<Longrightarrow> rep_updated (states ! i)"
    and "rolling_update_partition states n step cur = Inr p"
  shows "0 \<le> p \<and> p \<le> max 0 (cur - step)"
proof -
  have "p = min (max 0 (n - calculate_continuous_ready_replicas states - step)) cur"
    using rolling_update_partition_all_ready [of states n step cur] assms by simp
  moreover have "n - calculate_continuous_ready_replicas states \<le> cur"
    using continuous_ready_settled [of states cur] assms by simp
  ultimately show ?thesis using assms(4,6) by auto
qed

section \<open>Properties\<close>

text \<open>C2: A rolling update that takes ready replicas down respects its step: when the partition
  is lowered, the replicas that are ready, old and at or above the new partition (those the
  StatefulSet controller may now replace) are none, or together with the unready replicas below
  the step's lower bound are at most \<open>rollingStep\<close>.\<close>

theorem rollout_step_respected:
  assumes "rolling_update_partition states (int (length states)) step cur = Inr p"
    and "length states < 1073741824" and "- 1073741824 \<le> step" and "step < 1073741824" and "p < cur"
  shows "disrupted states p = 0 \<or>
    int (disrupted states p)
      + int (unready_below states (nat (rolling_step_partition states (int (length states)) step))) \<le> step"
  using assms by (intro rolling_update_partition_safe [of _ _ _ cur]) auto

theorem rollout_step_respected_witness:
  "disrupted test_states 2 = 0 \<or>
    int (disrupted test_states 2) + int (unready_below test_states (nat (rolling_step_partition test_states 6 4))) \<le> 4"
proof -
  have "rolling_update_partition test_states (int (length test_states)) 4 4 = Inr 2"
    and len: "int (length test_states) = 6"
    by code_simp+
  from rollout_step_respected [OF this(1)] len show ?thesis by simp
qed

text \<open>C17: The partition moves in one direction and stays within bounds: for an existing
  StatefulSet whose template did not change, \<open>rollingUpdateParameters\<close> returns a partition
  between 0 and the current one.\<close>

theorem rollout_partition_monotone:
  assumes "fst (rolling_update_parameters lib c role sts False s) = Inr (p, k)"
    and "om_uid (ss_meta sts) \<noteq> []" and "sts_partition sts = Inr part" and "0 \<le> part"
    and "r_replicas role = Some n" and "0 \<le> n" and "n < 1073741824"
    and "ss_replicas sts = Some m" and "m < 1073741824"
    and "role_rolling_update role = Inr ru"
    and "lib_scaled lib (ru_max_surge ru) n True = Inr surge" and "0 \<le> surge"
  shows "0 \<le> p \<and> p \<le> part"
proof -
  obtain t where "rolling_update_parameters lib c role sts False s = (Inr (p, k), t)"
    using assms(1) by (metis prod.collapse)
  then show ?thesis
  proof (cases rule: rolling_update_parameters_cases)
    case (stepping n' m' ru' surge' part' states unavailable)
    have same: "m' = m" "part' = part" using stepping(3,7) assms(3,8) by auto
    have len: "m = int (length states)"
      using get_replica_states_length [OF stepping(9,3)] same by simp
    from stepping(12) same obtain step where step: "rolling_update_partition states m step part = Inr p"
      by blast
    show ?thesis
      using rolling_update_partition_range [OF step len assms(9)]
        rolling_step_partition_nonneg [of states m step] assms(4) by auto
  next
    case (resized n' m' ru' surge' part' states sz)
    then show ?thesis
      using assms burst_replicas_eq [of n surge] by auto
  qed (use assms in auto)
qed

theorem rollout_partition_monotone_witness:
  "\<exists>p k. fst (rolling_update_parameters sample_lib store_client (sample_role ''a'' [] 3)
      (sample_sts 3 2 3) False (run_on sample_rollout)) = Inr (p, k) \<and> 0 \<le> p \<and> p \<le> 2"
proof -
  have run: "fst (rolling_update_parameters sample_lib store_client (sample_role ''a'' [] 3)
      (sample_sts 3 2 3) False (run_on sample_rollout)) = Inr (1, 4)"
    and "om_uid (ss_meta (sample_sts 3 2 3)) \<noteq> []" and "sts_partition (sample_sts 3 2 3) = Inr 2"
    by code_simp+
  from rollout_partition_monotone [OF this, of 3 3 "\<lparr>ru_max_unavailable = IntVal 1, ru_max_surge = IntVal 1\<rparr>" 1] run
  show ?thesis by (simp add: sample_role_def sample_sts_def role_rolling_update_def sample_lib_def)
qed

text \<open>C18: The replica count of the patch stays between the role's replicas and the role's replicas
  plus the surge, which is never more than the role's replicas: no case of
  \<open>rollingUpdateParameters\<close> scales a role down below its size or bursts beyond \<open>maxSurge\<close>.\<close>

theorem rollout_replicas_bounds:
  assumes "fst (rolling_update_parameters lib c role sts upd s) = Inr (p, k)"
    and "r_replicas role = Some n" and "0 \<le> n" and "n < 1073741824"
    and "role_rolling_update role = Inr ru"
    and "lib_scaled lib (ru_max_surge ru) n True = Inr surge" and "0 \<le> surge"
  shows "n \<le> k \<and> k \<le> n + min n surge"
  using assms by (rule rolling_update_replicas_range)

theorem rollout_replicas_bounds_witness:
  "\<exists>p k. fst (rolling_update_parameters sample_lib store_client (sample_role ''a'' [] 3)
      (sample_sts 3 2 3) False (run_on sample_rollout)) = Inr (p, k) \<and> 3 \<le> k \<and> k \<le> 3 + min 3 1"
proof -
  have run: "fst (rolling_update_parameters sample_lib store_client (sample_role ''a'' [] 3)
      (sample_sts 3 2 3) False (run_on sample_rollout)) = Inr (1, 4)"
    by code_simp
  from rollout_replicas_bounds [OF this, of 3 "\<lparr>ru_max_unavailable = IntVal 1, ru_max_surge = IntVal 1\<rparr>" 1] run
  show ?thesis by (simp add: sample_role_def role_rolling_update_def sample_lib_def)
qed

text \<open>C15: The rollout ends. In rounds in which the StatefulSet controller has replaced the
  replicas from the partition on and all replicas are ready, each call lowers the partition by
  \<open>rollingStep\<close>, so after \<open>k\<close> rounds at most \<open>n - k * step\<close> old replicas are left and after
  \<open>n / step\<close> rounds none.\<close>

theorem rollout_converges:
  assumes "part 0 = n" and "0 \<le> n" and "n < 1073741824" and "0 < step" and "step < 1073741824"
    and "\<And>k. int (length (obs k)) = n" and "\<And>k. list_all rep_ready (obs k)"
    and "\<And>k i. part k \<le> int i \<Longrightarrow> i < length (obs k) \<Longrightarrow> rep_updated (obs k ! i)"
    and "\<And>k. rolling_update_partition (obs k) n step (part k) = Inr (part (Suc k))"
  shows "0 \<le> part k \<and> part k \<le> max 0 (n - int k * step)"
proof (induction k)
  case 0
  then show ?case using assms(1,2) by simp
next
  case (Suc k)
  have "0 \<le> int k * step" using assms(4) by simp
  then have "max 0 (n - int k * step) \<le> n" using assms(2) by linarith
  with Suc have "part k \<le> n" by linarith
  with Suc have "0 \<le> part (Suc k) \<and> part (Suc k) \<le> max 0 (part k - step)"
    using assms by (intro rollout_round [of "obs k" n "part k" step]) auto
  moreover have "a \<le> max 0 (c - step)" if "a \<le> max 0 (b - step)" "b \<le> max 0 c" for a b c :: int
    using that assms(4) by linarith
  moreover have "n - int (Suc k) * step = n - int k * step - step" by (simp add: algebra_simps)
  ultimately show ?case using Suc by metis
qed

definition settled_obs :: "nat \<Rightarrow> replica_state list" where
  "settled_obs k = map (\<lambda>i. \<lparr>rep_updated = (2 \<le> i + k), rep_ready = True\<rparr>) [0..<2]"

theorem rollout_converges_witness: "0 \<le> (0::int) \<and> max 0 (2 - int 5) \<le> max 0 (2 - int 5 * 1)
    \<and> rolling_update_partition (settled_obs 1) 2 1 1 = Inr 0"
proof -
  let ?part = "\<lambda>k. max 0 (2 - int k)"
  have run: "rolling_update_partition (settled_obs k) 2 1 (?part k) = Inr (?part (Suc k))" for k
  proof (cases "k < 2")
    case True
    then have "k = 0 \<or> k = 1" by auto
    moreover have "rolling_update_partition (settled_obs 0) 2 1 2 = Inr 1"
      and "rolling_update_partition (settled_obs 1) 2 1 1 = Inr 0" by code_simp+
    ultimately show ?thesis by auto
  next
    case False
    then have "settled_obs k = settled_obs 2" by (simp add: settled_obs_def)
    moreover have "rolling_update_partition (settled_obs 2) 2 1 0 = Inr 0" by code_simp
    ultimately show ?thesis using False by simp
  qed
  have "0 \<le> ?part 5 \<and> ?part 5 \<le> max 0 (2 - int 5 * 1)"
    by (rule rollout_converges [of ?part 2 1 settled_obs, OF _ _ _ _ _ _ _ _ run])
      (auto simp: settled_obs_def list_all_iff nth_append)
  with run [of 1] show ?thesis by simp
qed

text \<open>An update is never stuck behind replicas that are already down: when none of the \<open>n\<close>
  replicas is ready, the partition drops by the whole step at once.\<close>

theorem rollout_not_stuck:
  assumes "list_all (\<lambda>s. \<not> rep_ready s) states" and "states \<noteq> []" and "length states < 1073741824"
    and "0 < step" and "step < 1073741824"
  shows "rolling_update_partition states (int (length states)) step cur
    = Inr (min (max 0 (int (length states) - step)) cur)"
  using assms by (intro rolling_update_partition_none_ready) auto

theorem rollout_not_stuck_witness:
  "rolling_update_partition (replicate 3 \<lparr>rep_updated = False, rep_ready = False\<rparr>) 3 2 3 = Inr 1"
  using rollout_not_stuck [of "replicate 3 \<lparr>rep_updated = False, rep_ready = False\<rparr>" 2 3]
  by (simp add: list_all_iff)

text \<open>C29: Whatever the order of reconciliations, pod replacements and readiness changes, a
  rollout that starts with only old replicas keeps every replica below the partition on the old
  revision, and the partition never rises.\<close>

theorem rollout_reachable_safe:
  assumes "(rollout_step n step)\<^sup>*\<^sup>* (states, n) (states', part)"
    and "int (length states) = n" and "n < 1073741824" and "list_all (\<lambda>s. \<not> rep_updated s) states"
  shows "0 \<le> part \<and> part \<le> n \<and> (\<forall>i < length states'. int i < part \<longrightarrow> \<not> rep_updated (states' ! i))"
  using rollout_reachable_inv [OF assms(1)] assms(2-4)
  by (force simp: rollout_inv_def list_all_length)

theorem rollout_reachable_safe_witness:
  "\<exists>states' part. (rollout_step 2 1)\<^sup>*\<^sup>* (replicate 2 \<lparr>rep_updated = False, rep_ready = True\<rparr>, 2) (states', part)
    \<and> part < 2 \<and> (\<forall>i < length states'. int i < part \<longrightarrow> \<not> rep_updated (states' ! i))"
proof -
  let ?old = "\<lparr>rep_updated = False, rep_ready = True\<rparr>"
  have "rolling_update_partition (replicate 2 ?old) 2 1 2 = Inr 1" by code_simp
  then have "rollout_step 2 1 (replicate 2 ?old, 2) (replicate 2 ?old, 1)" by (rule rollout_step.reconcile)
  moreover have "rollout_step 2 1 (replicate 2 ?old, 1)
      ((replicate 2 ?old)[1 := \<lparr>rep_updated = True, rep_ready = False\<rparr>], 1)"
    by (rule rollout_step.replace) simp_all
  ultimately have reach: "(rollout_step 2 1)\<^sup>*\<^sup>* (replicate 2 ?old, 2)
      ((replicate 2 ?old)[1 := \<lparr>rep_updated = True, rep_ready = False\<rparr>], 1)"
    by (meson converse_rtranclp_into_rtranclp r_into_rtranclp)
  have "int (length (replicate 2 ?old)) = 2" and "(2::int) < 1073741824"
    and "list_all (\<lambda>s. \<not> rep_updated s) (replicate 2 ?old)"
    by (simp_all add: list_all_iff)
  note rollout_reachable_safe [OF reach this, THEN conjunct2, THEN conjunct2]
  with reach show ?thesis by (meson one_less_numeral_iff semiring_norm(76))
qed

text \<open>C30: A rollout completes: when every replica of the StatefulSet (at least the role's
  replicas, more while a surge lasts) is ready and new, the next patch has partition 0 and exactly
  the role's replicas, so the surge is given back.\<close>

theorem rollout_completes:
  assumes "stepping_case lib c role sts s n m surge unavailable part states t"
    and "0 \<le> n" and "n \<le> m" and "m < 536870912" and "0 \<le> surge"
    and "0 \<le> unavailable" and "unavailable < 536870912" and "0 \<le> part"
    and "list_all (\<lambda>x. rep_ready x \<and> rep_updated x) states"
  shows "rolling_update_parameters lib c role sts False s = (Inr (0, n), t)"
proof -
  have len: "m = int (length states)" using stepping_case_length [OF assms(1)] by simp
  have "rolling_update_partition states m (unavailable + m - n) part = Inr 0"
    using assms len by (intro rolling_update_partition_done) auto
  moreover have "calculate_role_unready_replicas states n = 0"
    using assms len by (simp add: role_unready_0_iff list_all_length)
  ultimately show ?thesis
    using rolling_update_parameters_stepping [OF assms(1)] want_replicas_eq [of n surge 0] assms
    by simp
qed

definition sample_finished :: cluster where
  "sample_finished = [ObjRevision (sample_revision ''r1'' 1), ObjRevision (sample_revision ''r2'' 2),
     ObjPod (sample_pod ''g-a'' 1 ''r2'' ConditionTrue), ObjPod (sample_pod ''g-a'' 0 ''r2'' ConditionTrue)]"

theorem rollout_completes_witness:
  "fst (rolling_update_parameters sample_lib store_client (sample_role ''a'' [] 1)
     (sample_sts 2 1 1) False (run_on sample_finished)) = Inr (0, 1)"
proof -
  let ?states = "replicate 2 \<lparr>rep_updated = True, rep_ready = True\<rparr>"
  have "fst (get_replica_states sample_lib store_client (sample_sts 2 1 1) (run_on sample_finished))
      = Inr ?states" by code_simp
  then obtain t where t: "get_replica_states sample_lib store_client (sample_sts 2 1 1)
      (run_on sample_finished) = (Inr ?states, t)" by (metis prod.collapse)
  moreover have "parse_role_size (sample_sts 2 1 1) = Inr 1" by code_simp
  ultimately have "stepping_case sample_lib store_client (sample_role ''a'' [] 1) (sample_sts 2 1 1)
      (run_on sample_finished) 1 2 1 1 1 ?states t"
    by (simp add: stepping_case_def sample_defs role_rolling_update_def sample_lib_def sts_partition_def)
  from rollout_completes [OF this] show ?thesis by (simp add: list_all_iff)
qed

text \<open>C31: When the computation of the partition runs past the slice of replica states. During a
  rollout whose StatefulSet keeps the role's size annotation, \<open>rollingUpdateParameters\<close> panics
  exactly when the StatefulSet was scaled from outside so far down that its replicas, the
  unavailable budget and the continuously ready replicas together are fewer than the role's
  replicas. The reconcile then never writes the replicas back.\<close>

theorem rollout_panics_when_scaled_down:
  assumes "stepping_case lib c role sts s n m surge unavailable part states t"
    and "0 \<le> n" and "n < 536870912" and "0 \<le> m" and "m < 536870912"
    and "0 \<le> surge" and "0 \<le> unavailable" and "unavailable < 536870912"
  shows "fst (rolling_update_parameters lib c role sts False s) = Inl (Panic IndexOutOfRange) \<longleftrightarrow>
    calculate_continuous_ready_replicas states + m + unavailable < n"
proof -
  have len: "m = int (length states)" using stepping_case_length [OF assms(1)] by simp
  have "rolling_update_partition states m (unavailable + m - n) part = Inl (Panic IndexOutOfRange) \<longleftrightarrow>
      calculate_continuous_ready_replicas states + (unavailable + m - n) < 0"
    using assms len by (intro rolling_update_partition_panic_iff) auto
  then show ?thesis
    using rolling_update_parameters_stepping [OF assms] by (auto split: sum.splits)
qed

theorem rollout_panics_when_scaled_down_witness:
  "fst (rolling_update_parameters sample_lib store_client (sample_role ''a'' [] 3)
     (sample_sts 0 0 3) False (run_on sample_finished)) = Inl (Panic IndexOutOfRange)"
proof -
  have "fst (get_replica_states sample_lib store_client (sample_sts 0 0 3) (run_on sample_finished))
      = Inr []" by code_simp
  then obtain t where t: "get_replica_states sample_lib store_client (sample_sts 0 0 3)
      (run_on sample_finished) = (Inr [], t)" by (metis prod.collapse)
  moreover have "parse_role_size (sample_sts 0 0 3) = Inr 3" by code_simp
  ultimately have "stepping_case sample_lib store_client (sample_role ''a'' [] 3) (sample_sts 0 0 3)
      (run_on sample_finished) 3 0 1 1 0 [] t"
    by (simp add: stepping_case_def sample_defs role_rolling_update_def sample_lib_def sts_partition_def)
  from rollout_panics_when_scaled_down [OF this]
  show ?thesis by (simp add: calculate_continuous_ready_replicas_def)
qed

text \<open>Two executions that do not respect the strategy. Six replicas, all old, of which 0 and 4 are
  not ready, and a step of 2: the partition 5 lets a third one go down, because the replicas
  between the step's lower bound and the returned partition are not counted. And with one replica
  not ready, the last surge replica is given back.\<close>

lemma max_unavailable_exceeded:
  "rolling_update_partition (map (\<lambda>r. \<lparr>rep_updated = False, rep_ready = r\<rparr>)
     [False, True, True, True, False, True]) 6 2 6 = Inr 5"
  by code_simp

lemma surge_given_back_early: "want_replicas 3 1 1 = 3"
  by code_simp

end
