(* ===== verification/Sts_Reconciler.thy ===== *)
theory Sts_Reconciler
  imports Workload_Interface Equality Rolling_Update
begin

text \<open>
  The StatefulSet reconciler (\<open>sts_reconciler.go\<close>): the StatefulSet and the headless service of a
  role, its status, readiness, cleanup and recreation. The comparison is in \<open>Equality\<close>, the
  rolling update in \<open>Rolling_Update\<close>. \<open>role.RolloutStrategy = rollingStrategy\<close> changes the role for
  the rest of the function; no later code of the reconcile reads the field again, so the changed
  role stays local here.
\<close>

section \<open>Objects\<close>

definition as_sts :: "obj \<Rightarrow> statefulset option" where
  "as_sts ob = (case ob of ObjSts x \<Rightarrow> Some x | _ \<Rightarrow> None)"

definition as_service :: "obj \<Rightarrow> service option" where
  "as_service ob = (case ob of ObjService x \<Rightarrow> Some x | _ \<Rightarrow> None)"

definition zero_template :: pod_template where
  "zero_template = \<lparr>pt_meta = empty_meta, pt_spec = \<lparr>ps_init_containers = [], ps_containers = [],
     ps_volumes = [], ps_other = []\<rparr>\<rparr>"

definition zero_sts :: statefulset where
  "zero_sts = \<lparr>ss_api_version = [], ss_kind = [], ss_meta = empty_meta, ss_replicas = None,
     ss_selector = None, ss_service_name = [], ss_template = zero_template,
     ss_pod_management_policy = [],
     ss_update_strategy = \<lparr>us_type = [], us_rolling_update = None\<rparr>, ss_ready_replicas = 0\<rparr>"

definition zero_service :: service where
  "zero_service = \<lparr>sv_meta = empty_meta, sv_cluster_ip = [], sv_selector = None, sv_publish_not_ready = False\<rparr>"

definition match_labels_of :: "label_selector option \<Rightarrow> strmap res" where
  "match_labels_of sel = (case deref sel of Inl e \<Rightarrow> Inl e | Inr l \<Rightarrow> Inr (ls_match_labels l))"

definition construct_sts ::
  "klib \<Rightarrow> 'w client \<Rightarrow> rbg \<Rightarrow> role_spec \<Rightarrow> statefulset \<Rightarrow> ('w, statefulset) act" where
  "construct_sts lib c g r old =
     call (of_res (if om_uid (ss_meta old) \<noteq> [] then match_labels_of (ss_selector old)
                   else Inr (Some (get_common_labels g r)))) (\<lambda>match_labels.
     call (construct_pod_template lib c None g r match_labels None) (\<lambda>tmpl.
     call (of_res (deref (r_replicas r))) (\<lambda>n.
     call (of_res (get_common_annotations g r)) (\<lambda>annotations.
     return_ok \<lparr>ss_api_version = ''apps/v1'', ss_kind = ''StatefulSet'',
       ss_meta = empty_meta\<lparr>om_name := get_workload_name g r, om_namespace := g_namespace g,
         om_labels := with_entries match_labels None,
         om_annotations := with_entries (Some annotations) None,
         om_owners := [rbg_controller_ref g]\<rparr>,
       ss_replicas = Some n,
       ss_selector = Some \<lparr>ls_match_labels = with_entries match_labels None, ls_other = []\<rparr>,
       ss_service_name = get_workload_name g r, ss_template = tmpl,
       ss_pod_management_policy = ''Parallel'',
       ss_update_strategy = \<lparr>us_type = [], us_rolling_update = None\<rparr>, ss_ready_replicas = 0\<rparr>))))"

definition construct_service :: "rbg \<Rightarrow> role_spec \<Rightarrow> statefulset \<Rightarrow> service res" where
  "construct_service g r sts =
     (case get_common_annotations g r of Inl e \<Rightarrow> Inl e
      | Inr annotations \<Rightarrow> Inr \<lparr>
          sv_meta = empty_meta\<lparr>om_name := get_workload_name g r, om_namespace := g_namespace g,
            om_labels := Some (get_common_labels g r), om_annotations := Some annotations,
            om_owners := [\<lparr>or_api_version = ss_api_version sts, or_kind = ss_kind sts,
              or_name = om_name (ss_meta sts), or_uid = om_uid (ss_meta sts),
              or_controller = None, or_block_owner_deletion = Some True\<rparr>]\<rparr>,
          sv_cluster_ip = ''None'',
          sv_selector = Some [(SetNameLabelKey, g_name g), (SetRoleLabelKey, r_name r)],
          sv_publish_not_ready = True\<rparr>)"

section \<open>Operations\<close>

text \<open>The spec of the patch: the constructed StatefulSet with the replicas and partition of the
  rolling update.\<close>

definition rollout_sts :: "rollout_strategy \<Rightarrow> rolling_update \<Rightarrow> int \<Rightarrow> int \<Rightarrow> statefulset \<Rightarrow> statefulset" where
  "rollout_sts st ru part replicas sts = sts\<lparr>ss_replicas := Some replicas,
     ss_update_strategy := \<lparr>us_type = rs_type st, us_rolling_update =
       Some \<lparr>su_partition = Some part, su_max_unavailable = Some (ru_max_unavailable ru)\<rparr>\<rparr>\<rparr>"

text \<open>\<open>equal && partition == *old.Partition && *old.Replicas == *role.Replicas\<close>, left to right.\<close>

definition sts_up_to_date :: "bool \<Rightarrow> int \<Rightarrow> statefulset \<Rightarrow> role_spec \<Rightarrow> bool res" where
  "sts_up_to_date equal part old r =
     (if \<not> equal then Inr False
      else case sts_partition old of Inl e \<Rightarrow> Inl e
      | Inr p \<Rightarrow>
          if part \<noteq> p then Inr False
          else (case deref (ss_replicas old) of Inl e \<Rightarrow> Inl e
          | Inr n \<Rightarrow> (case deref (r_replicas r) of Inl e \<Rightarrow> Inl e
          | Inr m \<Rightarrow> Inr (n = m))))"

definition reconcile_sts :: "klib \<Rightarrow> 'w client \<Rightarrow> rbg \<Rightarrow> role_spec \<Rightarrow> ('w, unit) act" where
  "reconcile_sts lib c g r =
     call (of_res (deref (r_replicas r))) (\<lambda>n.
     call (of_res (validate_rollout_strategy lib (r_rollout_strategy r) n)) (\<lambda>st.
     let role = r\<lparr>r_rollout_strategy := Some st\<rparr> in
     call (get_if_exists c KSts as_sts (workload_key g role)) (\<lambda>found.
     let old = (case found of None \<Rightarrow> zero_sts | Some x \<Rightarrow> x) in
     call (construct_sts lib c g role old) (\<lambda>cfg.
     call (convert_to lib as_sts (ObjSts cfg)) (\<lambda>new.
     let equal = (semantically_equal_sts (Some old) (Some new) = Inr ()) in
     call (rolling_update_parameters lib c role old (\<not> equal)) (\<lambda>(part, replicas).
     call (of_res (sts_up_to_date equal part old role)) (\<lambda>skip.
     if skip then return_ok ()
     else call (of_res (role_rolling_update role)) (\<lambda>ru.
     patch_object_apply_configuration c
       (Inr (PatchObj (ObjSts (rollout_sts st ru part replicas cfg)))) PatchSpec))))))))"

definition reconcile_headless_service :: "klib \<Rightarrow> 'w client \<Rightarrow> rbg \<Rightarrow> role_spec \<Rightarrow> ('w, unit) act" where
  "reconcile_headless_service lib c g r =
     call (wrap_err GetStsFailed (do_get c KSts as_sts (workload_key g r))) (\<lambda>sts.
     call (of_res (construct_service g r sts)) (\<lambda>cfg.
     call (convert_to lib as_service (ObjService cfg)) (\<lambda>new.
     call (get_if_exists c KService as_service (workload_key g r)) (\<lambda>found.
     let old = (case found of None \<Rightarrow> zero_service | Some x \<Rightarrow> x) in
     if semantically_equal_service (Some old) (Some new) = Inr () then return_ok ()
     else patch_object_apply_configuration c (Inr (PatchObj (ObjService cfg))) PatchSpec))))"

definition sts_reconciler :: "klib \<Rightarrow> 'w client \<Rightarrow> rbg \<Rightarrow> role_spec \<Rightarrow> ('w, unit) act" where
  "sts_reconciler lib c g r = call (reconcile_sts lib c g r) (\<lambda>_. reconcile_headless_service lib c g r)"

definition sts_role_status :: "'w client \<Rightarrow> rbg \<Rightarrow> role_spec \<Rightarrow> ('w, role_status \<times> bool) act" where
  "sts_role_status c g r =
     call (do_get c KSts as_sts (workload_key g r)) (\<lambda>sts.
     call (of_res (deref (ss_replicas sts))) (\<lambda>n.
     return_ok (role_status_of g r n (ss_ready_replicas sts))))"

definition sts_workload_ready :: "'w client \<Rightarrow> rbg \<Rightarrow> role_spec \<Rightarrow> ('w, bool) act" where
  "sts_workload_ready c g r =
     call (do_get c KSts as_sts (workload_key g r)) (\<lambda>sts.
     call (of_res (deref (ss_replicas sts))) (\<lambda>n.
     return_ok (ss_ready_replicas sts = n)))"

definition sts_cleanup :: "klib \<Rightarrow> 'w client \<Rightarrow> rbg \<Rightarrow> ('w, unit) act" where
  "sts_cleanup lib c g =
     call (do_list c KSts as_sts (g_namespace g) (owner_selector g)) (\<lambda>xs.
     delete_orphans lib c g ''StatefulSet'' ss_meta ObjSts xs)"

definition sts_recreate :: "'w client \<Rightarrow> nat \<Rightarrow> rbg \<Rightarrow> role_spec \<Rightarrow> ('w, unit) act" where
  "sts_recreate c attempts g r =
     handle (do_get c KSts as_sts (workload_key g r)) (\<lambda>q. case q of
       Inl e \<Rightarrow> if is_not_found e then return_ok () else return_err e
     | Inr sts \<Rightarrow>
         call (delete_if_exists c (ObjSts sts)) (\<lambda>_.
         wait_created c KSts as_sts (workload_key g r) attempts))"

definition sts_ops :: "klib \<Rightarrow> 'w client \<Rightarrow> nat \<Rightarrow> 'w workload_ops" where
  "sts_ops lib c attempts = \<lparr>wo_reconcile = sts_reconciler lib c, wo_role_status = sts_role_status c,
     wo_ready = sts_workload_ready c, wo_cleanup = sts_cleanup lib c, wo_recreate = sts_recreate c attempts\<rparr>"

section \<open>The contract\<close>

lemma sts_recreate_calls:
  "only_calls (recreate_call (workload_key g r) (\<lambda>q. \<exists>x. q = CDelete (ObjSts x))) (sts_recreate c attempts g r)"
  unfolding sts_recreate_def
  by (intro only_calls_handle only_calls_client)
    (auto simp: recreate_call_def split: sum.splits
      intro!: only_calls_call only_calls_delete_if_exists only_calls_wait_created)

lemma sts_recreate_trace:
  assumes "sts_recreate c attempts g r s = (Inr (), t)"
  shows "calls t = calls s @ [CGet KSts (workload_key g r) (Inl NotFound)] \<or>
    (\<exists>x m ob. m \<le> attempts \<and> calls t = calls s @
       [CGet KSts (workload_key g r) (Inr (ObjSts x)), CDelete (ObjSts x)] @
       replicate m (CGet KSts (workload_key g r) (Inl NotFound)) @ [CGet KSts (workload_key g r) (Inr ob)])"
proof -
  obtain q u where g: "do_get c KSts as_sts (workload_key g r) s = (q, u)" by fastforce
  from do_get_trace [OF g] obtain a where
    a: "calls u = calls s @ [CGet KSts (workload_key g r) a]" "q = decode as_sts a" by blast
  show ?thesis
  proof (cases q)
    case (Inl e)
    with assms g have "is_not_found e" and "u = t"
      by (auto simp: sts_recreate_def handle_def split: if_splits)
    with a Inl decode_not_found [of as_sts a e] show ?thesis by simp
  next
    case (Inr x)
    with assms g obtain v where del: "delete_if_exists c (ObjSts x) u = (Inr (), v)"
      and wait: "wait_created c KSts as_sts (workload_key g r) attempts v = (Inr (), t)"
      by (auto simp: sts_recreate_def handle_def call_eq_Inr_iff)
    from a(2) Inr obtain ob where "a = Inr ob" "as_sts ob = Some x" by (metis decode_found)
    then have "a = Inr (ObjSts x)" by (cases ob) (auto simp: as_sts_def)
    with a(1) delete_if_exists_trace [OF del] wait_created_trace [OF wait] show ?thesis by auto
  qed
qed

lemma sts_recreate_done:
  assumes "sts_recreate c attempts g r s = (Inr (), t)"
  shows "\<exists>cs. calls t = calls s @ cs \<and> recreated (workload_key g r) cs"
  using sts_recreate_trace [OF assms]
proof
  assume "calls t = calls s @ [CGet KSts (workload_key g r) (Inl NotFound)]"
  then show ?thesis using recreated_single by blast
next
  assume "\<exists>x m ob. m \<le> attempts \<and> calls t = calls s @
       [CGet KSts (workload_key g r) (Inr (ObjSts x)), CDelete (ObjSts x)] @
       replicate m (CGet KSts (workload_key g r) (Inl NotFound)) @ [CGet KSts (workload_key g r) (Inr ob)]"
  then show ?thesis using recreated_found by (metis append_assoc)
qed

lemma construct_sts_result:
  assumes "construct_sts lib c g r old s = (Inr x, t)"
  shows "om_name (ss_meta x) = get_workload_name g r \<and> om_namespace (ss_meta x) = g_namespace g \<and>
    om_owners (ss_meta x) = [rbg_controller_ref g] \<and> ss_service_name x = get_workload_name g r"
  using assms by (auto simp: construct_sts_def call_eq_Inr_iff)

lemma construct_sts_trace:
  assumes "construct_sts lib c g r old s = (Inr x, t)"
  obtains data new found cs where "build_config lib g = Inr data"
    and "lib_convert lib (ObjConfigMap (role_config_map g r data)) = Inr (ObjConfigMap new)"
    and "calls t = calls s @ CGet KConfigMap (workload_key g r) (read_answer found) #
      (if config_current lib found new then [] else [CApply (PatchObj (ObjConfigMap (role_config_map g r data)))]) @ cs"
    and "list_all is_read cs"
proof -
  from assms obtain labels tmpl where "construct_pod_template lib c None g r labels None s = (Inr tmpl, t)"
    by (auto simp: construct_sts_def call_eq_Inr_iff)
  then show thesis by (rule construct_pod_template_trace) (rule that, simp_all add: workload_key_def)
qed

lemma only_calls_construct_sts: "only_calls (template_call lib g r) (construct_sts lib c g r old)"
  unfolding construct_sts_def by (intro only_calls_intros only_calls_construct_pod_template)

lemma construct_service_result:
  "construct_service g r sts = Inr x \<Longrightarrow>
   om_name (sv_meta x) = get_workload_name g r \<and> om_namespace (sv_meta x) = g_namespace g"
  by (auto simp: construct_service_def split: sum.splits)

lemma only_calls_get_replica_states: "only_calls is_read (get_replica_states lib c sts)"
proof -
  have rev: "only_calls is_read (get_sts_highest_revision lib c sts)"
    unfolding get_sts_highest_revision_def list_revisions_def by (intro only_calls_intros) simp
  show ?thesis
    unfolding get_replica_states_def
    by (intro only_calls_intros rev) (auto split: option.splits)
qed

lemma only_calls_rolling_update_parameters: "only_calls is_read (rolling_update_parameters lib c role sts upd)"
  unfolding rolling_update_parameters_def Let_def
  by (intro only_calls_intros only_calls_get_replica_states)

lemma role_call_strategy [simp]:
  "role_call g (r\<lparr>r_rollout_strategy := st\<rparr>) = role_call g r"
  "workload_key g (r\<lparr>r_rollout_strategy := st\<rparr>) = workload_key g r"
  by (simp_all add: role_call_def workload_key_def get_workload_name_def fun_eq_iff)

lemma role_config_strategy [simp]: "role_config_map g (r\<lparr>r_rollout_strategy := st\<rparr>) = role_config_map g r"
  by (simp add: role_config_map_def get_workload_name_def fun_eq_iff)

lemma reconcile_sts_calls: "only_calls (role_call g r) (reconcile_sts lib c g r)"
proof (cases "r_replicas r")
  case (Some n)
  show ?thesis
  proof (cases "validate_rollout_strategy lib (r_rollout_strategy r) n")
    case (Inr st)
    let ?role = "r\<lparr>r_rollout_strategy := Some st\<rparr>"
    have build: "only_calls (role_call g r) (construct_sts lib c g ?role old)" for old
      by (rule only_calls_mono [OF only_calls_construct_sts]) (metis role_call_template role_call_strategy(1))
    have applied: "only_calls (role_call g r)
        (patch_object_apply_configuration c (Inr (PatchObj (ObjSts (rollout_sts st ru part k cfg)))) PatchSpec)"
      if "construct_sts lib c g ?role old s = (Inr cfg, t)" for old s t ru part k cfg
      using construct_sts_result [OF that]
      by (intro only_calls_patch)
        (auto simp: role_call_apply obj_key_def workload_key_def rollout_sts_def get_workload_name_def)
    show ?thesis
      unfolding reconcile_sts_def Some deref.simps call_of_res Inr Let_def
      by (intro only_calls_callI [OF only_calls_get_if_exists] only_calls_callI [OF build]
          only_calls_callI [OF only_calls_convert] only_calls_callI [OF only_calls_return(3)]
          only_calls_callI [OF only_calls_rolling_update_parameters [THEN only_calls_mono, OF role_call_read]])
        (auto intro!: only_calls_if only_calls_callI [OF only_calls_return(3)] applied split: prod.splits)
  qed (simp add: reconcile_sts_def Some)
qed (simp add: reconcile_sts_def)

lemma reconcile_headless_service_calls: "only_calls (role_call g r) (reconcile_headless_service lib c g r)"
  unfolding reconcile_headless_service_def Let_def
  by (intro only_calls_callI [OF only_calls_wrap_err] only_calls_callI [OF only_calls_return(3)]
      only_calls_callI [OF only_calls_convert] only_calls_callI [OF only_calls_get_if_exists] only_calls_if
      only_calls_return only_calls_client only_calls_patch)
    (auto dest!: construct_service_result simp: obj_key_def workload_key_def role_call_apply)

lemma sts_reconciler_calls: "only_calls (role_call g r) (sts_reconciler lib c g r)"
  unfolding sts_reconciler_def by (intro only_calls_call reconcile_sts_calls reconcile_headless_service_calls)

interpretation sts: workload_reconciler "sts_ops lib c attempts" "''StatefulSet''" ss_meta ObjSts lib
  for lib c attempts
proof unfold_locales
  fix g r s st upd t
  show "only_calls (role_call g r) (wo_reconcile (sts_ops lib c attempts) g r)"
    by (simp add: sts_ops_def sts_reconciler_calls)
  show "wo_ready (sts_ops lib c attempts) g r s = (Inr True, t) \<Longrightarrow>
      \<exists>q. calls t = calls s @ [q] \<and> read_ready g r q"
    and "wo_ready (sts_ops lib c attempts) g r s = (Inr False, t) \<Longrightarrow>
      \<exists>q. calls t = calls s @ [q] \<and> read_waiting g r q"
    by (auto simp: sts_ops_def sts_workload_ready_def call_eq_Inr_iff as_sts_def read_ready_def read_waiting_def
        split: obj.splits elim!: do_get_found)
  show "only_calls is_read (wo_ready (sts_ops lib c attempts) g r)"
    unfolding sts_ops_def sts_workload_ready_def by (simp, intro only_calls_intros, simp)
  show "only_calls is_read (wo_role_status (sts_ops lib c attempts) g r)"
    unfolding sts_ops_def sts_role_status_def by (simp, intro only_calls_intros, simp)
  show "wo_role_status (sts_ops lib c attempts) g r s = (Inr (st, upd), t) \<Longrightarrow>
      \<exists>q. calls t = calls s @ [q] \<and> read_found g r q"
    by (auto simp: sts_ops_def sts_role_status_def call_eq_Inr_iff read_found_def elim!: do_get_found)
  show "wo_role_status (sts_ops lib c attempts) g r s = (Inr (st, upd), t) \<Longrightarrow> st_name st = r_name r"
    and "wo_role_status (sts_ops lib c attempts) g r s = (Inr (st, False), t) \<Longrightarrow>
      st \<in> set (gs_role_statuses (g_status g))"
    unfolding sts_ops_def sts_role_status_def
    by (auto simp: call_eq_Inr_iff dest: role_status_of_run)
  show "only_calls (\<lambda>q. is_read q \<or> (\<exists>x. q = CDelete (ObjSts x)
        \<and> lib_is_controlled_by lib (ss_meta x) (g_meta g)
        \<and> \<not> has_role_for g ''StatefulSet'' (om_name (ss_meta x)))) (wo_cleanup (sts_ops lib c attempts) g)"
    unfolding sts_ops_def sts_cleanup_def
    by (simp, intro only_calls_call only_calls_client only_calls_mono [OF only_calls_delete_orphans]) auto
  show "only_calls (recreate_call (workload_key g r) (\<lambda>q. \<exists>x. q = CDelete (ObjSts x)))
      (wo_recreate (sts_ops lib c attempts) g r)"
    by (simp add: sts_ops_def sts_recreate_calls)
  show "wo_recreate (sts_ops lib c attempts) g r s = (Inr (), t) \<Longrightarrow>
      \<exists>cs. calls t = calls s @ cs \<and> recreated (workload_key g r) cs"
    by (simp add: sts_ops_def sts_recreate_done)
qed

section \<open>What a reconcile writes\<close>

lemma build_config_call: "template_call lib g (r\<lparr>r_rollout_strategy := st\<rparr>) = template_call lib g r"
  by (simp add: template_call_def role_config_map_def get_workload_name_def fun_eq_iff)

lemma template_call_read [simp]: "is_read q \<Longrightarrow> (\<forall>k n m. q \<noteq> CList k n m) \<Longrightarrow> template_call lib g r q"
  by (auto simp: is_read_def template_call_def)

text \<open>The StatefulSet a reconcile may apply.\<close>

definition sts_write_ok :: "rbg \<Rightarrow> role_spec \<Rightarrow> int \<Rightarrow> int \<Rightarrow> statefulset \<Rightarrow> bool" where
  "sts_write_ok g r n surge x \<longleftrightarrow>
     om_name (ss_meta x) = get_workload_name g r \<and> om_namespace (ss_meta x) = g_namespace g \<and>
     om_owners (ss_meta x) = [rbg_controller_ref g] \<and>
     (\<exists>k. ss_replicas x = Some k \<and> n \<le> k \<and> k \<le> n + min n surge)"

definition sts_call_ok :: "klib \<Rightarrow> rbg \<Rightarrow> role_spec \<Rightarrow> int \<Rightarrow> int \<Rightarrow> call \<Rightarrow> bool" where
  "sts_call_ok lib g r n surge q \<longleftrightarrow> is_read q \<or> template_call lib g r q \<or>
     (\<exists>x. q = CApply (PatchObj (ObjSts x)) \<and> sts_write_ok g r n surge x)"

lemma only_calls_reconcile_sts:
  assumes "r_replicas r = Some n" and "0 \<le> n" and "n < 1073741824"
    and "validate_rollout_strategy lib (r_rollout_strategy r) n = Inr st"
    and "rs_rolling_update st = Some ru"
    and "lib_scaled lib (ru_max_surge ru) n True = Inr surge" and "0 \<le> surge"
  shows "only_calls (sts_call_ok lib g r n surge) (reconcile_sts lib c g r)"
proof -
  let ?P = "sts_call_ok lib g r n surge"
  let ?role = "r\<lparr>r_rollout_strategy := Some st\<rparr>"
  have name: "get_workload_name g ?role = get_workload_name g r" by (simp add: get_workload_name_def)
  have ru: "role_rolling_update ?role = Inr ru" using assms(5) by (simp add: role_rolling_update_def)
  have reads: "only_calls ?P m" if "only_calls is_read m" for m :: "('a, 'b) act"
    by (rule only_calls_mono [OF that]) (simp add: sts_call_ok_def)
  have build: "only_calls ?P (construct_sts lib c g ?role old)" for old
    by (rule only_calls_mono [OF only_calls_construct_sts])
      (simp add: sts_call_ok_def build_config_call)
  show ?thesis
    unfolding reconcile_sts_def assms(1) deref.simps call_of_res assms(4) Let_def
  proof (intro only_calls_callI [OF only_calls_get_if_exists] only_calls_callI [OF build]
      only_calls_callI [OF only_calls_convert]
      only_calls_callI [OF only_calls_rolling_update_parameters [THEN only_calls_mono]])
    fix found :: "statefulset option" and s t :: "'a sys" and cfg new s1 t1 s2 t2 x s3 t3
    assume built: "construct_sts lib c g ?role (case found of None \<Rightarrow> zero_sts | Some x \<Rightarrow> x) s1 = (Inr cfg, t1)"
      and par: "rolling_update_parameters lib c ?role (case found of None \<Rightarrow> zero_sts | Some x \<Rightarrow> x)
        (semantically_equal_sts (Some (case found of None \<Rightarrow> zero_sts | Some x \<Rightarrow> x)) (Some new) \<noteq> Inr ()) s3 = (Inr x, t3)"
    obtain part k where x: "x = (part, k)" by (cases x)
    note chosen = arg_cong [where f = fst, OF par, unfolded x fst_conv]
    have "n \<le> k \<and> k \<le> n + min n surge"
      by (rule rolling_update_replicas_range [OF chosen _ assms(2,3) ru assms(6,7)]) (simp add: assms(1))
    then have "?P (CApply (PatchObj (ObjSts (rollout_sts st ru part k cfg))))"
      using construct_sts_result [OF built]
      by (simp add: sts_call_ok_def sts_write_ok_def rollout_sts_def name)
    then show "only_calls ?P (case x of (part, replicas) \<Rightarrow>
       call (of_res (sts_up_to_date
          (semantically_equal_sts (Some (case found of None \<Rightarrow> zero_sts | Some x \<Rightarrow> x)) (Some new) = Inr ())
          part (case found of None \<Rightarrow> zero_sts | Some x \<Rightarrow> x) ?role))
        (\<lambda>skip. if skip then return_ok ()
           else call (of_res (role_rolling_update ?role))
             (\<lambda>ru. patch_object_apply_configuration c
                (Inr (PatchObj (ObjSts (rollout_sts st ru part replicas cfg)))) PatchSpec)))"
      unfolding x prod.case ru call_of_res
      by (intro only_calls_intros) simp_all
  qed (simp_all add: sts_call_ok_def)
qed

section \<open>Properties\<close>

text \<open>C14: What a reconcile of a StatefulSet role can write, whatever the API server answers and
  however the reconcile ends: besides reads and the role's config map it applies only the role's own
  StatefulSet, in the group's namespace, controlled by the group, and with a replica count between
  the role's replicas and the role's replicas plus the surge.\<close>

theorem reconcile_sts_writes:
  assumes "r_replicas r = Some n" and "0 \<le> n" and "n < 1073741824"
    and "validate_rollout_strategy lib (r_rollout_strategy r) n = Inr st"
    and "rs_rolling_update st = Some ru"
    and "lib_scaled lib (ru_max_surge ru) n True = Inr surge" and "0 \<le> surge"
  shows "\<exists>cs. calls (snd (reconcile_sts lib c g r s)) = calls s @ cs \<and>
    (\<forall>q \<in> set cs. is_read q \<or>
       (\<exists>data. build_config lib g = Inr data \<and> q = CApply (PatchObj (ObjConfigMap (role_config_map g r data)))) \<or>
       (\<exists>x. q = CApply (PatchObj (ObjSts x)) \<and> sts_write_ok g r n surge x))"
proof -
  obtain res t where run: "reconcile_sts lib c g r s = (res, t)" by fastforce
  from only_callsD [OF only_calls_reconcile_sts [OF assms] this] obtain cs
    where "calls t = calls s @ cs" and "list_all (sts_call_ok lib g r n surge) cs" .
  then show ?thesis
    unfolding run snd_conv list_all_iff sts_call_ok_def template_call_def by (intro exI [of _ cs]) force
qed

theorem reconcile_sts_writes_witness:
  "\<exists>cs. calls (snd (reconcile_sts sample_lib store_client (sample_rbg [sample_role ''a'' [] 3])
      (sample_role ''a'' [] 3) (run_on []))) = cs \<and>
    (\<forall>x. CApply (PatchObj (ObjSts x)) \<in> set cs \<longrightarrow>
       sts_write_ok (sample_rbg [sample_role ''a'' [] 3]) (sample_role ''a'' [] 3) 3 1 x)"
proof -
  let ?r = "sample_role ''a'' [] 3"
  have "r_replicas ?r = Some 3" and "(0::int) \<le> 3" and "(3::int) < 1073741824" by (simp_all add: sample_role_def)
  moreover have "validate_rollout_strategy sample_lib (r_rollout_strategy ?r) 3
      = Inr \<lparr>rs_type = RollingUpdateStrategyType, rs_rolling_update =
        Some \<lparr>ru_max_unavailable = IntVal 1, ru_max_surge = IntVal 1\<rparr>\<rparr>" by code_simp
  ultimately show ?thesis
    using reconcile_sts_writes [of ?r 3 sample_lib _ "\<lparr>ru_max_unavailable = IntVal 1, ru_max_surge = IntVal 1\<rparr>" 1
        store_client "sample_rbg [?r]" "run_on []"]
    by (fastforce simp: sample_lib_def run_on_def is_read_def)
qed

text \<open>C34: A reconcile that has nothing to do writes nothing. When the StatefulSet exists, the one
  constructed from the role is semantically equal to it, its partition is 0 and it has the role's
  replicas, the reconcile succeeds, and these are all its requests: it reads the StatefulSet, reads the
  role's config map, and reads on. It applies the config map when the one it read is not current, and
  otherwise makes no other request than reads.\<close>

theorem reconcile_sts_idle:
  assumes "r_replicas r = Some n"
    and "validate_rollout_strategy lib (r_rollout_strategy r) n = Inr st"
    and "rs_rolling_update st = Some ru" and "lib_scaled lib (ru_max_surge ru) n True = Inr surge"
    and "get_if_exists c KSts as_sts (workload_key g r) s = (Inr (Some old), s1)"
    and "construct_sts lib c g (r\<lparr>r_rollout_strategy := Some st\<rparr>) old s1 = (Inr cfg, s2)"
    and "lib_convert lib (ObjSts cfg) = Inr (ObjSts new)"
    and "semantically_equal_sts (Some old) (Some new) = Inr ()"
    and "sts_partition old = Inr 0" and "ss_replicas old = Some n"
  shows "reconcile_sts lib c g r s = (Inr (), s2) \<and>
    (\<exists>data cm found cs. build_config lib g = Inr data \<and>
       lib_convert lib (ObjConfigMap (role_config_map g r data)) = Inr (ObjConfigMap cm) \<and>
       calls s2 = calls s @ CGet KSts (workload_key g r) (Inr (ObjSts old)) #
         CGet KConfigMap (workload_key g r) (read_answer found) #
         (if config_current lib found cm then []
          else [CApply (PatchObj (ObjConfigMap (role_config_map g r data)))]) @ cs \<and>
       list_all is_read cs)"
proof -
  let ?role = "r\<lparr>r_rollout_strategy := Some st\<rparr>"
  have key: "workload_key g ?role = workload_key g r"
    by (simp add: workload_key_def get_workload_name_def)
  have ru: "role_rolling_update ?role = Inr ru" using assms(3) by (simp add: role_rolling_update_def)
  have "om_uid (ss_meta old) \<noteq> []" using assms(8) by (rule sts_eq.created)
  then have params: "rolling_update_parameters lib c ?role old False s2 = (Inr (0, n), s2)"
    using assms(1,4,9,10) ru by (simp add: rolling_update_parameters_def Let_def)
  have skip: "sts_up_to_date True 0 old ?role = Inr True"
    using assms(1,9,10) by (simp add: sts_up_to_date_def)
  have go1: "call (get_if_exists c KSts as_sts (workload_key g r)) f s = f (Some old) s1"
    for f :: "statefulset option \<Rightarrow> ('a, unit) act" by (rule call_Inr) (rule assms(5))
  have go2: "call (construct_sts lib c g ?role old) f s1 = f cfg s2"
    for f :: "statefulset \<Rightarrow> ('a, unit) act" by (rule call_Inr) (rule assms(6))
  have go3: "call (rolling_update_parameters lib c ?role old False) f s2 = f (0, n) s2"
    for f :: "int \<times> int \<Rightarrow> ('a, unit) act" by (rule call_Inr) (rule params)
  have run: "reconcile_sts lib c g r s = (Inr (), s2)"
    by (simp add: reconcile_sts_def assms(1,2) Let_def key go1 go2 convert_to_def assms(7) as_sts_def
        assms(8) go3 skip)
  have read: "calls s1 = calls s @ [CGet KSts (workload_key g r) (Inr (ObjSts old))]"
    using assms(5) by (rule get_if_exists_cases) (auto simp: as_sts_def split: obj.splits)
  from construct_sts_trace [OF assms(6)] obtain data cm found cs where
    "build_config lib g = Inr data"
    "lib_convert lib (ObjConfigMap (role_config_map g r data)) = Inr (ObjConfigMap cm)"
    "calls s2 = calls s1 @ CGet KConfigMap (workload_key g r) (read_answer found) #
      (if config_current lib found cm then [] else [CApply (PatchObj (ObjConfigMap (role_config_map g r data)))]) @ cs"
    "list_all is_read cs" by (metis role_config_strategy role_call_strategy(2))
  then show ?thesis
    by (intro conjI [OF run] exI [of _ data] exI [of _ cm] exI [of _ found] exI [of _ cs]) (simp add: read)
qed

text \<open>A StatefulSet as a first reconcile creates it.\<close>

definition sample_live_sts :: statefulset where
  "sample_live_sts =
     (case fst (construct_sts sample_lib store_client (sample_rbg [sample_role ''a'' [] 3]) (sample_role ''a'' [] 3)
         zero_sts (run_on [])) of
        Inl e \<Rightarrow> zero_sts
      | Inr x \<Rightarrow> x\<lparr>ss_meta := (ss_meta x)\<lparr>om_uid := ''uid-s''\<rparr>,
          ss_update_strategy := \<lparr>us_type = RollingUpdateStrategyType, us_rolling_update =
            Some \<lparr>su_partition = Some 0, su_max_unavailable = Some (IntVal 1)\<rparr>\<rparr>\<rparr>)"

definition sample_live_config :: config_map where
  "sample_live_config =
     (case build_config sample_lib (sample_rbg [sample_role ''a'' [] 3]) of Inl e \<Rightarrow> zero_config_map
      | Inr data \<Rightarrow> role_config_map (sample_rbg [sample_role ''a'' [] 3]) (sample_role ''a'' [] 3) data)"

theorem reconcile_sts_idle_witness:
  "fst (reconcile_sts sample_lib store_client (sample_rbg [sample_role ''a'' [] 3]) (sample_role ''a'' [] 3)
     (run_on [ObjSts sample_live_sts, ObjConfigMap sample_live_config])) = Inr () \<and>
   list_all is_read (calls (snd (reconcile_sts sample_lib store_client (sample_rbg [sample_role ''a'' [] 3])
     (sample_role ''a'' [] 3) (run_on [ObjSts sample_live_sts, ObjConfigMap sample_live_config]))))"
proof -
  let ?r = "sample_role ''a'' [] 3" and ?w = "run_on [ObjSts sample_live_sts, ObjConfigMap sample_live_config]"
  let ?g = "sample_rbg [?r]"
  let ?st = "\<lparr>rs_type = RollingUpdateStrategyType, rs_rolling_update =
        Some \<lparr>ru_max_unavailable = IntVal 1, ru_max_surge = IntVal 1\<rparr>\<rparr>"
  have n: "r_replicas ?r = Some 3" by (simp add: sample_role_def)
  have v: "validate_rollout_strategy sample_lib (r_rollout_strategy ?r) 3 = Inr ?st" by code_simp
  have "fst (get_if_exists store_client KSts as_sts (workload_key ?g ?r) ?w) = Inr (Some sample_live_sts)"
    by code_simp
  then obtain s1 where s1: "get_if_exists store_client KSts as_sts (workload_key ?g ?r) ?w
      = (Inr (Some sample_live_sts), s1)" by (metis prod.collapse)
  have "case construct_sts sample_lib store_client ?g (?r\<lparr>r_rollout_strategy := Some ?st\<rparr>) sample_live_sts
        (snd (get_if_exists store_client KSts as_sts (workload_key ?g ?r) ?w)) of
      (Inr cfg, _) \<Rightarrow> semantically_equal_sts (Some sample_live_sts) (Some cfg) = Inr () | _ \<Rightarrow> False"
    by code_simp
  then obtain cfg s2 where cfg: "construct_sts sample_lib store_client ?g (?r\<lparr>r_rollout_strategy := Some ?st\<rparr>)
      sample_live_sts s1 = (Inr cfg, s2)" and eq: "semantically_equal_sts (Some sample_live_sts) (Some cfg) = Inr ()"
    unfolding s1 snd_conv by (auto split: prod.splits sum.splits)
  have part: "sts_partition sample_live_sts = Inr 0" and reps: "ss_replicas sample_live_sts = Some 3"
    by code_simp+
  have conv: "lib_convert sample_lib (ObjSts cfg) = Inr (ObjSts cfg)" by (simp add: sample_lib_def)
  have surge: "lib_scaled sample_lib (IntVal 1) 3 True = Inr 1" by (simp add: sample_lib_def)
  have two: "length (calls (snd (reconcile_sts sample_lib store_client ?g ?r ?w))) = 2" by code_simp
  have ru: "rs_rolling_update ?st = Some \<lparr>ru_max_unavailable = IntVal 1, ru_max_surge = IntVal 1\<rparr>" by simp
  from surge have surge: "lib_scaled sample_lib
      (ru_max_surge \<lparr>ru_max_unavailable = IntVal 1, ru_max_surge = IntVal 1\<rparr>) 3 True = Inr 1" by simp
  from reconcile_sts_idle [OF n v ru surge s1 cfg conv eq part reps] two show ?thesis
    by (auto simp: run_on_def split: if_splits)
qed

text \<open>\<open>RecreateWorkload\<close> reports success only in two ways: the StatefulSet did not exist, or it
  was deleted and then, after at most \<open>attempts\<close> reads that did not find it, a read found one.\<close>

theorem sts_recreate_success:
  assumes "fst (sts_recreate c attempts g r s) = Inr ()"
  shows "calls (snd (sts_recreate c attempts g r s)) = calls s @ [CGet KSts (workload_key g r) (Inl NotFound)] \<or>
    (\<exists>x m ob. m \<le> attempts \<and> calls (snd (sts_recreate c attempts g r s)) = calls s @
       [CGet KSts (workload_key g r) (Inr (ObjSts x)), CDelete (ObjSts x)] @
       replicate m (CGet KSts (workload_key g r) (Inl NotFound)) @ [CGet KSts (workload_key g r) (Inr ob)])"
proof -
  obtain t where run: "sts_recreate c attempts g r s = (Inr (), t)" using assms by (metis prod.collapse)
  show ?thesis using sts_recreate_trace [OF run] unfolding run snd_conv .
qed

text \<open>A cluster in which a delete succeeds while the object is still there (a finalizer, or a
  cache that lags behind).\<close>

definition lingering_client :: "cluster client" where
  "lingering_client = store_client\<lparr>cl_delete := (\<lambda>ob w. (Inr (), w))\<rparr>"

theorem sts_recreate_success_witness:
  "\<exists>x m ob. m \<le> 5 \<and> calls (snd (sts_recreate lingering_client 5 (sample_rbg [sample_role ''a'' [] 3])
      (sample_role ''a'' [] 3) (run_on [ObjSts (sample_sts 3 0 3)]))) =
    [CGet KSts (''ns'', ''g-a'') (Inr (ObjSts x)), CDelete (ObjSts x)] @
       replicate m (CGet KSts (''ns'', ''g-a'') (Inl NotFound)) @ [CGet KSts (''ns'', ''g-a'') (Inr ob)]"
proof -
  let ?run = "sts_recreate lingering_client 5 (sample_rbg [sample_role ''a'' [] 3])
      (sample_role ''a'' [] 3) (run_on [ObjSts (sample_sts 3 0 3)])"
  have "fst ?run = Inr ()" and "length (calls (snd ?run)) = 3"
    and "workload_key (sample_rbg [sample_role ''a'' [] 3]) (sample_role ''a'' [] 3) = (''ns'', ''g-a'')"
    by code_simp+
  moreover have "calls (run_on [ObjSts (sample_sts 3 0 3)]) = []" by (simp add: run_on_def)
  ultimately show ?thesis
    using sts_recreate_success [of lingering_client 5 "sample_rbg [sample_role ''a'' [] 3]"
        "sample_role ''a'' [] 3" "run_on [ObjSts (sample_sts 3 0 3)]"] by auto
qed

text \<open>In that cluster the wait ends at once with the object that is being deleted: the code does
  not compare the UID.\<close>

lemma sts_recreate_sees_old_object:
  "fst (sts_recreate lingering_client 5 (sample_rbg [sample_role ''a'' [] 3]) (sample_role ''a'' [] 3)
     (run_on [ObjSts (sample_sts 3 0 3)])) = Inr ()"
  by code_simp

text \<open>The replica count of a role survives the annotation: the size annotation that a reconcile puts
  on the StatefulSet reads back as the role's replicas, so that a later reconcile sees a scaling
  exactly when the replicas of the role changed.\<close>

theorem role_size_roundtrip:
  assumes "fst (construct_sts lib c g r old s) = Inr x" and "r_replicas r = Some n" and "in_i32 n"
  shows "parse_role_size x = Inr n"
proof -
  obtain t where "construct_sts lib c g r old s = (Inr x, t)" using assms(1) by (metis prod.collapse)
  with assms(2) have "om_annotations (ss_meta x) = Some [(RoleSizeAnnotationKey, show_int n)]"
    by (auto simp: construct_sts_def call_eq_Inr_iff get_common_annotations_def with_entries_def)
  with assms(3) show ?thesis by (simp add: parse_role_size_def atoi_show_i32)
qed

theorem role_size_roundtrip_witness:
  "\<exists>x. fst (construct_sts sample_lib store_client (sample_rbg [sample_role ''a'' [] 3]) (sample_role ''a'' [] 3)
     zero_sts (run_on [])) = Inr x \<and> parse_role_size x = Inr 3"
proof -
  let ?run = "fst (construct_sts sample_lib store_client (sample_rbg [sample_role ''a'' [] 3]) (sample_role ''a'' [] 3)
     zero_sts (run_on []))"
  have "\<not> isl ?run" by code_simp
  then obtain x where x: "?run = Inr x" by (cases ?run) auto
  have "r_replicas (sample_role ''a'' [] 3) = Some 3" and "in_i32 3" by (simp_all add: sample_role_def in_i32_def)
  with role_size_roundtrip [OF x] x show ?thesis by blast
qed

end
