(* ===== verification/Deploy_Reconciler.thy ===== *)
theory Deploy_Reconciler
  imports Workload_Interface Equality
begin

text \<open>
  The Deployment reconciler (\<open>deploy_reconciler.go\<close>). A Deployment rolls out by itself, so the
  reconciler only compares and patches.
\<close>

section \<open>Objects\<close>

definition as_deployment :: "obj \<Rightarrow> deployment option" where
  "as_deployment ob = (case ob of ObjDeploy x \<Rightarrow> Some x | _ \<Rightarrow> None)"

definition zero_deployment :: deployment where
  "zero_deployment = \<lparr>dp_meta = empty_meta, dp_replicas = None, dp_selector = None,
     dp_template = \<lparr>pt_meta = empty_meta, pt_spec = \<lparr>ps_init_containers = [], ps_containers = [],
       ps_volumes = [], ps_other = []\<rparr>\<rparr>,
     dp_strategy = \<lparr>ds_type = [], ds_rolling_update = None\<rparr>, dp_ready_replicas = 0\<rparr>"

definition deployment_strategy_for :: "role_spec \<Rightarrow> deployment_strategy" where
  "deployment_strategy_for r =
     (case r_rollout_strategy r of None \<Rightarrow> \<lparr>ds_type = [], ds_rolling_update = None\<rparr>
      | Some st \<Rightarrow>
          (case rs_rolling_update st of None \<Rightarrow> \<lparr>ds_type = [], ds_rolling_update = None\<rparr>
           | Some ru \<Rightarrow> \<lparr>ds_type = rs_type st, ds_rolling_update = Some ru\<rparr>))"

definition construct_deployment ::
  "klib \<Rightarrow> 'w client \<Rightarrow> rbg \<Rightarrow> role_spec \<Rightarrow> deployment \<Rightarrow> ('w, deployment) act" where
  "construct_deployment lib c g r old =
     call (of_res (if om_uid (dp_meta old) \<noteq> [] then
                     (case deref (dp_selector old) of Inl e \<Rightarrow> Inl e | Inr l \<Rightarrow> Inr (ls_match_labels l))
                   else Inr (Some (get_common_labels g r)))) (\<lambda>match_labels.
     call (construct_pod_template lib c None g r match_labels None) (\<lambda>tmpl.
     call (of_res (deref (r_replicas r))) (\<lambda>n.
     call (of_res (get_common_annotations g r)) (\<lambda>annotations.
     return_ok \<lparr>dp_meta = empty_meta\<lparr>om_name := get_workload_name g r, om_namespace := g_namespace g,
         om_labels := with_entries match_labels None,
         om_annotations := with_entries (Some annotations) None,
         om_owners := [rbg_controller_ref g]\<rparr>,
       dp_replicas = Some n,
       dp_selector = Some \<lparr>ls_match_labels = with_entries match_labels None, ls_other = []\<rparr>,
       dp_template = tmpl, dp_strategy = deployment_strategy_for r, dp_ready_replicas = 0\<rparr>))))"

section \<open>Operations\<close>

definition reconcile_deployment :: "klib \<Rightarrow> 'w client \<Rightarrow> rbg \<Rightarrow> role_spec \<Rightarrow> ('w, unit) act" where
  "reconcile_deployment lib c g r =
     call (get_if_exists c KDeploy as_deployment (workload_key g r)) (\<lambda>found.
     let old = (case found of None \<Rightarrow> zero_deployment | Some x \<Rightarrow> x) in
     call (construct_deployment lib c g r old) (\<lambda>cfg.
     call (convert_to lib as_deployment (ObjDeploy cfg)) (\<lambda>new.
     if semantically_equal_deployment (Some old) (Some new) = Inr () then return_ok ()
     else patch_object_apply_configuration c (Inr (PatchObj (ObjDeploy cfg))) PatchSpec)))"

definition deployment_role_status :: "'w client \<Rightarrow> rbg \<Rightarrow> role_spec \<Rightarrow> ('w, role_status \<times> bool) act" where
  "deployment_role_status c g r =
     call (do_get c KDeploy as_deployment (workload_key g r)) (\<lambda>d.
     call (of_res (deref (dp_replicas d))) (\<lambda>n.
     return_ok (role_status_of g r n (dp_ready_replicas d))))"

definition deployment_ready :: "'w client \<Rightarrow> rbg \<Rightarrow> role_spec \<Rightarrow> ('w, bool) act" where
  "deployment_ready c g r =
     call (do_get c KDeploy as_deployment (workload_key g r)) (\<lambda>d.
     call (of_res (deref (dp_replicas d))) (\<lambda>n.
     return_ok (dp_ready_replicas d = n)))"

definition deployment_cleanup :: "klib \<Rightarrow> 'w client \<Rightarrow> rbg \<Rightarrow> ('w, unit) act" where
  "deployment_cleanup lib c g =
     call (do_list c KDeploy as_deployment (g_namespace g) (owner_selector g)) (\<lambda>xs.
     delete_orphans lib c g ''Deployment'' dp_meta ObjDeploy xs)"

text \<open>Here a missing workload is seen by its empty UID.\<close>

definition deployment_recreate :: "'w client \<Rightarrow> nat \<Rightarrow> rbg \<Rightarrow> role_spec \<Rightarrow> ('w, unit) act" where
  "deployment_recreate c attempts g r =
     call (get_if_exists c KDeploy as_deployment (workload_key g r)) (\<lambda>found.
     case found of
       None \<Rightarrow> return_ok ()
     | Some d \<Rightarrow>
         if om_uid (dp_meta d) = [] then return_ok ()
         else call (delete_if_exists c (ObjDeploy d)) (\<lambda>_.
              wait_created c KDeploy as_deployment (workload_key g r) attempts))"

definition deployment_ops :: "klib \<Rightarrow> 'w client \<Rightarrow> nat \<Rightarrow> 'w workload_ops" where
  "deployment_ops lib c attempts = \<lparr>wo_reconcile = reconcile_deployment lib c,
     wo_role_status = deployment_role_status c, wo_ready = deployment_ready c,
     wo_cleanup = deployment_cleanup lib c, wo_recreate = deployment_recreate c attempts\<rparr>"

section \<open>The contract\<close>

lemma deployment_recreate_calls:
  "only_calls (recreate_call (workload_key g r) (\<lambda>q. \<exists>x. q = CDelete (ObjDeploy x))) (deployment_recreate c attempts g r)"
  unfolding deployment_recreate_def
  by (intro only_calls_call only_calls_get_if_exists)
    (auto simp: recreate_call_def split: option.splits
      intro!: only_calls_call only_calls_delete_if_exists only_calls_wait_created)

lemma deployment_recreate_done:
  assumes "deployment_recreate c attempts g r s = (Inr (), t)"
  shows "\<exists>cs. calls t = calls s @ cs \<and> recreated (workload_key g r) cs"
proof -
  from assms obtain found u where get: "get_if_exists c KDeploy as_deployment (workload_key g r) s = (Inr found, u)"
    by (auto simp: deployment_recreate_def call_eq_Inr_iff)
  from get show ?thesis
  proof (cases rule: get_if_exists_cases)
    case 1
    with assms get show ?thesis by (auto simp: deployment_recreate_def call_eq_Inr_iff intro: recreated_single)
  next
    case (2 x ob)
    show ?thesis
    proof (cases "om_uid (dp_meta x) = []")
      case True
      with assms get 2 show ?thesis by (auto simp: deployment_recreate_def call_eq_Inr_iff intro: recreated_single)
    next
      case False
      with assms get 2(1) obtain v where "delete_if_exists c (ObjDeploy x) u = (Inr (), v)"
        and "wait_created c KDeploy as_deployment (workload_key g r) attempts v = (Inr (), t)"
        by (auto simp: deployment_recreate_def call_eq_Inr_iff)
      then show ?thesis using 2(3) by (rule delete_wait_recreated)
    qed
  qed
qed

lemma construct_deployment_result:
  assumes "construct_deployment lib c g r old s = (Inr x, t)"
  shows "om_name (dp_meta x) = get_workload_name g r \<and> om_namespace (dp_meta x) = g_namespace g \<and>
    om_owners (dp_meta x) = [rbg_controller_ref g] \<and> dp_replicas x = r_replicas r"
  using assms by (auto simp: construct_deployment_def call_eq_Inr_iff)

lemma only_calls_construct_deployment: "only_calls (role_call g r) (construct_deployment lib c g r old)"
  unfolding construct_deployment_def by (intro only_calls_intros role_calls_template)

lemma reconcile_deployment_calls: "only_calls (role_call g r) (reconcile_deployment lib c g r)"
  unfolding reconcile_deployment_def Let_def
  by (intro only_calls_callI [OF only_calls_get_if_exists] only_calls_callI [OF only_calls_construct_deployment]
      only_calls_callI [OF only_calls_convert] only_calls_if only_calls_return only_calls_patch)
    (auto dest!: construct_deployment_result simp: obj_key_def workload_key_def role_call_apply)

interpretation deployment: workload_reconciler "deployment_ops lib c attempts" "''Deployment''" dp_meta ObjDeploy lib
  for lib c attempts
proof unfold_locales
  fix g r s st upd t
  show "only_calls (role_call g r) (wo_reconcile (deployment_ops lib c attempts) g r)"
    by (simp add: deployment_ops_def reconcile_deployment_calls)
  show "wo_ready (deployment_ops lib c attempts) g r s = (Inr True, t) \<Longrightarrow>
      \<exists>q. calls t = calls s @ [q] \<and> read_ready g r q"
    and "wo_ready (deployment_ops lib c attempts) g r s = (Inr False, t) \<Longrightarrow>
      \<exists>q. calls t = calls s @ [q] \<and> read_waiting g r q"
    by (auto simp: deployment_ops_def deployment_ready_def call_eq_Inr_iff as_deployment_def read_ready_def read_waiting_def
        split: obj.splits elim!: do_get_found)
  show "only_calls is_read (wo_ready (deployment_ops lib c attempts) g r)"
    unfolding deployment_ops_def deployment_ready_def by (simp, intro only_calls_intros, simp)
  show "only_calls is_read (wo_role_status (deployment_ops lib c attempts) g r)"
    unfolding deployment_ops_def deployment_role_status_def by (simp, intro only_calls_intros, simp)
  show "wo_role_status (deployment_ops lib c attempts) g r s = (Inr (st, upd), t) \<Longrightarrow>
      \<exists>q. calls t = calls s @ [q] \<and> read_found g r q"
    by (auto simp: deployment_ops_def deployment_role_status_def call_eq_Inr_iff read_found_def elim!: do_get_found)
  show "wo_role_status (deployment_ops lib c attempts) g r s = (Inr (st, upd), t) \<Longrightarrow> st_name st = r_name r"
    and "wo_role_status (deployment_ops lib c attempts) g r s = (Inr (st, False), t) \<Longrightarrow>
      st \<in> set (gs_role_statuses (g_status g))"
    unfolding deployment_ops_def deployment_role_status_def
    by (auto simp: call_eq_Inr_iff dest: role_status_of_run)
  show "only_calls (\<lambda>q. is_read q \<or> (\<exists>x. q = CDelete (ObjDeploy x)
        \<and> lib_is_controlled_by lib (dp_meta x) (g_meta g)
        \<and> \<not> has_role_for g ''Deployment'' (om_name (dp_meta x)))) (wo_cleanup (deployment_ops lib c attempts) g)"
    unfolding deployment_ops_def deployment_cleanup_def
    by (simp, intro only_calls_call only_calls_client only_calls_mono [OF only_calls_delete_orphans]) auto
  show "only_calls (recreate_call (workload_key g r) (\<lambda>q. \<exists>x. q = CDelete (ObjDeploy x)))
      (wo_recreate (deployment_ops lib c attempts) g r)"
    by (simp add: deployment_ops_def deployment_recreate_calls)
  show "wo_recreate (deployment_ops lib c attempts) g r s = (Inr (), t) \<Longrightarrow>
      \<exists>cs. calls t = calls s @ cs \<and> recreated (workload_key g r) cs"
    by (simp add: deployment_ops_def deployment_recreate_done)
qed

end
