(* ===== verification/Lws_Reconciler.thy ===== *)
theory Lws_Reconciler
  imports Workload_Interface Equality
begin

text \<open>
  The LeaderWorkerSet reconciler (\<open>lws_reconciler.go\<close>): a leader template with sidecars, a worker
  template without, and the LeaderWorkerSet controller does the rest.

  Without a leader patch the leader template is built in place, on the containers of \<open>role.Template\<close>
  (\<open>construct_pod_template_on\<close>). The worker template, patched or not, starts from what that leaves in
  the role.
\<close>

section \<open>Objects\<close>

definition as_lws :: "obj \<Rightarrow> leader_worker_set option" where
  "as_lws ob = (case ob of ObjLws x \<Rightarrow> Some x | _ \<Rightarrow> None)"

definition zero_lws :: leader_worker_set where
  "zero_lws = \<lparr>lw_meta = empty_meta, lw_replicas = None, lw_leader_template = None,
     lw_worker_template = \<lparr>pt_meta = empty_meta, pt_spec = \<lparr>ps_init_containers = [], ps_containers = [],
       ps_volumes = [], ps_other = []\<rparr>\<rparr>,
     lw_size = None, lw_restart_policy = [], lw_rolling_update = None,
     lw_status_replicas = 0, lw_ready_replicas = 0\<rparr>"

definition patch_pod_template :: "klib \<Rightarrow> pod_template \<Rightarrow> string option \<Rightarrow> pod_template res" where
  "patch_pod_template lib t patch =
     (case patch of None \<Rightarrow> Inr t | Some p \<Rightarrow> lib_merge_patch lib t p)"

definition lws_restart_policy_for :: "role_spec \<Rightarrow> string" where
  "lws_restart_policy_for r =
     (if r_restart_policy r = NoneRestartPolicy then ''None'' else ''RecreateGroupOnPodRestart'')"

definition lws_rolling_update_for :: "role_spec \<Rightarrow> rolling_update option" where
  "lws_rolling_update_for r =
     (case r_rollout_strategy r of None \<Rightarrow> None | Some st \<Rightarrow> rs_rolling_update st)"

definition with_containers :: "container list \<Rightarrow> pod_template \<Rightarrow> pod_template" where
  "with_containers cs = on_spec (\<lambda>ps. ps\<lparr>ps_containers := cs\<rparr>)"

definition construct_lws :: "klib \<Rightarrow> 'w client \<Rightarrow> rbg \<Rightarrow> role_spec \<Rightarrow> ('w, leader_worker_set) act" where
  "construct_lws lib c g r =
     call (of_res (patch_pod_template lib (r_template r) (lt_patch_leader (r_leader_worker_set r)))) (\<lambda>leader_tmpl.
     call (construct_pod_template_on lib c None g r (Some (get_common_labels g r)) leader_tmpl) (\<lambda>(leader, left).
     let template = (if lt_patch_leader (r_leader_worker_set r) = None
       then with_containers left (r_template r) else r_template r) in
     call (of_res (patch_pod_template lib template (lt_patch_worker (r_leader_worker_set r)))) (\<lambda>worker_tmpl.
     call (construct_pod_template lib c (Some [''config'', ''env'']) g r
        (Some (get_common_labels g r)) (Some worker_tmpl)) (\<lambda>worker.
     let role = (if r_replicas r = None then r\<lparr>r_replicas := Some 1\<rparr> else r) in
     call (of_res (deref (r_replicas role))) (\<lambda>n.
     call (of_res (deref (lt_size (r_leader_worker_set role)))) (\<lambda>sz.
     call (of_res (get_common_annotations g role)) (\<lambda>annotations.
     return_ok \<lparr>lw_meta = empty_meta\<lparr>om_name := get_workload_name g r, om_namespace := g_namespace g,
         om_labels := Some (get_common_labels g role),
         om_annotations := with_entries (Some annotations) None,
         om_owners := [rbg_controller_ref g]\<rparr>,
       lw_replicas = Some n, lw_leader_template = Some leader, lw_worker_template = worker,
       lw_size = Some sz, lw_restart_policy = lws_restart_policy_for role,
       lw_rolling_update = lws_rolling_update_for role,
       lw_status_replicas = 0, lw_ready_replicas = 0\<rparr>)))))))"

section \<open>Operations\<close>

definition reconcile_lws :: "klib \<Rightarrow> 'w client \<Rightarrow> rbg \<Rightarrow> role_spec \<Rightarrow> ('w, unit) act" where
  "reconcile_lws lib c g r =
     call (construct_lws lib c g r) (\<lambda>cfg.
     call (convert_to lib as_lws (ObjLws cfg)) (\<lambda>new.
     call (get_if_exists c KLws as_lws (workload_key g r)) (\<lambda>found.
     let old = (case found of None \<Rightarrow> zero_lws | Some x \<Rightarrow> x) in
     case semantically_equal_lws (Some old) (Some new) of
       Inr _ \<Rightarrow> return_ok ()
     | Inl e \<Rightarrow>
         if is_panic e then return_err e
         else patch_object_apply_configuration c (Inr (PatchObj (ObjLws cfg))) PatchSpec)))"

definition lws_role_status :: "'w client \<Rightarrow> rbg \<Rightarrow> role_spec \<Rightarrow> ('w, role_status \<times> bool) act" where
  "lws_role_status c g r =
     call (do_get c KLws as_lws (workload_key g r)) (\<lambda>l.
     return_ok (role_status_of g r (lw_status_replicas l) (lw_ready_replicas l)))"

definition lws_ready :: "'w client \<Rightarrow> rbg \<Rightarrow> role_spec \<Rightarrow> ('w, bool) act" where
  "lws_ready c g r =
     call (do_get c KLws as_lws (workload_key g r)) (\<lambda>l.
     return_ok (lw_ready_replicas l = lw_status_replicas l))"

definition lws_cleanup :: "klib \<Rightarrow> 'w client \<Rightarrow> rbg \<Rightarrow> ('w, unit) act" where
  "lws_cleanup lib c g =
     handle (check_crd_exists c LwsCrdName) (\<lambda>q. case q of
       Inl e \<Rightarrow> return_ok ()
     | Inr _ \<Rightarrow>
         call (do_list c KLws as_lws (g_namespace g) (owner_selector g)) (\<lambda>xs.
         delete_orphans lib c g ''LeaderWorkerSet'' lw_meta ObjLws xs))"

definition lws_recreate :: "'w client \<Rightarrow> nat \<Rightarrow> rbg \<Rightarrow> role_spec \<Rightarrow> ('w, unit) act" where
  "lws_recreate c attempts g r =
     call (get_if_exists c KLws as_lws (workload_key g r)) (\<lambda>found.
     case found of
       None \<Rightarrow> return_ok ()
     | Some l \<Rightarrow>
         if om_uid (lw_meta l) = [] then return_ok ()
         else call (delete_if_exists c (ObjLws l)) (\<lambda>_.
              wait_created c KLws as_lws (workload_key g r) attempts))"

definition lws_ops :: "klib \<Rightarrow> 'w client \<Rightarrow> nat \<Rightarrow> 'w workload_ops" where
  "lws_ops lib c attempts = \<lparr>wo_reconcile = reconcile_lws lib c, wo_role_status = lws_role_status c,
     wo_ready = lws_ready c, wo_cleanup = lws_cleanup lib c, wo_recreate = lws_recreate c attempts\<rparr>"

section \<open>The contract\<close>

lemma lws_recreate_calls:
  "only_calls (recreate_call (workload_key g r) (\<lambda>q. \<exists>x. q = CDelete (ObjLws x))) (lws_recreate c attempts g r)"
  unfolding lws_recreate_def
  by (intro only_calls_call only_calls_get_if_exists)
    (auto simp: recreate_call_def split: option.splits
      intro!: only_calls_call only_calls_delete_if_exists only_calls_wait_created)

lemma lws_recreate_done:
  assumes "lws_recreate c attempts g r s = (Inr (), t)"
  shows "\<exists>cs. calls t = calls s @ cs \<and> recreated (workload_key g r) cs"
proof -
  from assms obtain found u where get: "get_if_exists c KLws as_lws (workload_key g r) s = (Inr found, u)"
    by (auto simp: lws_recreate_def call_eq_Inr_iff)
  from get show ?thesis
  proof (cases rule: get_if_exists_cases)
    case 1
    with assms get show ?thesis by (auto simp: lws_recreate_def call_eq_Inr_iff intro: recreated_single)
  next
    case (2 x ob)
    show ?thesis
    proof (cases "om_uid (lw_meta x) = []")
      case True
      with assms get 2 show ?thesis by (auto simp: lws_recreate_def call_eq_Inr_iff intro: recreated_single)
    next
      case False
      with assms get 2(1) obtain v where "delete_if_exists c (ObjLws x) u = (Inr (), v)"
        and "wait_created c KLws as_lws (workload_key g r) attempts v = (Inr (), t)"
        by (auto simp: lws_recreate_def call_eq_Inr_iff)
      then show ?thesis using 2(3) by (rule delete_wait_recreated)
    qed
  qed
qed

lemma lws_cleanup_calls:
  "only_calls (\<lambda>q. is_read q \<or> (\<exists>x. q = CDelete (ObjLws x)
        \<and> lib_is_controlled_by lib (lw_meta x) (g_meta g)
        \<and> \<not> has_role_for g ''LeaderWorkerSet'' (om_name (lw_meta x)))) (lws_cleanup lib c g)" (is "only_calls ?P _")
proof -
  have list: "only_calls ?P (call (do_list c KLws as_lws (g_namespace g) (owner_selector g)) (\<lambda>xs.
         delete_orphans lib c g ''LeaderWorkerSet'' lw_meta ObjLws xs))"
    by (intro only_calls_call only_calls_client only_calls_mono [OF only_calls_delete_orphans]) auto
  have crd: "only_calls ?P (check_crd_exists c LwsCrdName)"
    unfolding check_crd_exists_def by (intro only_calls_intros) simp
  show ?thesis
    unfolding lws_cleanup_def
  proof (rule only_calls_handle [OF crd])
    fix q :: "unit res"
    show "only_calls ?P (case q of Inl e \<Rightarrow> return_ok () | Inr _ \<Rightarrow>
         call (do_list c KLws as_lws (g_namespace g) (owner_selector g)) (\<lambda>xs.
         delete_orphans lib c g ''LeaderWorkerSet'' lw_meta ObjLws xs))"
      using list by (cases q) simp_all
  qed
qed

lemma construct_lws_result:
  assumes "construct_lws lib c g r s = (Inr x, t)"
  shows "om_name (lw_meta x) = get_workload_name g r \<and> om_namespace (lw_meta x) = g_namespace g \<and>
    om_owners (lw_meta x) = [rbg_controller_ref g]"
  using assms by (auto simp: construct_lws_def call_eq_Inr_iff Let_def split: prod.splits)

lemma only_calls_construct_lws: "only_calls (role_call g r) (construct_lws lib c g r)"
  unfolding construct_lws_def Let_def case_prod_beta
  by (intro only_calls_intros role_calls_template)

lemma reconcile_lws_calls: "only_calls (role_call g r) (reconcile_lws lib c g r)"
  unfolding reconcile_lws_def Let_def
  by (intro only_calls_callI [OF only_calls_get_if_exists] only_calls_callI [OF only_calls_construct_lws]
      only_calls_callI [OF only_calls_convert])
    (auto dest!: construct_lws_result simp: obj_key_def workload_key_def role_call_apply
      split: sum.splits intro!: only_calls_if only_calls_patch)

interpretation lws: workload_reconciler "lws_ops lib c attempts" "''LeaderWorkerSet''" lw_meta ObjLws lib
  for lib c attempts
proof unfold_locales
  fix g r s st upd t
  show "only_calls (role_call g r) (wo_reconcile (lws_ops lib c attempts) g r)"
    by (simp add: lws_ops_def reconcile_lws_calls)
  show "wo_ready (lws_ops lib c attempts) g r s = (Inr True, t) \<Longrightarrow>
      \<exists>q. calls t = calls s @ [q] \<and> read_ready g r q"
    and "wo_ready (lws_ops lib c attempts) g r s = (Inr False, t) \<Longrightarrow>
      \<exists>q. calls t = calls s @ [q] \<and> read_waiting g r q"
    by (auto simp: lws_ops_def lws_ready_def call_eq_Inr_iff as_lws_def read_ready_def read_waiting_def
        split: obj.splits elim!: do_get_found)
  show "only_calls is_read (wo_ready (lws_ops lib c attempts) g r)"
    unfolding lws_ops_def lws_ready_def by (simp, intro only_calls_intros, simp)
  show "only_calls is_read (wo_role_status (lws_ops lib c attempts) g r)"
    unfolding lws_ops_def lws_role_status_def by (simp, intro only_calls_intros, simp)
  show "wo_role_status (lws_ops lib c attempts) g r s = (Inr (st, upd), t) \<Longrightarrow>
      \<exists>q. calls t = calls s @ [q] \<and> read_found g r q"
    by (auto simp: lws_ops_def lws_role_status_def call_eq_Inr_iff read_found_def elim!: do_get_found)
  show "wo_role_status (lws_ops lib c attempts) g r s = (Inr (st, upd), t) \<Longrightarrow> st_name st = r_name r"
    and "wo_role_status (lws_ops lib c attempts) g r s = (Inr (st, False), t) \<Longrightarrow>
      st \<in> set (gs_role_statuses (g_status g))"
    unfolding lws_ops_def lws_role_status_def
    by (auto simp: call_eq_Inr_iff dest: role_status_of_run)
  show "only_calls (\<lambda>q. is_read q \<or> (\<exists>x. q = CDelete (ObjLws x)
        \<and> lib_is_controlled_by lib (lw_meta x) (g_meta g)
        \<and> \<not> has_role_for g ''LeaderWorkerSet'' (om_name (lw_meta x)))) (wo_cleanup (lws_ops lib c attempts) g)"
    by (simp add: lws_ops_def lws_cleanup_calls)
  show "only_calls (recreate_call (workload_key g r) (\<lambda>q. \<exists>x. q = CDelete (ObjLws x)))
      (wo_recreate (lws_ops lib c attempts) g r)"
    by (simp add: lws_ops_def lws_recreate_calls)
  show "wo_recreate (lws_ops lib c attempts) g r s = (Inr (), t) \<Longrightarrow>
      \<exists>cs. calls t = calls s @ cs \<and> recreated (workload_key g r) cs"
    by (simp add: lws_ops_def lws_recreate_done)
qed

section \<open>The containers both templates share\<close>

lemma mount_merge_idem:
  "merge_env envs (mount_config (merge_env envs (mount_config c))) = merge_env envs (mount_config c)"
proof -
  have "mount_config (merge_env envs (mount_config c)) = merge_env envs (mount_config (mount_config c))"
    by (simp add: mount_config_def merge_env_def)
  then show ?thesis by (simp add: mount_config_idem merge_env_idem)
qed

text \<open>Without engine runtimes the worker template does not show that the leader template was built in
  place.\<close>

lemma in_place_invisible:
  assumes "construct_pod_template_on lib c None g r labels t s = (Inr (x, left), s')"
    and "get_role g (r_name r) = Inr cur" and "r_engine_runtimes cur = []"
  shows "inject_env g r (config_template g r (with_containers left t)) = inject_env g r (config_template g r t)"
proof -
  from assms obtain t1 u where "inject_config lib c g r t s = (Inr t1, u)"
    and left: "left = ps_containers (pt_spec (inject_env g r t1))"
    by (auto simp: construct_pod_template_on_def default_injectors_def Let_def call_eq_Inr_iff wrap_err_def
        handle_def return_ok_def return_err_def split: prod.splits sum.splits if_splits)
  then have "t1 = config_template g r t" by (auto elim: inject_config_Inr)
  with left have "left = map (\<lambda>c. merge_env (build_env g r) (mount_config c)) (ps_containers (pt_spec t))"
    by (simp add: inject_env_def config_template_def on_spec_def on_containers_def add_config_volume_def)
  then show ?thesis
    by (simp add: inject_env_def config_template_def with_containers_def on_spec_def on_containers_def
        add_config_volume_def mount_merge_idem comp_def)
qed

text \<open>With an engine runtime it may: the arguments that the runtime adds to a container of the role's own
  template reach the workers too, although no sidecar is injected into their template.\<close>

definition override_role :: role_spec where
  "override_role = (sample_role ''a'' [] 1)\<lparr>
     r_leader_worker_set := \<lparr>lt_size = Some 2, lt_patch_leader = None, lt_patch_worker = None\<rparr>,
     r_engine_runtimes := [\<lparr>er_profile_name = ''p'', er_inject_containers = [],
        er_containers = [(sample_container ''main'')\<lparr>c_args := Some [''leader'']\<rparr>]\<rparr>]\<rparr>"

definition override_profile :: runtime_profile where
  "override_profile = \<lparr>rp_meta = empty_meta\<lparr>om_name := ''p''\<rparr>,
     rp_spec = \<lparr>rp_init_containers = [], rp_containers = [sample_container ''main''], rp_volumes = [], rp_update_strategy = []\<rparr>\<rparr>"

lemma worker_gets_override:
  "case fst (construct_lws sample_lib store_client (sample_rbg [override_role]) override_role
       (run_on [ObjProfile override_profile])) of
     Inl e \<Rightarrow> False
   | Inr x \<Rightarrow> map c_args (ps_containers (pt_spec (lw_worker_template x))) = [Some [''leader'']]"
  by code_simp

text \<open>Both counts that readiness compares are status fields. They are zero until the LeaderWorkerSet
  controller has filled them in, so a workload that was just created is ready, whatever its size.\<close>

lemma lws_ready_before_any_replica:
  assumes "do_get c KLws as_lws (workload_key g r) s = (Inr x, t)"
    and "lw_status_replicas x = 0" and "lw_ready_replicas x = 0"
  shows "lws_ready c g r s = (Inr True, t)"
  using assms by (simp add: lws_ready_def call_def return_ok_def)

end
