(* ===== verification/Dependency.thy ===== *)
theory Dependency
  imports Sample_Cluster
begin

text \<open>
  \<open>pkg/dependency\<close>: the order in which the roles of a group are reconciled. \<open>dependencyOrder\<close> is a
  depth-first search over the dependency map with a set of nodes on the current path (\<open>temp\<close>), a
  set of finished nodes (\<open>completed\<close>) and the order built so far; \<open>SortRoles\<close> checks that every
  dependency names a role of the group and turns the order of names into an order of roles.

  The recursion of \<open>visit\<close> has no bound in the source. The model gives it fuel, one unit per
  nested call, and \<open>visit_fuel\<close> shows that one more unit than there are names is enough: a nested
  call always adds a name to \<open>temp\<close>.
\<close>

section \<open>The search\<close>

record dfs =
  d_temp :: "string set"
  d_completed :: "string set"
  d_order :: "string list"
  d_path :: "string list"

definition dfs_init :: dfs where
  "dfs_init = \<lparr>d_temp = {}, d_completed = {}, d_order = [], d_path = []\<rparr>"

text \<open>\<open>dependencies[role]\<close>, nil for a name that is not a key.\<close>

definition deps_of :: "string list gomap \<Rightarrow> string \<Rightarrow> string list" where
  "deps_of m role = (case gm_get m role of None \<Rightarrow> [] | Some ds \<Rightarrow> ds)"

definition dfs_enter :: "string \<Rightarrow> dfs \<Rightarrow> dfs" where
  "dfs_enter role s = s\<lparr>d_temp := insert role (d_temp s), d_path := d_path s @ [role]\<rparr>"

definition dfs_leave :: "string \<Rightarrow> dfs \<Rightarrow> dfs" where
  "dfs_leave role s = s\<lparr>d_temp := d_temp s - {role}, d_completed := insert role (d_completed s),
     d_order := d_order s @ [role], d_path := butlast (d_path s)\<rparr>"

primrec visit :: "nat \<Rightarrow> string list gomap \<Rightarrow> string \<Rightarrow> dfs \<Rightarrow> dfs res" where
  "visit 0 m role s = Inl OutOfFuel"
| "visit (Suc fuel) m role s =
     (if role \<in> d_temp s then Inl (CycleDetected (d_path s @ [role]))
      else if role \<in> d_completed s then Inr s
      else (case loop (visit fuel m) (deps_of m role) (dfs_enter role s) of
              Inl e \<Rightarrow> Inl e
            | Inr t \<Rightarrow> Inr (dfs_leave role t)))"

definition dep_nodes :: "string list gomap \<Rightarrow> string list" where
  "dep_nodes m = map fst m @ concat (map snd m)"

definition visit_root :: "nat \<Rightarrow> string list gomap \<Rightarrow> string \<Rightarrow> dfs \<Rightarrow> dfs res" where
  "visit_root fuel m role s = (if role \<in> d_completed s then Inr s else visit fuel m role s)"

definition dependency_order :: "string list gomap \<Rightarrow> string list res" where
  "dependency_order m =
     (let keys = sort (map fst m) in
      case loop (visit_root (Suc (length (dep_nodes m))) m) keys dfs_init of
        Inl e \<Rightarrow> Inl e
      | Inr s \<Rightarrow> Inr (d_order s))"

section \<open>Sorting the roles\<close>

definition role_dependency_step ::
  "string list \<Rightarrow> role_spec \<Rightarrow> string list gomap \<Rightarrow> string list gomap res" where
  "role_dependency_step names r m =
     (case find (\<lambda>d. \<not> contains_string names d) (r_dependencies r) of
        Some d \<Rightarrow> Inl (DependencyRoleMissing (r_name r) d)
      | None \<Rightarrow> Inr (gm_set (r_name r) (r_dependencies r) m))"

definition roles_in_order :: "role_spec list \<Rightarrow> string list \<Rightarrow> role_spec list" where
  "roles_in_order roles order = List.map_filter (\<lambda>n. find (\<lambda>r. r_name r = n) roles) order"

definition sort_roles :: "rbg \<Rightarrow> role_spec list res" where
  "sort_roles g =
     (if g_roles g = [] then Inr []
      else case loop (role_dependency_step (map r_name (g_roles g))) (g_roles g) [] of
             Inl e \<Rightarrow> Inl e
           | Inr m \<Rightarrow>
               (case dependency_order m of
                  Inl e \<Rightarrow> Inl (SortRolesFailed e)
                | Inr order \<Rightarrow> Inr (roles_in_order (g_roles g) order)))"

section \<open>Specification\<close>

text \<open>The edges of the graph, and what the order promises: every name comes after all the names
  it depends on.\<close>

definition dep_edges :: "string list gomap \<Rightarrow> (string \<times> string) set" where
  "dep_edges m = {(x, y). y \<in> set (deps_of m x)}"

primrec dep_ordered :: "string list gomap \<Rightarrow> string set \<Rightarrow> string list \<Rightarrow> bool" where
  "dep_ordered m seen [] = True"
| "dep_ordered m seen (x # xs) = (set (deps_of m x) \<subseteq> seen \<and> dep_ordered m (insert x seen) xs)"

lemma dep_ordered_append [simp]:
  "dep_ordered m seen (xs @ ys) \<longleftrightarrow> dep_ordered m seen xs \<and> dep_ordered m (seen \<union> set xs) ys"
  by (induction xs arbitrary: seen) auto

lemma dep_ordered_before:
  "dep_ordered m {} (ys @ x # zs) \<Longrightarrow> d \<in> set (deps_of m x) \<Longrightarrow> d \<in> set ys"
  by auto

lemma dep_ordered_closed:
  assumes "dep_ordered m {} xs" and "(x, y) \<in> (dep_edges m)\<^sup>+" and "x \<in> set xs"
  shows "y \<in> set xs"
  using assms(2,3)
proof (induction rule: trancl.induct)
  case (r_into_trancl x y)
  then obtain ys zs where "xs = ys @ x # zs" by (meson split_list)
  with assms(1) r_into_trancl show ?case by (auto simp: dep_edges_def)
next
  case (trancl_into_trancl a b c)
  then have "b \<in> set xs" by simp
  then obtain ys zs where "xs = ys @ b # zs" by (meson split_list)
  with assms(1) trancl_into_trancl show ?case by (auto simp: dep_edges_def)
qed

lemma dep_ordered_acyclic:
  "dep_ordered m {} xs \<Longrightarrow> distinct xs \<Longrightarrow> x \<in> set xs \<Longrightarrow> (x, x) \<notin> (dep_edges m)\<^sup>+"
proof (induction xs rule: rev_induct)
  case (snoc z ys)
  show ?case
  proof (cases "x = z")
    case True
    show ?thesis
    proof
      assume "(x, x) \<in> (dep_edges m)\<^sup>+"
      then obtain w where w: "(z, w) \<in> dep_edges m" and star: "(w, z) \<in> (dep_edges m)\<^sup>*"
        using True by (meson tranclD)
      from w snoc.prems(1) have "w \<in> set ys" by (auto simp: dep_edges_def)
      moreover have "dep_ordered m {} ys" using snoc.prems(1) by simp
      ultimately have "z \<in> set ys"
        using star by (metis dep_ordered_closed rtranclD)
      with snoc.prems(2) show False by simp
    qed
  next
    case False
    with snoc show ?thesis by simp
  qed
qed simp

section \<open>Correctness of the search\<close>

text \<open>
  The invariant of the search inside a set \<open>N\<close> of names that is closed under dependency: the
  order lists exactly the finished names, once each, dependencies first; the path lists exactly
  the names in progress, and none of those is finished.
\<close>

definition dfs_inv :: "string set \<Rightarrow> string list gomap \<Rightarrow> dfs \<Rightarrow> bool" where
  "dfs_inv N m s \<longleftrightarrow> set (d_order s) = d_completed s \<and> distinct (d_order s) \<and>
     dep_ordered m {} (d_order s) \<and> d_temp s = set (d_path s) \<and>
     d_temp s \<inter> d_completed s = {} \<and> d_completed s \<subseteq> N \<and> d_temp s \<subseteq> N"

definition dep_closed :: "string set \<Rightarrow> string list gomap \<Rightarrow> bool" where
  "dep_closed N m \<longleftrightarrow> (\<forall>x \<in> N. set (deps_of m x) \<subseteq> N)"

definition visit_post :: "string set \<Rightarrow> string list gomap \<Rightarrow> dfs \<Rightarrow> string set \<Rightarrow> dfs \<Rightarrow> bool" where
  "visit_post N m s done t \<longleftrightarrow> dfs_inv N m t \<and> d_temp t = d_temp s \<and> d_path t = d_path s \<and>
     d_completed s \<subseteq> d_completed t \<and> done \<subseteq> d_completed t"

definition visit_ok :: "string set \<Rightarrow> string list gomap \<Rightarrow> (string \<Rightarrow> dfs \<Rightarrow> dfs res) \<Rightarrow> bool" where
  "visit_ok N m f \<longleftrightarrow> (\<forall>r \<in> N. \<forall>s t. dfs_inv N m s \<longrightarrow> f r s = Inr t \<longrightarrow> visit_post N m s {r} t)"

lemma loop_visit_ok:
  assumes "visit_ok N m f" and "loop f rs s = Inr t" and "dfs_inv N m s" and "set rs \<subseteq> N"
  shows "visit_post N m s (set rs) t"
  using assms(2-4)
proof (induction rs arbitrary: s)
  case Nil
  then show ?case by (simp add: visit_post_def)
next
  case (Cons r rs)
  then obtain u where fu: "f r s = Inr u" and lu: "loop f rs u = Inr t"
    by (auto split: sum.splits)
  have u: "visit_post N m s {r} u"
    using assms(1) Cons.prems(2,3) fu unfolding visit_ok_def by auto
  then have "visit_post N m u (set rs) t"
    using Cons.IH [OF lu] Cons.prems(3) by (simp add: visit_post_def)
  with u show ?case by (auto simp: visit_post_def)
qed

lemma dfs_enter_inv:
  assumes "dfs_inv N m s" and "r \<in> N" and "r \<notin> d_completed s"
  shows "dfs_inv N m (dfs_enter r s)"
  using assms by (auto simp: dfs_inv_def dfs_enter_def)

lemma dfs_leave_post:
  assumes s: "dfs_inv N m s" and r: "r \<in> N" "r \<notin> d_temp s" "r \<notin> d_completed s"
    and t: "visit_post N m (dfs_enter r s) (set (deps_of m r)) t"
  shows "visit_post N m s {r} (dfs_leave r t)"
proof -
  have tt: "d_temp t = insert r (d_temp s)" "d_path t = d_path s @ [r]" and inv: "dfs_inv N m t"
    and c: "d_completed s \<subseteq> d_completed t" "set (deps_of m r) \<subseteq> d_completed t"
    using t by (auto simp: visit_post_def dfs_enter_def)
  have "r \<notin> d_completed t" using inv tt by (auto simp: dfs_inv_def)
  with inv c r s tt show ?thesis
    by (auto simp: visit_post_def dfs_inv_def dfs_leave_def)
qed

lemma visit_is_ok: "dep_closed N m \<Longrightarrow> visit_ok N m (visit fuel m)"
proof (induction fuel)
  case 0
  then show ?case by (simp add: visit_ok_def)
next
  case (Suc fuel)
  then have IH: "visit_ok N m (visit fuel m)" by simp
  show ?case unfolding visit_ok_def
  proof (intro ballI allI impI)
    fix r s t
    assume r: "r \<in> N" and s: "dfs_inv N m s" and v: "visit (Suc fuel) m r s = Inr t"
    show "visit_post N m s {r} t"
    proof (cases "r \<in> d_completed s")
      case True
      with v s have "t = s" by (auto split: if_splits)
      with True s show ?thesis by (simp add: visit_post_def)
    next
      case False
      with v obtain u where nt: "r \<notin> d_temp s" and t: "t = dfs_leave r u"
        and l: "loop (visit fuel m) (deps_of m r) (dfs_enter r s) = Inr u"
        by (auto split: if_splits sum.splits)
      have "visit_post N m (dfs_enter r s) (set (deps_of m r)) u"
        using loop_visit_ok [OF IH l dfs_enter_inv] s r False Suc.prems
        by (simp add: dep_closed_def)
      with s r nt False t show ?thesis by (simp add: dfs_leave_post)
    qed
  qed
qed

lemma visit_Inr_post:
  assumes "dep_closed N m" and "visit fuel m r s = Inr t" and "dfs_inv N m s" and "r \<in> N"
  shows "visit_post N m s {r} t"
  using visit_is_ok [OF assms(1), of fuel] assms(2-4) unfolding visit_ok_def by simp

text \<open>Fuel: a nested call has a larger \<open>temp\<close>, and \<open>temp\<close> stays inside \<open>N\<close>.\<close>

lemma visit_fuel:
  assumes "finite N" and "dep_closed N m"
  shows "dfs_inv N m s \<Longrightarrow> r \<in> N \<Longrightarrow> card (N - d_temp s) < fuel \<Longrightarrow> visit fuel m r s \<noteq> Inl OutOfFuel"
proof (induction fuel arbitrary: r s)
  case (Suc fuel)
  show ?case
  proof
    assume "visit (Suc fuel) m r s = Inl OutOfFuel"
    then have nt: "r \<notin> d_temp s" "r \<notin> d_completed s"
      and l: "loop (visit fuel m) (deps_of m r) (dfs_enter r s) = Inl OutOfFuel"
      by (auto split: if_splits sum.splits)
    let ?P = "\<lambda>u. dfs_inv N m u \<and> d_temp u = insert r (d_temp s)"
    have enter: "?P (dfs_enter r s)"
      using dfs_enter_inv Suc.prems nt by (simp add: dfs_enter_def)
    have deps: "set (deps_of m r) \<subseteq> N" using assms(2) Suc.prems(2) by (auto simp: dep_closed_def)
    have "\<exists>d \<in> set (deps_of m r). \<exists>u. ?P u \<and> visit fuel m d u = Inl OutOfFuel"
      using l enter
    proof (rule loop_error)
      fix d u v assume d: "d \<in> set (deps_of m r)" and u: "?P u" and v: "visit fuel m d u = Inr v"
      have "visit_post N m u {d} v"
        using visit_Inr_post [OF assms(2) v] d u deps by auto
      with u show "?P v" by (simp add: visit_post_def)
    qed
    then obtain d u where d: "d \<in> N" "?P u" "visit fuel m d u = Inl OutOfFuel" using deps by auto
    have "N - d_temp u = (N - d_temp s) - {r}" using d(2) by auto
    moreover have "r \<in> N - d_temp s" using Suc.prems(2) nt by simp
    ultimately have "card (N - d_temp u) < card (N - d_temp s)"
      using assms(1) by (metis card_Diff1_less finite_Diff)
    with Suc.prems(3) have "card (N - d_temp u) < fuel" by simp
    with Suc.IH d show False by blast
  qed
qed simp

text \<open>A reported cycle is a cycle: the path is a chain of dependencies, and its last name depends
  on a name already on it.\<close>

abbreviation dep_chain :: "string list gomap \<Rightarrow> string list \<Rightarrow> bool" where
  "dep_chain m \<equiv> successively (\<lambda>x y. (x, y) \<in> dep_edges m)"

lemma dep_chain_cycle:
  assumes "dep_chain m (p @ [r])" and "r \<in> set p"
  shows "(r, r) \<in> (dep_edges m)\<^sup>+"
proof -
  from assms(2) obtain ys zs where p: "p = ys @ r # zs" by (meson split_list)
  have "dep_chain m (r # zs @ [r])"
    using assms(1) p by (simp add: successively_append_iff)
  moreover have "successively R (x # zs @ [y]) \<Longrightarrow> (x, y) \<in> {(x, y). R x y}\<^sup>+" for R x and y :: string
  proof (induction zs arbitrary: x)
    case (Cons z zs)
    then show ?case by (auto intro: trancl_into_trancl2)
  qed auto
  ultimately show ?thesis by fastforce
qed

lemma visit_cycle_sound:
  assumes "dep_closed N m"
  shows "dfs_inv N m s \<Longrightarrow> r \<in> N \<Longrightarrow> dep_chain m (d_path s @ [r]) \<Longrightarrow>
    visit fuel m r s = Inl (CycleDetected c) \<Longrightarrow> \<exists>x \<in> N. (x, x) \<in> (dep_edges m)\<^sup>+"
proof (induction fuel arbitrary: r s)
  case (Suc fuel)
  show ?case
  proof (cases "r \<in> d_temp s")
    case True
    then have "(r, r) \<in> (dep_edges m)\<^sup>+"
      using Suc.prems by (intro dep_chain_cycle) (auto simp: dfs_inv_def)
    with Suc.prems(2) show ?thesis by blast
  next
    case False
    with Suc.prems(4) have nc: "r \<notin> d_completed s"
      and l: "loop (visit fuel m) (deps_of m r) (dfs_enter r s) = Inl (CycleDetected c)"
      by (auto split: if_splits sum.splits)
    let ?P = "\<lambda>u. dfs_inv N m u \<and> d_path u = d_path s @ [r]"
    have deps: "set (deps_of m r) \<subseteq> N" using assms Suc.prems(2) by (auto simp: dep_closed_def)
    have "\<exists>d \<in> set (deps_of m r). \<exists>u. ?P u \<and> visit fuel m d u = Inl (CycleDetected c)"
      using l
    proof (rule loop_error)
      show "?P (dfs_enter r s)" using dfs_enter_inv Suc.prems nc by (simp add: dfs_enter_def)
    next
      fix d u v assume d: "d \<in> set (deps_of m r)" and u: "?P u" and v: "visit fuel m d u = Inr v"
      have "visit_post N m u {d} v" using visit_Inr_post [OF assms v] d u deps by auto
      with u show "?P v" by (simp add: visit_post_def)
    qed
    then obtain d u where d: "d \<in> set (deps_of m r)" "?P u"
      "visit fuel m d u = Inl (CycleDetected c)" by auto
    have "dep_chain m (d_path u @ [d])"
      using d Suc.prems(3) by (simp add: successively_append_iff dep_edges_def)
    with d deps show ?thesis by (intro Suc.IH [of u d]) auto
  qed
qed simp

text \<open>The search has two errors, a cycle and the exhausted fuel.\<close>

lemma visit_errors:
  "visit fuel m r s = Inl e \<Longrightarrow> e = OutOfFuel \<or> (\<exists>c. e = CycleDetected c)"
proof (induction fuel arbitrary: r s)
  case (Suc fuel)
  then show ?case
    using loop_error [of "visit fuel m" "deps_of m r" "dfs_enter r s" e "\<lambda>_. True"]
    by (auto split: if_splits sum.splits)
qed simp

section \<open>Correctness of the order\<close>

abbreviation dep_node_set :: "string list gomap \<Rightarrow> string set" where
  "dep_node_set m \<equiv> set (dep_nodes m)"

declare visit.simps [simp del]

lemma deps_of_memD: "y \<in> set (deps_of m x) \<Longrightarrow> \<exists>ds. (x, ds) \<in> set m \<and> y \<in> set ds"
  by (cases "gm_get m x") (auto simp: deps_of_def dest: map_of_SomeD)

lemma dep_closed_nodes: "dep_closed (dep_node_set m) m"
  by (force simp: dep_closed_def dep_nodes_def dest: deps_of_memD)

lemma dfs_inv_init: "dfs_inv N m dfs_init"
  by (simp add: dfs_inv_def dfs_init_def)

lemma visit_root_ok: "dep_closed N m \<Longrightarrow> visit_ok N m (visit_root fuel m)"
  unfolding visit_ok_def visit_root_def
  using visit_Inr_post [of N m fuel] by (simp add: visit_post_def)

lemma dependency_order_Inr:
  assumes "dependency_order m = Inr order"
  obtains s where "d_order s = order"
    and "visit_post (dep_node_set m) m dfs_init (fst ` set m) s"
proof -
  let ?f = "visit_root (Suc (length (dep_nodes m))) m"
  from assms obtain s where l: "loop ?f (sort (map fst m)) dfs_init = Inr s" and "d_order s = order"
    by (auto simp: dependency_order_def Let_def split: sum.splits)
  moreover have "visit_post (dep_node_set m) m dfs_init (set (sort (map fst m))) s"
    using loop_visit_ok [OF visit_root_ok [OF dep_closed_nodes] l dfs_inv_init]
    by (auto simp: dep_nodes_def)
  ultimately show thesis using that by simp
qed

lemma dependency_order_sound:
  assumes "dependency_order m = Inr order"
  shows "distinct order" and "dep_ordered m {} order"
    and "fst ` set m \<subseteq> set order" and "set order \<subseteq> dep_node_set m"
proof -
  obtain s where "d_order s = order" and "visit_post (dep_node_set m) m dfs_init (fst ` set m) s"
    using assms by (rule dependency_order_Inr)
  then show "distinct order" and "dep_ordered m {} order"
    and "fst ` set m \<subseteq> set order" and "set order \<subseteq> dep_node_set m"
    unfolding visit_post_def dfs_inv_def by simp_all
qed

lemma dependency_order_nodes:
  assumes "dependency_order m = Inr order" and "gm_ok m"
  shows "set order = dep_node_set m"
proof
  show "dep_node_set m \<subseteq> set order"
  proof
    fix x assume "x \<in> dep_node_set m"
    then consider "x \<in> fst ` set m" | k ds where "(k, ds) \<in> set m" "x \<in> set ds"
      by (auto simp: dep_nodes_def)
    then show "x \<in> set order"
    proof cases
      case 1
      then show ?thesis using dependency_order_sound(3) [OF assms(1)] by auto
    next
      case 2
      then have "deps_of m k = ds" using assms(2) by (simp add: deps_of_def gm_ok_def)
      then have "(k, x) \<in> (dep_edges m)\<^sup>+" using 2 by (auto simp: dep_edges_def)
      moreover have "k \<in> set order" using dependency_order_sound(3) [OF assms(1)] 2 by force
      ultimately show ?thesis using dep_ordered_closed dependency_order_sound(2) [OF assms(1)] by blast
    qed
  qed
qed (rule dependency_order_sound(4) [OF assms(1)])

text \<open>An error of the search comes from one of the root visits, in a state between two visits.\<close>

lemma dependency_order_Inl:
  assumes "dependency_order m = Inl e"
  obtains r s where "r \<in> dep_node_set m" and "dfs_inv (dep_node_set m) m s"
    and "d_temp s = {}" and "d_path s = []" and "visit (Suc (length (dep_nodes m))) m r s = Inl e"
proof -
  let ?f = "visit_root (Suc (length (dep_nodes m))) m"
  let ?P = "\<lambda>s. dfs_inv (dep_node_set m) m s \<and> d_temp s = {} \<and> d_path s = []"
  from assms have l: "loop ?f (sort (map fst m)) dfs_init = Inl e"
    by (auto simp: dependency_order_def Let_def split: sum.splits)
  have keys: "set (sort (map fst m)) \<subseteq> dep_node_set m" by (auto simp: dep_nodes_def)
  have "\<exists>r \<in> set (sort (map fst m)). \<exists>s. ?P s \<and> ?f r s = Inl e"
    using l
  proof (rule loop_error)
    show "?P dfs_init" by (simp add: dfs_inv_init) (simp add: dfs_init_def)
  next
    fix r u v assume r: "r \<in> set (sort (map fst m))" and u: "?P u" and f: "?f r u = Inr v"
    have "visit_post (dep_node_set m) m u {r} v"
      using visit_root_ok [OF dep_closed_nodes, of m "Suc (length (dep_nodes m))"] r u f keys
      unfolding visit_ok_def by blast
    with u show "?P v" by (simp add: visit_post_def)
  qed
  then show thesis using that keys by (auto simp: visit_root_def split: if_splits)
qed

lemma dependency_order_not_OutOfFuel: "dependency_order m \<noteq> Inl OutOfFuel"
proof
  assume "dependency_order m = Inl OutOfFuel"
  then obtain r s where r: "r \<in> dep_node_set m" "dfs_inv (dep_node_set m) m s" "d_temp s = {}"
    and v: "visit (Suc (length (dep_nodes m))) m r s = Inl OutOfFuel"
    by (rule dependency_order_Inl)
  have "card (dep_node_set m - d_temp s) < Suc (length (dep_nodes m))"
    using card_length [of "dep_nodes m"] r(3) by simp
  then show False using visit_fuel [OF _ dep_closed_nodes] r v by blast
qed

lemma dependency_order_cases:
  obtains (Ok) order where "dependency_order m = Inr order"
  | (Cycle) c where "dependency_order m = Inl (CycleDetected c)"
proof (cases "dependency_order m")
  case (Inl e)
  then have "e = OutOfFuel \<or> (\<exists>c. e = CycleDetected c)"
    using visit_errors by (rule dependency_order_Inl)
  then show ?thesis using Inl Cycle dependency_order_not_OutOfFuel by blast
qed (use Ok in auto)

lemma dependency_order_cycle_iff:
  assumes "gm_ok m"
  shows "(\<exists>c. dependency_order m = Inl (CycleDetected c)) \<longleftrightarrow> (\<exists>x. (x, x) \<in> (dep_edges m)\<^sup>+)"
proof
  assume "\<exists>c. dependency_order m = Inl (CycleDetected c)"
  then obtain c r s where "r \<in> dep_node_set m" "dfs_inv (dep_node_set m) m s" "d_path s = []"
    "visit (Suc (length (dep_nodes m))) m r s = Inl (CycleDetected c)"
    by (auto elim: dependency_order_Inl)
  then show "\<exists>x. (x, x) \<in> (dep_edges m)\<^sup>+"
    using visit_cycle_sound [OF dep_closed_nodes, of m s r] by auto
next
  assume "\<exists>x. (x, x) \<in> (dep_edges m)\<^sup>+"
  then obtain x where x: "(x, x) \<in> (dep_edges m)\<^sup>+" by blast
  then obtain y where "(x, y) \<in> dep_edges m" by (meson tranclD)
  then have "x \<in> fst ` set m" by (force simp: dep_edges_def dest: deps_of_memD)
  show "\<exists>c. dependency_order m = Inl (CycleDetected c)"
  proof (cases rule: dependency_order_cases [of m])
    case (Ok order)
    with \<open>x \<in> fst ` set m\<close> have "x \<in> set order" using dependency_order_sound(3) by blast
    with Ok x show ?thesis using dep_ordered_acyclic dependency_order_sound(1,2) by blast
  qed blast
qed

lemma dependency_order_perm:
  assumes "gm_ok m" and "mset m = mset m'"
  shows "dependency_order m = dependency_order m'"
proof -
  have get: "gm_get m = gm_get m'" using assms by (rule gm_get_perm)
  then have deps: "deps_of m = deps_of m'" by (simp add: deps_of_def fun_eq_iff)
  have "visit fuel m = visit fuel m'" for fuel
  proof (induction fuel)
    case (Suc fuel)
    then show ?case by (intro ext) (simp add: visit.simps deps)
  qed (simp add: visit.simps fun_eq_iff)
  then have "visit_root fuel m = visit_root fuel m'" for fuel
    by (intro ext) (simp add: visit_root_def)
  moreover have "sort (map fst m) = sort (map fst m')"
    using assms(2) by (metis mset_map mset_sort properties_for_sort sorted_sort)
  moreover have "length (dep_nodes m) = length (dep_nodes m')"
  proof -
    have *: "length (concat (map snd n)) = sum_mset (image_mset (length \<circ> snd) (mset n))"
      for n :: "string list gomap"
      by (simp add: length_concat flip: sum_mset_sum_list)
    have "length (concat (map snd m)) = length (concat (map snd m'))"
      unfolding * assms(2) by (rule refl)
    moreover have "length m = length m'" using assms(2) by (metis size_mset)
    ultimately show ?thesis by (simp add: dep_nodes_def)
  qed
  ultimately show ?thesis by (simp only: dependency_order_def Let_def)
qed

section \<open>Correctness of the sorted roles\<close>

definition unique_role_names :: "rbg \<Rightarrow> bool" where
  "unique_role_names g \<longleftrightarrow> distinct (map r_name (g_roles g))"

definition deps_exist :: "rbg \<Rightarrow> bool" where
  "deps_exist g \<longleftrightarrow>
     (\<forall>r \<in> set (g_roles g). set (r_dependencies r) \<subseteq> r_name ` set (g_roles g))"

definition role_deps :: "role_spec list \<Rightarrow> string list gomap" where
  "role_deps roles = map (\<lambda>r. (r_name r, r_dependencies r)) roles"

lemma fst_role_deps [simp]: "map fst (role_deps roles) = map r_name roles"
  by (simp add: role_deps_def comp_def)

lemma gm_set_new: "k \<notin> fst ` set m \<Longrightarrow> gm_set k v m = m @ [(k, v)]"
  by (induction m) auto

lemma find_missing_None:
  "find (\<lambda>d. \<not> contains_string names d) ds = None \<longleftrightarrow> set ds \<subseteq> set names"
  by (auto simp: find_None_iff)

lemma role_dependency_step_Inr_iff:
  "role_dependency_step names r m = Inr n \<longleftrightarrow>
     set (r_dependencies r) \<subseteq> set names \<and> n = gm_set (r_name r) (r_dependencies r) m"
  unfolding role_dependency_step_def find_missing_None [symmetric]
  by (cases "find (\<lambda>d. \<not> contains_string names d) (r_dependencies r)") auto

lemma loop_role_dependency:
  assumes "\<forall>r \<in> set roles. set (r_dependencies r) \<subseteq> set names"
    and "distinct (map fst m @ map r_name roles)"
  shows "loop (role_dependency_step names) roles m = Inr (m @ role_deps roles)"
  using assms
proof (induction roles arbitrary: m)
  case (Cons r roles)
  have "role_dependency_step names r m = Inr (m @ [(r_name r, r_dependencies r)])"
    using Cons.prems by (simp add: role_dependency_step_Inr_iff gm_set_new)
  moreover have "loop (role_dependency_step names) roles (m @ [(r_name r, r_dependencies r)])
      = Inr ((m @ [(r_name r, r_dependencies r)]) @ role_deps roles)"
    using Cons.prems by (intro Cons.IH) auto
  ultimately show ?case by (simp add: role_deps_def)
qed (simp add: role_deps_def)

lemma loop_role_dependency_ok:
  "loop (role_dependency_step names) roles m = Inr n \<Longrightarrow> gm_ok m \<Longrightarrow>
   gm_ok n \<and> (\<forall>r \<in> set roles. set (r_dependencies r) \<subseteq> set names) \<and>
   fst ` set n = fst ` set m \<union> r_name ` set roles"
proof (induction roles arbitrary: m)
  case (Cons r roles)
  then obtain u where u: "role_dependency_step names r m = Inr u"
    and l: "loop (role_dependency_step names) roles u = Inr n" by (auto split: sum.splits)
  from u Cons.prems(2) have "gm_ok u" "fst ` set u = insert (r_name r) (fst ` set m)"
    "set (r_dependencies r) \<subseteq> set names"
    by (auto simp: role_dependency_step_Inr_iff dom_update)
  with Cons.IH [OF l] show ?case by auto
qed simp

lemma sort_roles_unique:
  assumes "unique_role_names g" and "deps_exist g" and "g_roles g \<noteq> []"
  shows "sort_roles g = (case dependency_order (role_deps (g_roles g)) of
      Inl e \<Rightarrow> Inl (SortRolesFailed e) | Inr order \<Rightarrow> Inr (roles_in_order (g_roles g) order))"
proof -
  have "loop (role_dependency_step (map r_name (g_roles g))) (g_roles g) []
      = Inr ([] @ role_deps (g_roles g))"
    using assms by (intro loop_role_dependency) (auto simp: unique_role_names_def deps_exist_def)
  then show ?thesis using assms(3) by (simp add: sort_roles_def)
qed

text \<open>The names of the sorted roles are the order of names, so no name occurs twice in them.\<close>

lemma roles_in_order_names:
  "set order \<subseteq> r_name ` set roles \<Longrightarrow> map r_name (roles_in_order roles order) = order"
proof (induction order)
  case (Cons n order)
  then have "find (\<lambda>r. r_name r = n) roles \<noteq> None" by (auto simp: find_None_iff)
  then obtain r where r: "find (\<lambda>r. r_name r = n) roles = Some r" by auto
  then have "r_name r = n" by (auto simp: find_Some_iff)
  with r Cons show ?case by (simp add: roles_in_order_def List.map_filter_simps)
qed (simp add: roles_in_order_def List.map_filter_simps)

lemma roles_in_order_subset: "set (roles_in_order roles order) \<subseteq> set roles"
  by (induction order)
    (auto simp: roles_in_order_def List.map_filter_simps find_Some_iff split: option.splits)

lemma sort_roles_Inr:
  assumes "sort_roles g = Inr rs"
  shows "deps_exist g" and "set rs \<subseteq> set (g_roles g)" and "distinct (map r_name rs)"
    and "r_name ` set rs = r_name ` set (g_roles g)"
proof -
  show "deps_exist g"
  proof (cases "g_roles g = []")
    case False
    with assms show ?thesis
      using loop_role_dependency_ok [of "map r_name (g_roles g)" "g_roles g" "[]"]
      by (auto simp: sort_roles_def deps_exist_def split: sum.splits)
  qed (simp add: deps_exist_def)
  have "set rs \<subseteq> set (g_roles g) \<and> distinct (map r_name rs) \<and>
      r_name ` set rs = r_name ` set (g_roles g)"
  proof (cases "g_roles g = []")
    case True
    with assms show ?thesis by (simp add: sort_roles_def)
  next
    case False
    with assms obtain m order where
      l: "loop (role_dependency_step (map r_name (g_roles g))) (g_roles g) [] = Inr m"
      and o: "dependency_order m = Inr order" and rs: "rs = roles_in_order (g_roles g) order"
      by (auto simp: sort_roles_def split: sum.splits)
    have m: "gm_ok m" "fst ` set m = r_name ` set (g_roles g)"
      using loop_role_dependency_ok [OF l] by auto
    have vals: "\<forall>(k, ds) \<in> set m. set ds \<subseteq> r_name ` set (g_roles g)"
      using l
    proof (rule loop_invariant)
      fix r u v assume "\<forall>(k, ds) \<in> set u. set ds \<subseteq> r_name ` set (g_roles g)"
        and "role_dependency_step (map r_name (g_roles g)) r u = Inr v"
      then show "\<forall>(k, ds) \<in> set v. set ds \<subseteq> r_name ` set (g_roles g)"
        using gm_set_entries [of "r_name r" "r_dependencies r" u]
        by (fastforce simp: role_dependency_step_Inr_iff)
    qed simp
    then have "dep_node_set m \<subseteq> r_name ` set (g_roles g)"
      using m(2) by (fastforce simp: dep_nodes_def)
    then have eq: "set order = r_name ` set (g_roles g)"
      using dependency_order_sound(3,4) [OF o] m(2) by auto
    then have names: "map r_name rs = order" using rs by (simp add: roles_in_order_names)
    then have "distinct (map r_name rs)" using dependency_order_sound(1) [OF o] by simp
    moreover have "r_name ` set rs = r_name ` set (g_roles g)" using names eq by (metis set_map)
    ultimately show ?thesis using roles_in_order_subset rs by simp
  qed
  then show "set rs \<subseteq> set (g_roles g)" and "distinct (map r_name rs)"
    and "r_name ` set rs = r_name ` set (g_roles g)" by simp_all
qed

lemma sort_roles_perm:
  assumes "sort_roles g = Inr rs" and "unique_role_names g"
  shows "mset rs = mset (g_roles g)"
proof -
  have inj: "inj_on r_name (set (g_roles g))" and d: "distinct (g_roles g)"
    using assms(2) by (auto simp: unique_role_names_def distinct_map)
  have "set rs = set (g_roles g)"
    using sort_roles_Inr(2,4) [OF assms(1)] inj by (metis inj_on_image_eq_iff subset_refl)
  moreover have "distinct rs" using sort_roles_Inr(3) [OF assms(1)] by (simp add: distinct_map)
  ultimately show ?thesis using d by (simp add: set_eq_iff_mset_eq_distinct)
qed

lemma sort_roles_deps_first:
  assumes "sort_roles g = Inr (ys @ r # zs)" and "unique_role_names g"
  shows "set (r_dependencies r) \<subseteq> r_name ` set ys"
proof -
  from assms(1) have ne: "g_roles g \<noteq> []" by (auto simp: sort_roles_def)
  have ex: "deps_exist g" by (rule sort_roles_Inr(1) [OF assms(1)])
  from sort_roles_unique [OF assms(2) ex ne] assms(1) obtain order
    where o: "dependency_order (role_deps (g_roles g)) = Inr order"
      and rs: "ys @ r # zs = roles_in_order (g_roles g) order"
    by (auto split: sum.splits)
  have "set order \<subseteq> r_name ` set (g_roles g)"
    using dependency_order_sound(4) [OF o] ex by (auto simp: dep_nodes_def role_deps_def deps_exist_def)
  then have "order = map r_name (ys @ r # zs)" using rs by (metis roles_in_order_names)
  then have before: "set (deps_of (role_deps (g_roles g)) (r_name r)) \<subseteq> r_name ` set ys"
    using dependency_order_sound(2) [OF o] by simp
  have "r \<in> set (g_roles g)" using sort_roles_Inr(2) [OF assms(1)] by auto
  then have "gm_get (role_deps (g_roles g)) (r_name r) = Some (r_dependencies r)"
    using assms(2) by (auto simp: unique_role_names_def role_deps_def comp_def
        intro: map_of_is_SomeI)
  with before show ?thesis by (simp add: deps_of_def)
qed

lemma sort_roles_Inl:
  assumes "sort_roles g = Inl e"
  shows "(\<exists>r d. r \<in> set (g_roles g) \<and> d \<in> set (r_dependencies r) \<and> d \<notin> r_name ` set (g_roles g) \<and>
            e = DependencyRoleMissing (r_name r) d) \<or>
         (\<exists>c. e = SortRolesFailed (CycleDetected c))"
proof (cases "loop (role_dependency_step (map r_name (g_roles g))) (g_roles g) []")
  case (Inl e')
  with assms have "e = e'" by (auto simp: sort_roles_def split: if_splits)
  have "\<exists>r \<in> set (g_roles g). \<exists>u. True \<and> role_dependency_step (map r_name (g_roles g)) r u = Inl e'"
    by (rule loop_error [OF Inl]) simp_all
  then show ?thesis
    using \<open>e = e'\<close> by (fastforce simp: role_dependency_step_def find_Some_iff split: option.splits)
next
  case (Inr m)
  with assms obtain e' where "dependency_order m = Inl e'" and "e = SortRolesFailed e'"
    by (auto simp: sort_roles_def split: if_splits sum.splits)
  then show ?thesis by (cases rule: dependency_order_cases [of m]) auto
qed

section \<open>The interface\<close>

text \<open>
  What the controllers rely on when they walk the roles in the order of a \<open>DependencyManager\<close>: with
  unique role names the order is a permutation of the roles in which every role comes after the
  roles it depends on.
\<close>

locale role_order =
  fixes order_roles :: "rbg \<Rightarrow> role_spec list res"
  assumes order_perm: "order_roles g = Inr rs \<Longrightarrow> unique_role_names g \<Longrightarrow> mset rs = mset (g_roles g)"
    and order_deps: "order_roles g = Inr (ys @ r # zs) \<Longrightarrow> unique_role_names g \<Longrightarrow>
      set (r_dependencies r) \<subseteq> r_name ` set ys"
begin

lemma order_set: "order_roles g = Inr rs \<Longrightarrow> unique_role_names g \<Longrightarrow> set rs = set (g_roles g)"
  using order_perm by (metis set_mset_mset)

lemma order_no_self_dependency:
  assumes "order_roles g = Inr rs" and "unique_role_names g" and "r \<in> set rs"
  shows "r_name r \<notin> set (r_dependencies r)"
proof
  assume self: "r_name r \<in> set (r_dependencies r)"
  from assms(3) obtain ys zs where rs: "rs = ys @ r # zs" by (meson split_list)
  have "distinct (map r_name rs)"
    using order_perm [OF assms(1,2)] assms(2)
    by (metis mset_eq_imp_distinct_iff mset_map unique_role_names_def)
  then have "r_name r \<notin> r_name ` set ys" using rs by auto
  moreover have "r_name r \<in> r_name ` set ys"
    using order_deps [of g ys r zs] assms(1,2) rs self by auto
  ultimately show False by simp
qed

lemma order_first_independent:
  assumes "order_roles g = Inr (r # rs)" and "unique_role_names g"
  shows "r_dependencies r = []"
  using order_deps [of g "[]" r rs] assms by simp

lemma order_dependency_position:
  assumes "order_roles g = Inr rs" and "unique_role_names g" and "i < length rs"
    and "d \<in> set (r_dependencies (rs ! i))"
  obtains j where "j < i" and "r_name (rs ! j) = d"
proof -
  have "rs = take i rs @ rs ! i # drop (Suc i) rs" using assms(3) by (simp add: id_take_nth_drop)
  then have "d \<in> r_name ` set (take i rs)"
    using order_deps [of g "take i rs" "rs ! i" "drop (Suc i) rs"] assms(1,2,4) by auto
  then show thesis using that assms(3) by (auto simp: in_set_conv_nth)
qed

end

interpretation sorted_roles: role_order sort_roles
  by unfold_locales (auto dest: sort_roles_perm sort_roles_deps_first)

section \<open>Properties\<close>

text \<open>C3: When \<open>SortRoles\<close> succeeds on a group with unique role names, its result has exactly the
  roles of the group, and every role comes after all the roles it depends on: the controller can
  reconcile them from left to right.\<close>

theorem sort_roles_order:
  assumes "sort_roles g = Inr rs" and "unique_role_names g"
  shows "mset rs = mset (g_roles g) \<and>
    (\<forall>i < length rs. \<forall>d \<in> set (r_dependencies (rs ! i)). \<exists>j < i. r_name (rs ! j) = d)"
  using sorted_roles.order_perm [OF assms] sorted_roles.order_dependency_position [OF assms] by metis

definition sample_group :: rbg where
  "sample_group = sample_rbg [sample_role ''a'' [''c'', ''b''] 1, sample_role ''b'' [''c''] 2, sample_role ''c'' [] 1]"

theorem sort_roles_order_witness:
  "\<exists>rs. sort_roles sample_group = Inr rs \<and> mset rs = mset (g_roles sample_group) \<and>
    (\<forall>i < length rs. \<forall>d \<in> set (r_dependencies (rs ! i)). \<exists>j < i. r_name (rs ! j) = d)"
proof -
  have run: "sort_roles sample_group = Inr [sample_role ''c'' [] 1, sample_role ''b'' [''c''] 2,
      sample_role ''a'' [''c'', ''b''] 1]" by code_simp
  have "unique_role_names sample_group"
    by (simp add: unique_role_names_def sample_group_def sample_defs)
  from sort_roles_order [OF run this] run show ?thesis by blast
qed

text \<open>C16: \<open>SortRoles\<close> succeeds exactly on the groups it should: with unique role names it returns an
  order if and only if every dependency names a role of the group and no role depends on itself
  through a chain of dependencies.\<close>

theorem sort_roles_succeeds_iff:
  assumes "unique_role_names g"
  shows "(\<exists>rs. sort_roles g = Inr rs) \<longleftrightarrow>
    deps_exist g \<and> (\<nexists>x. (x, x) \<in> (dep_edges (role_deps (g_roles g)))\<^sup>+)"
proof (cases "g_roles g = []")
  case True
  then show ?thesis
    by (auto simp: sort_roles_def deps_exist_def role_deps_def dep_edges_def deps_of_def)
next
  case False
  have ok: "gm_ok (role_deps (g_roles g))"
    using assms by (simp add: gm_ok_def unique_role_names_def)
  show ?thesis
  proof (cases "deps_exist g")
    case True
    note eq = sort_roles_unique [OF assms True False]
    show ?thesis
      by (cases rule: dependency_order_cases [of "role_deps (g_roles g)"])
        (use True eq dependency_order_cycle_iff [OF ok] in auto)
  qed (auto dest: sort_roles_Inr(1))
qed

theorem sort_roles_succeeds_iff_witness:
  "deps_exist sample_group \<and> (\<nexists>x. (x, x) \<in> (dep_edges (role_deps (g_roles sample_group)))\<^sup>+)"
proof -
  have "unique_role_names sample_group"
    by (simp add: unique_role_names_def sample_group_def sample_defs)
  moreover have "\<exists>rs. sort_roles sample_group = Inr rs"
  proof -
    have "sort_roles sample_group = Inr [sample_role ''c'' [] 1, sample_role ''b'' [''c''] 2,
      sample_role ''a'' [''c'', ''b''] 1]" by code_simp
    then show ?thesis by blast
  qed
  ultimately show ?thesis using sort_roles_succeeds_iff by blast
qed

text \<open>C32: \<open>SortRoles\<close> always returns, and fails only in the two ways it reports: a dependency that
  is no role of the group, or a cycle. The search needs no more nested calls than there are
  names.\<close>

theorem sort_roles_total:
  "(\<exists>rs. sort_roles g = Inr rs) \<or>
   (\<exists>r d. r \<in> set (g_roles g) \<and> d \<in> set (r_dependencies r) \<and> d \<notin> r_name ` set (g_roles g) \<and>
      sort_roles g = Inl (DependencyRoleMissing (r_name r) d)) \<or>
   (\<exists>c. sort_roles g = Inl (SortRolesFailed (CycleDetected c)))"
  using sort_roles_Inl [of g] by (cases "sort_roles g") auto

text \<open>The order does not depend on the iteration order of the Go map: for two maps with the same
  entries \<open>dependencyOrder\<close> gives the same result, errors included.\<close>

theorem dependency_order_deterministic:
  assumes "gm_ok m" and "mset m = mset m'"
  shows "dependency_order m = dependency_order m'"
  by (rule dependency_order_perm [OF assms])

theorem dependency_order_deterministic_witness:
  "dependency_order [(''b'', [''a'']), (''a'', [])] = dependency_order [(''a'', []), (''b'', [''a''])]"
  by (rule dependency_order_deterministic) (simp_all add: gm_ok_def)

end
