(* ===== verification/Workload.thy ===== *)
theory Workload
  imports Sts_Reconciler Deploy_Reconciler Lws_Reconciler Dependency
begin

text \<open>
  \<open>NewWorkloadReconciler\<close>, the choice of a reconciler by the workload type of a role, and
  \<open>CheckDependencyReady\<close> of \<open>pkg/dependency\<close>, which goes through it. What holds of all three
  reconcilers is collected here from their interpretations of the contract, so that the
  controllers rest on one set of facts.
\<close>

section \<open>Operations\<close>

definition new_workload_reconciler :: "klib \<Rightarrow> 'w client \<Rightarrow> nat \<Rightarrow> workload_spec \<Rightarrow> 'w workload_ops res" where
  "new_workload_reconciler lib c attempts w =
     (if workload_string w = DeploymentWorkloadType then Inr (deployment_ops lib c attempts)
      else if workload_string w = StatefulSetWorkloadType then Inr (sts_ops lib c attempts)
      else if workload_string w = LeaderWorkerSetWorkloadType then Inr (lws_ops lib c attempts)
      else Inl (UnsupportedWorkload (workload_string w)))"

primrec dependencies_ready ::
  "klib \<Rightarrow> 'w client \<Rightarrow> nat \<Rightarrow> rbg \<Rightarrow> string list \<Rightarrow> ('w, bool) act" where
  "dependencies_ready lib c attempts g [] = return_ok True"
| "dependencies_ready lib c attempts g (d # ds) =
     call (of_res (get_role g d)) (\<lambda>role.
     call (of_res (new_workload_reconciler lib c attempts (r_workload role))) (\<lambda>ops.
     call (wo_ready ops g role) (\<lambda>ready.
     if \<not> ready then return_ok False else dependencies_ready lib c attempts g ds)))"

definition check_dependency_ready ::
  "klib \<Rightarrow> 'w client \<Rightarrow> nat \<Rightarrow> rbg \<Rightarrow> role_spec \<Rightarrow> ('w, bool) act" where
  "check_dependency_ready lib c attempts g r = dependencies_ready lib c attempts g (r_dependencies r)"

section \<open>The contract of every reconciler\<close>

lemma new_workload_reconciler_cases:
  assumes "new_workload_reconciler lib c attempts w = Inr ops"
  obtains "ops = deployment_ops lib c attempts" | "ops = sts_ops lib c attempts" | "ops = lws_ops lib c attempts"
  using assms by (auto simp: new_workload_reconciler_def split: if_splits)

lemma new_workload_reconciler_Inl:
  "new_workload_reconciler lib c attempts w = Inl e \<longleftrightarrow> e = UnsupportedWorkload (workload_string w) \<and>
     workload_string w \<notin> {DeploymentWorkloadType, StatefulSetWorkloadType, LeaderWorkerSetWorkloadType}"
  by (auto simp: new_workload_reconciler_def)

lemma dispatch_reconcile_calls:
  "new_workload_reconciler lib c attempts w = Inr ops \<Longrightarrow> only_calls (role_call g r) (wo_reconcile ops g r)"
  by (erule new_workload_reconciler_cases)
    (simp_all add: sts.reconcile_calls deployment.reconcile_calls lws.reconcile_calls)

lemma dispatch_ready_reads:
  "new_workload_reconciler lib c attempts w = Inr ops \<Longrightarrow> only_calls is_read (wo_ready ops g r)"
  by (erule new_workload_reconciler_cases) (simp_all add: sts.ready_reads deployment.ready_reads lws.ready_reads)

lemma dispatch_ready_true:
  "new_workload_reconciler lib c attempts w = Inr ops \<Longrightarrow> wo_ready ops g r s = (Inr True, t) \<Longrightarrow>
   \<exists>q. calls t = calls s @ [q] \<and> read_ready g r q"
  by (erule new_workload_reconciler_cases) (simp_all add: sts.ready_true deployment.ready_true lws.ready_true)

lemma dispatch_ready_false:
  "new_workload_reconciler lib c attempts w = Inr ops \<Longrightarrow> wo_ready ops g r s = (Inr False, t) \<Longrightarrow>
   \<exists>q. calls t = calls s @ [q] \<and> read_waiting g r q"
  by (erule new_workload_reconciler_cases) (simp_all add: sts.ready_false deployment.ready_false lws.ready_false)

lemma dispatch_status_reads:
  "new_workload_reconciler lib c attempts w = Inr ops \<Longrightarrow> only_calls is_read (wo_role_status ops g r)"
  by (erule new_workload_reconciler_cases) (simp_all add: sts.status_reads deployment.status_reads lws.status_reads)

lemma dispatch_status_found:
  "new_workload_reconciler lib c attempts w = Inr ops \<Longrightarrow> wo_role_status ops g r s = (Inr (st, upd), t) \<Longrightarrow>
   \<exists>q. calls t = calls s @ [q] \<and> read_found g r q"
  by (erule new_workload_reconciler_cases) (auto dest: sts.status_found deployment.status_found lws.status_found)

lemma dispatch_status_name:
  "new_workload_reconciler lib c attempts w = Inr ops \<Longrightarrow> wo_role_status ops g r s = (Inr (st, upd), t) \<Longrightarrow>
   st_name st = r_name r"
  by (erule new_workload_reconciler_cases) (auto dest: sts.status_name deployment.status_name lws.status_name)

lemma dispatch_status_kept:
  "new_workload_reconciler lib c attempts w = Inr ops \<Longrightarrow> wo_role_status ops g r s = (Inr (st, False), t) \<Longrightarrow>
   st \<in> set (gs_role_statuses (g_status g))"
  by (erule new_workload_reconciler_cases) (auto dest: sts.status_kept deployment.status_kept lws.status_kept)

lemma dispatch_recreate_calls:
  assumes "new_workload_reconciler lib c attempts w = Inr ops"
  shows "only_calls (recreate_call (workload_key g r) (\<lambda>q. \<exists>ob. q = CDelete ob)) (wo_recreate ops g r)"
  using assms
proof (cases rule: new_workload_reconciler_cases)
  case 1
  then show ?thesis by (auto simp: recreate_call_def intro!: only_calls_mono [OF deployment.recreate_calls])
next
  case 2
  then show ?thesis by (auto simp: recreate_call_def intro!: only_calls_mono [OF sts.recreate_calls])
next
  case 3
  then show ?thesis by (auto simp: recreate_call_def intro!: only_calls_mono [OF lws.recreate_calls])
qed

lemma dispatch_recreate_done:
  "new_workload_reconciler lib c attempts w = Inr ops \<Longrightarrow> wo_recreate ops g r s = (Inr (), t) \<Longrightarrow>
   \<exists>cs. calls t = calls s @ cs \<and> recreated (workload_key g r) cs"
  by (erule new_workload_reconciler_cases)
    (simp_all add: sts.recreate_done deployment.recreate_done lws.recreate_done)

section \<open>The dependency check\<close>

lemma dependencies_ready_reads: "only_calls is_read (dependencies_ready lib c attempts g ds)"
proof (induction ds)
  case (Cons d ds)
  show ?case
    unfolding dependencies_ready.simps
    by (intro only_calls_callI [OF only_calls_return(3)] only_calls_callI [OF dispatch_ready_reads]
        only_calls_if only_calls_return Cons.IH) auto
qed simp

lemma dependencies_ready_true:
  assumes "dependencies_ready lib c attempts g ds s = (Inr True, t)"
  shows "\<exists>cs. calls t = calls s @ cs \<and>
    list_all2 (\<lambda>d q. \<exists>role. get_role g d = Inr role \<and> read_ready g role q) ds cs"
  using assms
proof (induction ds arbitrary: s)
  case (Cons d ds)
  from Cons.prems obtain role ops u where role: "get_role g d = Inr role"
    and ops: "new_workload_reconciler lib c attempts (r_workload role) = Inr ops"
    and ready: "wo_ready ops g role s = (Inr True, u)"
    and rest: "dependencies_ready lib c attempts g ds u = (Inr True, t)"
    by (auto simp: call_eq_Inr_iff split: if_splits)
  from dispatch_ready_true [OF ops ready] obtain q where q: "calls u = calls s @ [q]" "read_ready g role q"
    by blast
  from Cons.IH [OF rest] obtain cs where cs: "calls t = calls u @ cs"
    and all: "list_all2 (\<lambda>d q. \<exists>role. get_role g d = Inr role \<and> read_ready g role q) ds cs" by blast
  from q role all have "list_all2 (\<lambda>d q. \<exists>role. get_role g d = Inr role \<and> read_ready g role q) (d # ds) (q # cs)"
    by (simp add: list_all2_Cons)
  with q(1) cs show ?case by (intro exI [of _ "q # cs"]) simp
qed simp

lemma dependencies_ready_false:
  assumes "dependencies_ready lib c attempts g ds s = (Inr False, t)"
  shows "\<exists>d \<in> set ds. \<exists>role cs q. get_role g d = Inr role \<and> calls t = calls s @ cs @ [q] \<and>
    list_all is_read cs \<and> read_waiting g role q"
  using assms
proof (induction ds arbitrary: s)
  case (Cons d ds)
  from Cons.prems obtain role ops b u where role: "get_role g d = Inr role"
    and ops: "new_workload_reconciler lib c attempts (r_workload role) = Inr ops"
    and ready: "wo_ready ops g role s = (Inr b, u)"
    and rest: "(if \<not> b then return_ok False else dependencies_ready lib c attempts g ds) u = (Inr False, t)"
    by (auto simp: call_eq_Inr_iff)
  show ?case
  proof (cases b)
    case True
    from dispatch_ready_true [OF ops ready [unfolded eqTrueI [OF True]]] obtain q
      where q: "calls u = calls s @ [q]" "read_ready g role q" by blast
    then have "is_read q" by (auto simp: read_ready_def)
    moreover from rest True have "dependencies_ready lib c attempts g ds u = (Inr False, t)" by simp
    from Cons.IH [OF this] obtain e role' cs q' where "e \<in> set ds" "get_role g e = Inr role'"
      "calls t = calls u @ cs @ [q']" "list_all is_read cs" "read_waiting g role' q'" by blast
    ultimately show ?thesis using q(1)
      by (intro bexI [of _ e] exI [of _ role'] exI [of _ "q # cs"] exI [of _ q']) simp_all
  next
    case False
    then have "b = False" by simp
    from dispatch_ready_false [OF ops ready [unfolded this]] obtain q
      where "calls u = calls s @ [q]" "read_waiting g role q" by blast
    with role rest False show ?thesis
      by (intro bexI [of _ d] exI [of _ role] exI [of _ "[]"] exI [of _ q]) simp_all
  qed
qed simp

section \<open>Properties\<close>

text \<open>A role whose dependency check succeeds was gated on every dependency: the check read the
  workload of each one, in the order the role lists them, each named a role of the group, and each
  workload read had all its replicas ready. The check requests nothing else.\<close>

theorem dependency_check_sound:
  assumes "fst (check_dependency_ready lib c attempts g r s) = Inr True"
  shows "\<exists>cs. calls (snd (check_dependency_ready lib c attempts g r s)) = calls s @ cs \<and>
    list_all2 (\<lambda>d q. \<exists>role. get_role g d = Inr role \<and> read_ready g role q) (r_dependencies r) cs"
  using assms dependencies_ready_true [of lib c attempts g "r_dependencies r" s]
  by (cases "dependencies_ready lib c attempts g (r_dependencies r) s") (simp add: check_dependency_ready_def)

theorem dependency_check_sound_witness:
  "\<exists>q. calls (snd (check_dependency_ready sample_lib store_client 1
      (sample_rbg [sample_role ''a'' [] 3, sample_role ''b'' [''a''] 1]) (sample_role ''b'' [''a''] 1)
      (run_on [ObjSts (sample_sts 3 0 3)]))) = [q] \<and>
    read_ready (sample_rbg [sample_role ''a'' [] 3, sample_role ''b'' [''a''] 1]) (sample_role ''a'' [] 3) q"
proof -
  let ?g = "sample_rbg [sample_role ''a'' [] 3, sample_role ''b'' [''a''] 1]"
  let ?r = "sample_role ''b'' [''a''] 1"
  have "fst (check_dependency_ready sample_lib store_client 1 ?g ?r (run_on [ObjSts (sample_sts 3 0 3)])) = Inr True"
    by code_simp
  from dependency_check_sound [OF this] show ?thesis
    by (auto simp: run_on_def list_all2_Cons1 get_role_def sample_rbg_def sample_role_def)
qed

text \<open>Whatever its workload type, reconciling a role writes only objects that have the name of the
  role's workload and are in the group's namespace, whatever the API server answers and however the
  reconcile ends.\<close>

theorem reconcile_scope:
  assumes "new_workload_reconciler lib c attempts (r_workload r) = Inr ops"
  shows "\<exists>cs. calls (snd (wo_reconcile ops g r s)) = calls s @ cs \<and> list_all (role_call g r) cs"
  using only_callsD [OF dispatch_reconcile_calls [OF assms], of g r s] by (metis prod.collapse)

theorem reconcile_scope_witness:
  "\<exists>ops. new_workload_reconciler sample_lib store_client 1 (r_workload (sample_role ''a'' [] 3)) = Inr ops \<and>
     list_all (role_call (sample_rbg [sample_role ''a'' [] 3]) (sample_role ''a'' [] 3))
       (calls (snd (wo_reconcile ops (sample_rbg [sample_role ''a'' [] 3]) (sample_role ''a'' [] 3) (run_on []))))"
proof -
  have "new_workload_reconciler sample_lib store_client 1 (r_workload (sample_role ''a'' [] 3))
      = Inr (sts_ops sample_lib store_client 1)"
    by (simp add: new_workload_reconciler_def workload_string_def sample_role_def workload_type_defs)
  with reconcile_scope [OF this, of "sample_rbg [sample_role ''a'' [] 3]" "run_on []"] show ?thesis
    by (auto simp: run_on_def)
qed

end
