(* ===== verification/Group_Status.thy ===== *)
theory Group_Status
  imports Workload_Interface Sample_Cluster
begin

text \<open>
  The status of a group: the conditions (\<open>setCondition\<close>, \<open>restartConditionTrue\<close> of
  \<open>pod_controller.go\<close>), the role statuses and the ready condition (\<open>updateRBGStatus\<close> of
  \<open>rolebasedgroup_controller.go\<close>) and the apply configuration that carries them
  (\<open>rolebasedgroup_apply_configuration.go\<close>).

  The code changes \<open>rbg.Status\<close> in place; here the changed group is a value that the caller passes
  on where the code reads it again.
\<close>

section \<open>Conditions\<close>

definition set_condition :: "condition \<Rightarrow> condition list \<Rightarrow> condition list" where
  "set_condition nc cs =
     (let cs' = map (\<lambda>cur. if cd_type nc = cd_type cur \<and> cd_status nc \<noteq> cd_status cur then nc else cur) cs
      in if list_ex (\<lambda>cur. cd_type nc = cd_type cur) cs then cs' else cs' @ [nc])"

definition restart_condition_true :: "rbg_status \<Rightarrow> bool" where
  "restart_condition_true st =
     (case find (\<lambda>cd. cd_type cd = RoleBasedGroupRestartInProgress) (gs_conditions st) of
        None \<Rightarrow> False
      | Some cd \<Rightarrow> cd_status cd = ConditionTrue)"

definition with_condition :: "condition \<Rightarrow> rbg \<Rightarrow> rbg" where
  "with_condition nc g = g\<lparr>g_status := (g_status g)\<lparr>gs_conditions := set_condition nc (gs_conditions (g_status g))\<rparr>\<rparr>"

section \<open>The apply configuration\<close>

definition role_based_group :: "string \<Rightarrow> string \<Rightarrow> string \<Rightarrow> string \<Rightarrow> patch" where
  "role_based_group name namespace kind_name api_version =
     PatchRbgStatus (namespace, name) kind_name api_version [] []"

fun with_status :: "condition list \<Rightarrow> role_status list \<Rightarrow> patch \<Rightarrow> patch" where
  "with_status conds sts (PatchRbgStatus key k v _ _) = PatchRbgStatus key k v conds sts"
| "with_status conds sts p = p"

definition patch_group_status :: "'w client \<Rightarrow> rbg \<Rightarrow> ('w, unit) act" where
  "patch_group_status c g =
     patch_object_apply_configuration c
       (Inr (with_status (gs_conditions (g_status g)) (gs_role_statuses (g_status g))
          (role_based_group (g_name g) (g_namespace g) (g_kind g) (g_api_version g)))) PatchStatus"

definition time_now :: "'w client \<Rightarrow> ('w, nat) act" where
  "time_now c s = (Inr (cl_now c (world s)), s)"

section \<open>Role statuses\<close>

text \<open>One iteration of the outer loop of \<open>updateRBGStatus\<close>: the first status of the role is replaced
  when a count differs, and a role without one gets its status appended.\<close>

primrec put_role_status :: "role_status \<Rightarrow> role_status list \<Rightarrow> role_status list" where
  "put_role_status n [] = [n]"
| "put_role_status n (old # os) =
     (if st_name n = st_name old then
        (if st_replicas n \<noteq> st_replicas old \<or> st_ready_replicas n \<noteq> st_ready_replicas old then n else old) # os
      else old # put_role_status n os)"

definition merge_role_statuses :: "role_status list \<Rightarrow> role_status list \<Rightarrow> role_status list" where
  "merge_role_statuses news olds = fold put_role_status news olds"

definition all_ready :: "role_status list \<Rightarrow> bool" where
  "all_ready sts = list_all (\<lambda>st. st_ready_replicas st = st_replicas st) sts"

definition ready_condition :: "bool \<Rightarrow> nat \<Rightarrow> condition" where
  "ready_condition rbg_ready now =
     (if rbg_ready
      then \<lparr>cd_type = RoleBasedGroupReady, cd_status = ConditionTrue, cd_reason = ''AllRolesReady'',
        cd_message = ''All roles are ready'', cd_last_transition = now\<rparr>
      else \<lparr>cd_type = RoleBasedGroupReady, cd_status = ConditionFalse, cd_reason = ''RoleNotReady'',
        cd_message = ''Not all role ready'', cd_last_transition = now\<rparr>)"

definition updated_status :: "role_status list \<Rightarrow> nat \<Rightarrow> rbg \<Rightarrow> rbg" where
  "updated_status sts now g =
     (let h = with_condition (ready_condition (all_ready sts) now) g
      in h\<lparr>g_status := (g_status h)
        \<lparr>gs_role_statuses := merge_role_statuses sts (gs_role_statuses (g_status h))\<rparr>\<rparr>)"

definition update_rbg_status :: "'w client \<Rightarrow> rbg \<Rightarrow> role_status list \<Rightarrow> ('w, unit) act" where
  "update_rbg_status c g sts =
     call (time_now c) (\<lambda>now. patch_group_status c (updated_status sts now g))"

section \<open>Lemmas\<close>

definition refreshed :: "condition \<Rightarrow> condition \<Rightarrow> condition" where
  "refreshed nc cur = (if cd_type nc = cd_type cur \<and> cd_status nc \<noteq> cd_status cur then nc else cur)"

lemma refreshed_type [simp]: "cd_type (refreshed nc cur) = cd_type cur"
  by (simp add: refreshed_def)

lemma set_condition_known: "cd_type nc \<in> cd_type ` set cs \<Longrightarrow> set_condition nc cs = map (refreshed nc) cs"
  by (force simp: set_condition_def Let_def list_ex_iff refreshed_def [abs_def])

lemma set_condition_unknown:
  assumes "cd_type nc \<notin> cd_type ` set cs"
  shows "set_condition nc cs = cs @ [nc]"
proof -
  have none: "\<not> list_ex (\<lambda>cur. cd_type nc = cd_type cur) cs" using assms by (force simp: list_ex_iff)
  have "map (refreshed nc) cs = cs" using assms by (intro map_idI) (force simp: refreshed_def)
  then show ?thesis using none unfolding set_condition_def Let_def refreshed_def [abs_def] by simp
qed

lemma set_condition_types:
  "map cd_type (set_condition nc cs) =
     (if cd_type nc \<in> cd_type ` set cs then map cd_type cs else map cd_type cs @ [cd_type nc])"
  by (simp add: set_condition_known set_condition_unknown comp_def)

lemma refreshed_other: "cd_type cd \<noteq> cd_type nc \<Longrightarrow> refreshed nc cd = cd"
  by (simp add: refreshed_def)

lemma refreshed_same: "cd_type cd = cd_type nc \<Longrightarrow> cd_status (refreshed nc cd) = cd_status nc"
  by (simp add: refreshed_def)

lemma refreshed_cases: "refreshed nc cd = nc \<or> refreshed nc cd = cd"
  by (simp add: refreshed_def)

lemma set_condition_other:
  assumes "cd \<in> set cs" and "cd_type cd \<noteq> cd_type nc"
  shows "cd \<in> set (set_condition nc cs)"
proof (cases "cd_type nc \<in> cd_type ` set cs")
  case True
  have "refreshed nc cd \<in> refreshed nc ` set cs" using assms(1) by (rule imageI)
  with True assms(2) show ?thesis by (simp add: set_condition_known refreshed_other)
qed (simp add: set_condition_unknown assms(1))

lemma set_condition_from:
  assumes "cd \<in> set (set_condition nc cs)"
  shows "(cd = nc \<or> cd \<in> set cs) \<and> (cd_type cd = cd_type nc \<longrightarrow> cd_status cd = cd_status nc)"
proof (cases "cd_type nc \<in> cd_type ` set cs")
  case True
  with assms obtain cur where cur: "cur \<in> set cs" "cd = refreshed nc cur" by (auto simp: set_condition_known)
  with refreshed_cases [of nc cur] have "cd = nc \<or> cd \<in> set cs" by auto
  moreover have "cd_type cd = cd_type nc \<longrightarrow> cd_status cd = cd_status nc"
    unfolding cur(2) refreshed_type by (blast intro: refreshed_same)
  ultimately show ?thesis by blast
next
  case False
  then have "cd \<in> set cs \<or> cd = nc" using assms by (simp add: set_condition_unknown disj_commute)
  moreover have "cd_type cd \<noteq> cd_type nc" if "cd \<in> set cs" using False that by (metis imageI)
  ultimately show ?thesis by blast
qed

lemma set_condition_new: "cd_type nc \<in> cd_type ` set (set_condition nc cs)"
  using set_condition_types [of nc cs] by (metis image_set in_set_conv_decomp)

lemma set_condition_idem: "set_condition nc (set_condition nc cs) = set_condition nc cs"
proof -
  have "refreshed nc cd = cd" if "cd \<in> set (set_condition nc cs)" for cd
    using set_condition_from [OF that] by (metis refreshed_def)
  then show ?thesis
    using set_condition_known [OF set_condition_new [of nc cs]] by (simp add: map_idI)
qed

lemma find_refreshed:
  "find (\<lambda>cd. cd_type cd = ty) (map (refreshed nc) cs) = map_option (refreshed nc) (find (\<lambda>cd. cd_type cd = ty) cs)"
  by (induction cs) auto

lemma find_append: "find P (xs @ ys) = (case find P xs of None \<Rightarrow> find P ys | Some x \<Rightarrow> Some x)"
  by (induction xs) auto

lemma set_condition_lookup:
  "find (\<lambda>cd. cd_type cd = ty) (set_condition nc cs) =
     (case find (\<lambda>cd. cd_type cd = ty) cs of
        None \<Rightarrow> if ty = cd_type nc then Some nc else None
      | Some cd \<Rightarrow> Some (refreshed nc cd))"
proof (cases "cd_type nc \<in> cd_type ` set cs")
  case True
  then have "find (\<lambda>cd. cd_type cd = cd_type nc) cs \<noteq> None" by (auto simp: find_None_iff)
  then show ?thesis by (auto simp: set_condition_known [OF True] find_refreshed split: option.splits)
next
  case False
  have "refreshed nc cd = cd" if "find (\<lambda>cd. cd_type cd = ty) cs = Some cd" for cd
  proof -
    have "cd \<in> set cs" using that by (auto simp: find_Some_iff)
    then have "cd_type cd \<noteq> cd_type nc" using False by (metis imageI)
    then show ?thesis by (rule refreshed_other)
  qed
  then show ?thesis by (auto simp: set_condition_unknown [OF False] find_append split: option.splits)
qed

text \<open>The list of role statuses as a map from role names.\<close>

definition status_map :: "role_status list \<Rightarrow> (string \<rightharpoonup> role_status)" where
  "status_map sts = map_of (map (\<lambda>st. (st_name st, st)) sts)"

lemma status_map_find: "status_map sts n = find (\<lambda>st. st_name st = n) sts"
  by (induction sts) (auto simp: status_map_def)

lemma put_role_status_map: "status_map (put_role_status n os) = (status_map os)(st_name n \<mapsto> n)"
  by (induction os) (auto simp: status_map_def fun_eq_iff)

lemma put_role_status_names:
  "map st_name (put_role_status n os) =
     (if st_name n \<in> st_name ` set os then map st_name os else map st_name os @ [st_name n])"
  by (induction os) auto

lemma put_role_status_distinct: "distinct (map st_name os) \<Longrightarrow> distinct (map st_name (put_role_status n os))"
  by (auto simp: put_role_status_names)

lemma merge_role_statuses_map: "status_map (merge_role_statuses news olds) = status_map olds ++ status_map (rev news)"
proof (induction news arbitrary: olds)
  case (Cons n news)
  have "status_map (merge_role_statuses (n # news) olds) = (status_map olds)(st_name n \<mapsto> n) ++ status_map (rev news)"
    using Cons.IH [of "put_role_status n olds"] by (simp add: merge_role_statuses_def put_role_status_map fun_upd_def)
  also have "\<dots> = status_map olds ++ status_map (rev (n # news))"
    by (auto simp: status_map_def map_add_def fun_eq_iff split: option.splits)
  finally show ?case .
qed (simp add: merge_role_statuses_def status_map_def)

lemma merge_role_statuses_distinct:
  "distinct (map st_name olds) \<Longrightarrow> distinct (map st_name (merge_role_statuses news olds))"
  by (induction news arbitrary: olds) (simp_all add: merge_role_statuses_def put_role_status_distinct)

lemma get_role_status_map:
  "n \<noteq> [] \<Longrightarrow> get_role_status g n = (case status_map (gs_role_statuses (g_status g)) n of
     None \<Rightarrow> (zero_role_status, False) | Some st \<Rightarrow> (st, True))"
  by (simp add: get_role_status_def status_map_find)

lemma updated_status_roles:
  "gs_role_statuses (g_status (updated_status sts now g)) = merge_role_statuses sts (gs_role_statuses (g_status g))"
  by (simp add: updated_status_def with_condition_def Let_def)

lemma patch_group_status_run:
  assumes "patch_group_status c g s = (r, t)"
  shows "calls t = calls s @ [CApplyStatus (PatchRbgStatus (g_namespace g, g_name g) (g_kind g) (g_api_version g)
     (gs_conditions (g_status g)) (gs_role_statuses (g_status g)))]"
  using assms
  by (auto simp: patch_group_status_def patch_object_apply_configuration_def role_based_group_def
      do_apply_status_def log_call_def split: prod.splits)

lemma updated_status_conditions:
  "gs_conditions (g_status (updated_status sts now g)) =
     set_condition (ready_condition (all_ready sts) now) (gs_conditions (g_status g))"
  by (simp add: updated_status_def with_condition_def Let_def)

lemma status_map_member:
  assumes "distinct (map st_name sts)" and "st \<in> set sts"
  shows "status_map (rev sts) (st_name st) = Some st"
proof -
  have "distinct (map fst (map (\<lambda>st. (st_name st, st)) (rev sts)))"
    using assms(1) by (simp add: comp_def rev_map [symmetric])
  then show ?thesis using assms(2) by (simp add: status_map_def map_of_eq_Some_iff)
qed

section \<open>Properties\<close>

text \<open>\<open>setCondition\<close> keeps one condition per type and changes no condition of another type. The
  condition of the new type becomes the new one when there was none or its status differs, and
  stays as it was, transition time included, when the status is the same.\<close>

theorem set_condition_result:
  assumes "distinct (map cd_type cs)"
  shows "distinct (map cd_type (set_condition nc cs)) \<and>
    (\<forall>ty. find (\<lambda>cd. cd_type cd = ty) (set_condition nc cs) =
       (if ty \<noteq> cd_type nc then find (\<lambda>cd. cd_type cd = ty) cs
        else case find (\<lambda>cd. cd_type cd = ty) cs of
          None \<Rightarrow> Some nc
        | Some cd \<Rightarrow> Some (if cd_status cd = cd_status nc then cd else nc)))"
proof (intro conjI allI)
  show "distinct (map cd_type (set_condition nc cs))"
    using assms by (simp add: set_condition_types)
  fix ty
  have ty: "cd_type cd = ty" if "find (\<lambda>cd. cd_type cd = ty) cs = Some cd" for cd
    using that by (auto simp: find_Some_iff)
  show "find (\<lambda>cd. cd_type cd = ty) (set_condition nc cs) =
       (if ty \<noteq> cd_type nc then find (\<lambda>cd. cd_type cd = ty) cs
        else case find (\<lambda>cd. cd_type cd = ty) cs of
          None \<Rightarrow> Some nc
        | Some cd \<Rightarrow> Some (if cd_status cd = cd_status nc then cd else nc))"
  proof (cases "find (\<lambda>cd. cd_type cd = ty) cs")
    case (Some cd)
    with ty [OF Some] show ?thesis by (cases "ty = cd_type nc") (simp_all add: set_condition_lookup refreshed_def)
  qed (auto simp: set_condition_lookup)
qed

definition sample_condition :: "string \<Rightarrow> condition_status \<Rightarrow> nat \<Rightarrow> condition" where
  "sample_condition ty st now = \<lparr>cd_type = ty, cd_status = st, cd_reason = [], cd_message = [],
     cd_last_transition = now\<rparr>"

theorem set_condition_result_witness:
  "find (\<lambda>cd. cd_type cd = ''Ready'') (set_condition (sample_condition ''Ready'' ConditionTrue 5)
     [sample_condition ''Ready'' ConditionFalse 1, sample_condition ''X'' ConditionTrue 2])
     = Some (sample_condition ''Ready'' ConditionTrue 5)"
  using set_condition_result [of "[sample_condition ''Ready'' ConditionFalse 1, sample_condition ''X'' ConditionTrue 2]"
      "sample_condition ''Ready'' ConditionTrue 5"]
  by (simp add: sample_condition_def)

text \<open>C19: The loops of \<open>updateRBGStatus\<close> refine the update of a map from role names to statuses: the
  new statuses override the old ones role by role (the last one wins), no other role's status
  changes, and the ready condition says whether every new status has all its replicas ready.\<close>

theorem updated_status_refines:
  "status_map (gs_role_statuses (g_status (updated_status sts now g))) =
     status_map (gs_role_statuses (g_status g)) ++ status_map (rev sts) \<and>
   (\<exists>cd. find (\<lambda>cd. cd_type cd = RoleBasedGroupReady) (gs_conditions (g_status (updated_status sts now g))) = Some cd \<and>
     cd_status cd = (if all_ready sts then ConditionTrue else ConditionFalse))"
proof
  show "status_map (gs_role_statuses (g_status (updated_status sts now g))) =
     status_map (gs_role_statuses (g_status g)) ++ status_map (rev sts)"
    by (simp add: updated_status_roles merge_role_statuses_map)
  have ty: "cd_type cd = RoleBasedGroupReady" if "find (\<lambda>cd. cd_type cd = RoleBasedGroupReady) cs = Some cd" for cs cd
    using that by (auto simp: find_Some_iff)
  show "\<exists>cd. find (\<lambda>cd. cd_type cd = RoleBasedGroupReady) (gs_conditions (g_status (updated_status sts now g))) = Some cd \<and>
     cd_status cd = (if all_ready sts then ConditionTrue else ConditionFalse)"
    unfolding updated_status_conditions set_condition_lookup
    by (auto simp: ready_condition_def refreshed_same dest: ty split: option.splits)
qed

text \<open>The status update settles: once the statuses of a reconcile are in the group, constructing a
  role's status again from the same workload counts yields the same status and asks for no update.\<close>

theorem status_update_settles:
  assumes "distinct (map st_name sts)" and "st \<in> set sts" and "st_name st = r_name r" and "r_name r \<noteq> []"
  shows "role_status_of (updated_status sts now g) r (st_replicas st) (st_ready_replicas st) = (st, False)"
proof -
  have "status_map (gs_role_statuses (g_status (updated_status sts now g))) (r_name r) = Some st"
    using status_map_member [OF assms(1,2)] assms(3)
    by (simp add: updated_status_roles merge_role_statuses_map map_add_def)
  then show ?thesis using assms(4) by (simp add: role_status_of_def get_role_status_map)
qed

theorem status_update_settles_witness:
  "role_status_of (updated_status [\<lparr>st_name = ''b'', st_ready_replicas = 1, st_replicas = 2\<rparr>,
       \<lparr>st_name = ''a'', st_ready_replicas = 3, st_replicas = 3\<rparr>] 7 (sample_rbg [sample_role ''a'' [] 3]))
     (sample_role ''a'' [] 3) 3 3 = (\<lparr>st_name = ''a'', st_ready_replicas = 3, st_replicas = 3\<rparr>, False)"
  using status_update_settles [of "[\<lparr>st_name = ''b'', st_ready_replicas = 1, st_replicas = 2\<rparr>,
       \<lparr>st_name = ''a'', st_ready_replicas = 3, st_replicas = 3\<rparr>]" "\<lparr>st_name = ''a'', st_ready_replicas = 3, st_replicas = 3\<rparr>"
      "sample_role ''a'' [] 3" 7 "sample_rbg [sample_role ''a'' [] 3]"]
  by (simp add: sample_role_def)

end
