(* ===== verification/Event_Filters.thy ===== *)
theory Event_Filters
  imports Equality Group_Status
begin

text \<open>
  Which events cause a reconcile: the predicates of the three controllers (\<open>RBGPredicate\<close>,
  \<open>WorkloadPredicate\<close> and \<open>hasValidOwnerRef\<close> of \<open>rolebasedgroup_controller.go\<close>,
  \<open>RBGScalingAdapterPredicate\<close>, the pod predicate of \<open>pod_controller.go\<close>) and \<open>podToRBG\<close>, which
  decides whether a pod event restarts a group. The objects of an event may be nil.
\<close>

section \<open>Events\<close>

datatype event =
    Create_Event "obj option"
  | Update_Event "obj option" "obj option"
  | Delete_Event "obj option"
  | Generic_Event "obj option"

definition as_rbg :: "obj \<Rightarrow> rbg option" where
  "as_rbg ob = (case ob of ObjRbg g \<Rightarrow> Some g | _ \<Rightarrow> None)"

definition as_adapter :: "obj \<Rightarrow> scaling_adapter option" where
  "as_adapter ob = (case ob of ObjAdapter a \<Rightarrow> Some a | _ \<Rightarrow> None)"

text \<open>\<open>x, ok := obj.(*T)\<close>: a nil object is not ok.\<close>

definition assert_type :: "(obj \<Rightarrow> 'a option) \<Rightarrow> obj option \<Rightarrow> 'a option" where
  "assert_type sel ob = Option.bind ob sel"

text \<open>\<open>reflect.DeepEqual\<close> of two group specs. Maps are compared as maps; they occur in the metadata
  of the pod templates only.\<close>

definition meta_deep_equal :: "object_meta \<Rightarrow> object_meta \<Rightarrow> bool" where
  "meta_deep_equal m n \<longleftrightarrow> deep_equal_map (om_labels m) (om_labels n) \<and>
     deep_equal_map (om_annotations m) (om_annotations n) \<and>
     m\<lparr>om_labels := None, om_annotations := None\<rparr> = n\<lparr>om_labels := None, om_annotations := None\<rparr>"

definition role_deep_equal :: "role_spec \<Rightarrow> role_spec \<Rightarrow> bool" where
  "role_deep_equal r q \<longleftrightarrow> meta_deep_equal (pt_meta (r_template r)) (pt_meta (r_template q)) \<and>
     r\<lparr>r_template := (r_template r)\<lparr>pt_meta := empty_meta\<rparr>\<rparr> = q\<lparr>r_template := (r_template q)\<lparr>pt_meta := empty_meta\<rparr>\<rparr>"

definition spec_deep_equal :: "rbg_spec \<Rightarrow> rbg_spec \<Rightarrow> bool" where
  "spec_deep_equal a b \<longleftrightarrow> list_all2 role_deep_equal (gp_roles a) (gp_roles b) \<and>
     gp_pod_group_policy a = gp_pod_group_policy b"

section \<open>Predicates\<close>

fun rbg_predicate :: "event \<Rightarrow> bool" where
  "rbg_predicate (Create_Event ob) = (assert_type as_rbg ob \<noteq> None)"
| "rbg_predicate (Update_Event old new) =
     (case (assert_type as_rbg old, assert_type as_rbg new) of
        (Some g, Some h) \<Rightarrow> \<not> spec_deep_equal (g_spec g) (g_spec h)
      | _ \<Rightarrow> False)"
| "rbg_predicate (Delete_Event ob) = (assert_type as_rbg ob \<noteq> None)"
| "rbg_predicate (Generic_Event _) = False"

fun rbg_scaling_adapter_predicate :: "event \<Rightarrow> bool" where
  "rbg_scaling_adapter_predicate (Create_Event ob) = (assert_type as_adapter ob \<noteq> None)"
| "rbg_scaling_adapter_predicate (Update_Event old new) =
     (case (assert_type as_adapter old, assert_type as_adapter new) of
        (Some a, Some b) \<Rightarrow> ad_spec a \<noteq> ad_spec b
      | _ \<Rightarrow> False)"
| "rbg_scaling_adapter_predicate (Delete_Event ob) = (assert_type as_adapter ob \<noteq> None)"
| "rbg_scaling_adapter_predicate (Generic_Event _) = False"

definition has_set_name :: "pod \<Rightarrow> bool" where
  "has_set_name p \<longleftrightarrow> gm_get (sm_entries (om_labels (pd_meta p))) SetNameLabelKey \<noteq> None"

fun pod_predicate :: "event \<Rightarrow> bool" where
  "pod_predicate (Create_Event _) = False"
| "pod_predicate (Update_Event old new) =
     (case (assert_type as_pod old, assert_type as_pod new) of
        (Some p, Some q) \<Rightarrow> has_set_name p \<and> has_set_name q
      | _ \<Rightarrow> False)"
| "pod_predicate (Delete_Event ob) =
     (case assert_type as_pod ob of Some p \<Rightarrow> has_set_name p | None \<Rightarrow> False)"
| "pod_predicate (Generic_Event _) = False"

definition get_rbg_gvk :: gvk where
  "get_rbg_gvk = \<lparr>gvk_group = ''workloads.x-k8s.io'', gvk_version = ''v1alpha1'', gvk_kind = ''RoleBasedGroup''\<rparr>"

definition has_valid_owner_ref :: "klib \<Rightarrow> obj \<Rightarrow> gvk \<Rightarrow> bool" where
  "has_valid_owner_ref lib ob target =
     (let refs = om_owners (obj_meta ob) in
      if refs = [] then False else check_owner_reference lib refs target)"

text \<open>The update predicate logs the new object before it checks it for nil, so a nil one panics.\<close>

fun workload_predicate :: "klib \<Rightarrow> event \<Rightarrow> bool res" where
  "workload_predicate lib (Create_Event _) = Inr False"
| "workload_predicate lib (Update_Event old new) =
     (case new of None \<Rightarrow> Inl (Panic NilDereference)
      | Some n \<Rightarrow>
          (case old of None \<Rightarrow> Inr False
           | Some ob \<Rightarrow>
               if \<not> has_valid_owner_ref lib ob get_rbg_gvk \<or> \<not> has_valid_owner_ref lib n get_rbg_gvk then Inr False
               else (case workload_equal ob n of
                   Inr _ \<Rightarrow> Inr False
                 | Inl e \<Rightarrow> if is_panic e then Inl e else Inr True)))"
| "workload_predicate lib (Delete_Event ob) =
     (case ob of None \<Rightarrow> Inr False | Some x \<Rightarrow> Inr (has_valid_owner_ref lib x get_rbg_gvk))"
| "workload_predicate lib (Generic_Event _) = Inr False"

section \<open>Pod events\<close>

definition pod_to_rbg :: "'w client \<Rightarrow> obj \<Rightarrow> ('w, nsname list) act" where
  "pod_to_rbg c ob =
     (case as_pod ob of None \<Rightarrow> return_ok []
      | Some pod \<Rightarrow>
         let rbg_name = sm_get (om_labels (pd_meta pod)) SetNameLabelKey;
             role_name = sm_get (om_labels (pd_meta pod)) SetRoleLabelKey in
         if rbg_name = [] then return_ok []
         else if \<not> container_restarted pod \<and> \<not> pod_deleted pod then return_ok []
         else handle (do_get c KRbg as_rbg (om_namespace (pd_meta pod), rbg_name)) (\<lambda>q.
           case q of Inl e \<Rightarrow> return_ok []
           | Inr g \<Rightarrow>
              if om_deletion (g_meta g) \<noteq> None then return_ok []
              else if restart_condition_true (g_status g) then return_ok []
              else if role_name = [] then return_ok []
              else (case get_role g role_name of Inl e \<Rightarrow> return_ok []
                | Inr role \<Rightarrow>
                    if r_restart_policy role \<noteq> RecreateRBGOnPodRestart then return_ok []
                    else return_ok [(g_namespace g, rbg_name)])))"

section \<open>Lemmas\<close>

lemma meta_deep_equal_refl:
  "gm_ok (sm_entries (om_labels m)) \<Longrightarrow> gm_ok (sm_entries (om_annotations m)) \<Longrightarrow> meta_deep_equal m m"
  by (simp add: meta_deep_equal_def deep_equal_map_refl)

definition templates_ok :: "rbg_spec \<Rightarrow> bool" where
  "templates_ok sp \<longleftrightarrow> list_all (\<lambda>r. gm_ok (sm_entries (om_labels (pt_meta (r_template r)))) \<and>
     gm_ok (sm_entries (om_annotations (pt_meta (r_template r))))) (gp_roles sp)"

lemma spec_deep_equal_refl: "templates_ok sp \<Longrightarrow> spec_deep_equal sp sp"
  by (auto simp: spec_deep_equal_def templates_ok_def role_deep_equal_def list_all_iff
      intro!: list.rel_refl_strong meta_deep_equal_refl)

lemma spec_deep_equal_roles:
  assumes "spec_deep_equal a b"
  shows "map r_name (gp_roles a) = map r_name (gp_roles b) \<and> map r_replicas (gp_roles a) = map r_replicas (gp_roles b)"
proof -
  have "r_name r = r_name q \<and> r_replicas r = r_replicas q" if "role_deep_equal r q" for r q
    using that by (cases r; cases q) (simp add: role_deep_equal_def)
  then show ?thesis using assms
    by (auto simp: spec_deep_equal_def list_all2_conv_all_nth intro!: nth_equalityI)
qed

lemma do_get_no_panic: "do_get c k sel key s = (Inl e, t) \<Longrightarrow> \<not> is_panic e"
  by (auto simp: do_get_def decode_def split: prod.splits sum.splits option.splits)

text \<open>The nil check of the update predicate comes too late for the new object.\<close>

lemma workload_predicate_nil_panics:
  "workload_predicate lib (Update_Event (Some ob) None) = Inl (Panic NilDereference)"
  by simp

definition restart_wanted :: "pod \<Rightarrow> rbg \<Rightarrow> bool" where
  "restart_wanted p g \<longleftrightarrow>
     om_deletion (g_meta g) = None \<and> \<not> restart_condition_true (g_status g) \<and>
     (\<exists>role. get_role g (sm_get (om_labels (pd_meta p)) SetRoleLabelKey) = Inr role \<and>
        r_restart_policy role = RecreateRBGOnPodRestart)"

lemma get_role_empty [simp]: "get_role g [] = Inl RoleNameEmpty"
  by (simp add: get_role_def)

lemma restart_request:
  assumes "do_get c KRbg as_rbg (om_namespace (pd_meta p), sm_get (om_labels (pd_meta p)) SetNameLabelKey) s = (Inr g, t)"
    and "sm_get (om_labels (pd_meta p)) SetNameLabelKey \<noteq> []" and "container_restarted p \<or> pod_deleted p"
  shows "pod_to_rbg c (ObjPod p) s = (Inr (if restart_wanted p g
     then [(g_namespace g, sm_get (om_labels (pd_meta p)) SetNameLabelKey)] else []), t)"
  using assms
  by (cases "get_role g (sm_get (om_labels (pd_meta p)) SetRoleLabelKey)")
    (auto simp: pod_to_rbg_def as_pod_def handle_def Let_def restart_wanted_def return_ok_def)

lemma restart_request_none:
  assumes "\<And>g t. do_get c KRbg as_rbg (om_namespace (pd_meta p), sm_get (om_labels (pd_meta p)) SetNameLabelKey) s \<noteq> (Inr g, t)
      \<or> sm_get (om_labels (pd_meta p)) SetNameLabelKey = [] \<or> \<not> container_restarted p \<and> \<not> pod_deleted p"
  shows "fst (pod_to_rbg c (ObjPod p) s) = Inr []"
proof -
  let ?key = "(om_namespace (pd_meta p), sm_get (om_labels (pd_meta p)) SetNameLabelKey)"
  obtain q u where get: "do_get c KRbg as_rbg ?key s = (q, u)" by fastforce
  show ?thesis
  proof (cases q)
    case (Inl e)
    with get do_get_no_panic [of c KRbg as_rbg ?key s e u] show ?thesis
      by (auto simp: pod_to_rbg_def as_pod_def handle_def Let_def return_ok_def)
  next
    case (Inr g)
    with get assms [of g u] show ?thesis by (auto simp: pod_to_rbg_def as_pod_def Let_def return_ok_def)
  qed
qed

section \<open>Properties\<close>

text \<open>C23: A pod event restarts a group exactly when the pod carries a group name, one of its containers
  restarted or it was deleted, the group can be read, is not being deleted and is not restarting
  already, and the pod's role asks for it. The request then names the group, and the decision never
  fails.\<close>

theorem restart_decision:
  assumes "labels = om_labels (pd_meta p)" and "key = (om_namespace (pd_meta p), sm_get labels SetNameLabelKey)"
  shows "\<exists>reqs. fst (pod_to_rbg c (ObjPod p) s) = Inr reqs \<and>
    (reqs \<noteq> [] \<longleftrightarrow> sm_get labels SetNameLabelKey \<noteq> [] \<and> (container_restarted p \<or> pod_deleted p) \<and>
       (\<exists>g t. do_get c KRbg as_rbg key s = (Inr g, t) \<and> restart_wanted p g)) \<and>
    (\<forall>q \<in> set reqs. snd q = sm_get labels SetNameLabelKey)"
proof (cases "sm_get labels SetNameLabelKey \<noteq> [] \<and> (container_restarted p \<or> pod_deleted p) \<and>
    (\<exists>g t. do_get c KRbg as_rbg key s = (Inr g, t))")
  case True
  then obtain g t where "do_get c KRbg as_rbg key s = (Inr g, t)" by blast
  with True restart_request [of c p s g t] assms show ?thesis by auto
next
  case False
  with assms have "fst (pod_to_rbg c (ObjPod p) s) = Inr []" by (intro restart_request_none) auto
  with False show ?thesis by auto
qed

definition restarted_pod :: pod where
  "restarted_pod = (sample_pod ''g-a'' 0 ''r1'' ConditionTrue)\<lparr>
     pd_meta := (sample_meta ''g-a-0'' ''uid-p'')\<lparr>om_labels := Some [(SetNameLabelKey, ''g''), (SetRoleLabelKey, ''a'')]\<rparr>,
     pd_statuses := [\<lparr>cs_name = ''main'', cs_restart_count = 1\<rparr>]\<rparr>"

definition restart_group :: rbg where
  "restart_group = sample_rbg [(sample_role ''a'' [] 1)\<lparr>r_restart_policy := RecreateRBGOnPodRestart\<rparr>]"

theorem restart_decision_witness:
  "fst (pod_to_rbg store_client (ObjPod restarted_pod) (run_on [ObjRbg restart_group])) \<noteq> Inr []"
proof -
  let ?labels = "om_labels (pd_meta restarted_pod)"
  let ?key = "(om_namespace (pd_meta restarted_pod), sm_get ?labels SetNameLabelKey)"
  have "fst (do_get store_client KRbg as_rbg ?key (run_on [ObjRbg restart_group])) = Inr restart_group" by code_simp
  then obtain t where "do_get store_client KRbg as_rbg ?key (run_on [ObjRbg restart_group]) = (Inr restart_group, t)"
    by (metis prod.collapse)
  moreover have "sm_get ?labels SetNameLabelKey \<noteq> []" and "container_restarted restarted_pod" by code_simp+
  moreover have "restart_wanted restarted_pod restart_group"
  proof -
    have "sm_get ?labels SetRoleLabelKey = ''a''" and "om_deletion (g_meta restart_group) = None"
      and "\<not> restart_condition_true (g_status restart_group)"
      and "get_role restart_group ''a'' = Inr ((sample_role ''a'' [] 1)\<lparr>r_restart_policy := RecreateRBGOnPodRestart\<rparr>)"
      by code_simp+
    then show ?thesis by (simp add: restart_wanted_def)
  qed
  ultimately show ?thesis using restart_decision [OF refl refl, of store_client restarted_pod "run_on [ObjRbg restart_group]"]
    by (metis Inr_inject)
qed

text \<open>An update of a group is reconciled when a role was added, removed, renamed or scaled, and not
  when only its status or metadata changed, so the controller's own status patches do not wake it.\<close>

theorem group_update_filter:
  assumes "templates_ok (g_spec g)"
  shows "\<not> rbg_predicate (Update_Event (Some (ObjRbg g)) (Some (ObjRbg (g\<lparr>g_meta := m, g_status := st\<rparr>)))) \<and>
    (map (\<lambda>r. (r_name r, r_replicas r)) (g_roles g) \<noteq> map (\<lambda>r. (r_name r, r_replicas r)) (g_roles h) \<longrightarrow>
       rbg_predicate (Update_Event (Some (ObjRbg g)) (Some (ObjRbg h))))"
  using assms spec_deep_equal_roles [of "g_spec g" "g_spec h"]
  by (auto simp: assert_type_def as_rbg_def spec_deep_equal_refl list_eq_iff_nth_eq)

theorem group_update_filter_witness:
  "rbg_predicate (Update_Event (Some (ObjRbg (sample_rbg [sample_role ''a'' [] 3])))
     (Some (ObjRbg (sample_rbg [sample_role ''a'' [] 4]))))"
proof -
  have "templates_ok (g_spec (sample_rbg [sample_role ''a'' [] 3]))" by code_simp
  from group_update_filter [OF this, of _ _ "sample_rbg [sample_role ''a'' [] 4]"] show ?thesis
    by (simp add: sample_rbg_def sample_role_def)
qed

text \<open>An update of a workload wakes the group exactly when both versions are owned by a group and the
  comparison finds a difference; creations never do, and a deletion does exactly for an owned
  workload.\<close>

theorem workload_filter:
  assumes "\<not> (\<exists>p. workload_equal old new = Inl (Panic p))"
  shows "workload_predicate lib (Update_Event (Some old) (Some new)) =
      Inr (has_valid_owner_ref lib old get_rbg_gvk \<and> has_valid_owner_ref lib new get_rbg_gvk \<and>
        workload_equal old new \<noteq> Inr ()) \<and>
    workload_predicate lib (Create_Event (Some new)) = Inr False \<and>
    workload_predicate lib (Delete_Event (Some old)) = Inr (has_valid_owner_ref lib old get_rbg_gvk)"
proof (cases "workload_equal old new")
  case (Inl e)
  with assms have "\<not> is_panic e" by (cases e) auto
  with Inl show ?thesis by simp
qed simp

definition owned_sts :: "int \<Rightarrow> statefulset" where
  "owned_sts n = (sample_sts 3 0 3)\<lparr>ss_ready_replicas := n,
     ss_meta := (ss_meta (sample_sts 3 0 3))\<lparr>om_owners := [rbg_controller_ref (sample_rbg [])]\<rparr>\<rparr>"

theorem workload_filter_witness:
  "workload_predicate sample_lib (Update_Event (Some (ObjSts (owned_sts 2))) (Some (ObjSts (owned_sts 3)))) = Inr True"
proof -
  have ne: "workload_equal (ObjSts (owned_sts 2)) (ObjSts (owned_sts 3)) = Inl (NotEqual ''ReadyReplicas not equal'')"
    by code_simp
  have "has_valid_owner_ref sample_lib (ObjSts (owned_sts 2)) get_rbg_gvk"
    and "has_valid_owner_ref sample_lib (ObjSts (owned_sts 3)) get_rbg_gvk" by code_simp+
  with workload_filter [of "ObjSts (owned_sts 2)" "ObjSts (owned_sts 3)" sample_lib] show ?thesis by (simp add: ne)
qed

end
