(* ===== verification/Pod_Controller.thy ===== *)
theory Pod_Controller
  imports Workload Event_Filters
begin

text \<open>
  The pod controller (\<open>pod_controller.go\<close>): a request from \<open>podToRBG\<close> recreates all workloads of a
  group, role by role in dependency order, between two patches of the restart condition. The
  first patch changes \<open>rbg.Status\<close> in place and the second starts from it, so the group is passed
  from one to the other.
\<close>

section \<open>Operations\<close>

definition restart_condition :: "bool \<Rightarrow> nat \<Rightarrow> condition" where
  "restart_condition restart_completed now =
     (if restart_completed
      then \<lparr>cd_type = RoleBasedGroupRestartInProgress, cd_status = ConditionFalse,
        cd_reason = ''RBGRestartCompleted'', cd_message = ''RBG Restart Completed'', cd_last_transition = now\<rparr>
      else \<lparr>cd_type = RoleBasedGroupRestartInProgress, cd_status = ConditionTrue,
        cd_reason = ''RBGRestart'', cd_message = ''RBG Restart in progress'', cd_last_transition = now\<rparr>)"

definition set_restart_condition :: "'w client \<Rightarrow> rbg \<Rightarrow> bool \<Rightarrow> ('w, rbg) act" where
  "set_restart_condition c g restart_completed =
     call (time_now c) (\<lambda>now.
     let h = with_condition (restart_condition restart_completed now) g in
     call (patch_group_status c h) (\<lambda>_. return_ok h))"

definition recreate_role :: "klib \<Rightarrow> 'w client \<Rightarrow> nat \<Rightarrow> rbg \<Rightarrow> role_spec \<Rightarrow> ('w, unit) act" where
  "recreate_role lib c attempts g r =
     call (of_res (new_workload_reconciler lib c attempts (r_workload r))) (\<lambda>recon. wo_recreate recon g r)"

definition restart_rbg :: "klib \<Rightarrow> 'w client \<Rightarrow> nat \<Rightarrow> rbg \<Rightarrow> ('w, unit) act" where
  "restart_rbg lib c attempts g =
     call (set_restart_condition c g False) (\<lambda>h.
     call (of_res (sort_roles h)) (\<lambda>sorted_roles.
     call (for_each (recreate_role lib c attempts h) sorted_roles) (\<lambda>_.
     call (set_restart_condition c h True) (\<lambda>_. return_ok ()))))"

definition ignore_not_found :: "go_error \<Rightarrow> ('w, unit) act" where
  "ignore_not_found e = (if is_not_found e then return_ok () else return_err e)"

definition pod_reconcile :: "klib \<Rightarrow> 'w client \<Rightarrow> nat \<Rightarrow> nsname \<Rightarrow> ('w, unit) act" where
  "pod_reconcile lib c attempts key =
     handle (do_get c KRbg as_rbg key) (\<lambda>q. case q of
       Inl e \<Rightarrow> ignore_not_found e
     | Inr g \<Rightarrow> restart_rbg lib c attempts g)"

section \<open>Lemmas\<close>

lemma with_condition_spec [simp]:
  "g_spec (with_condition nc g) = g_spec g" "g_meta (with_condition nc g) = g_meta g"
  "g_kind (with_condition nc g) = g_kind g" "g_api_version (with_condition nc g) = g_api_version g"
  "gs_role_statuses (g_status (with_condition nc g)) = gs_role_statuses (g_status g)"
  by (simp_all add: with_condition_def)

lemma sort_roles_with_condition [simp]: "sort_roles (with_condition nc g) = sort_roles g"
  unfolding sort_roles_def with_condition_spec ..

lemma workload_key_with_condition [simp]: "workload_key (with_condition nc g) r = workload_key g r"
  by (simp add: workload_key_def get_workload_name_def)

lemma restart_flag_set: "restart_condition_true (g_status (with_condition (restart_condition done now) g)) \<longleftrightarrow> \<not> done"
proof -
  have ty: "cd_type cd = RoleBasedGroupRestartInProgress"
    if "find (\<lambda>cd. cd_type cd = RoleBasedGroupRestartInProgress) cs = Some cd" for cs cd
    using that by (auto simp: find_Some_iff)
  show ?thesis
    by (auto simp: restart_condition_true_def with_condition_def set_condition_lookup restart_condition_def
        refreshed_same dest: ty split: option.splits)
qed

definition status_patch :: "rbg \<Rightarrow> call" where
  "status_patch g = CApplyStatus (PatchRbgStatus (g_namespace g, g_name g) (g_kind g) (g_api_version g)
     (gs_conditions (g_status g)) (gs_role_statuses (g_status g)))"

lemma set_restart_condition_run:
  assumes "set_restart_condition c g done s = (Inr h, t)"
  obtains now where "h = with_condition (restart_condition done now) g" and "calls t = calls s @ [status_patch h]"
  using assms patch_group_status_run
  by (fastforce simp: set_restart_condition_def call_eq_Inr_iff time_now_def Let_def status_patch_def)

lemma for_each_segments:
  assumes "for_each f xs s = (Inr (), t)"
    and "\<And>x u v. x \<in> set xs \<Longrightarrow> f x u = (Inr (), v) \<Longrightarrow> \<exists>cs. calls v = calls u @ cs \<and> P x cs"
  shows "\<exists>segs. calls t = calls s @ concat segs \<and> list_all2 P xs segs"
  using assms
proof (induction xs arbitrary: s)
  case (Cons x xs)
  from Cons.prems(1) obtain u where x: "f x s = (Inr (), u)" and xs: "for_each f xs u = (Inr (), t)"
    by (auto simp: call_eq_Inr_iff)
  from Cons.prems(2) [OF _ x] obtain cs where cs: "calls u = calls s @ cs" "P x cs" by auto
  from Cons.IH [OF xs Cons.prems(2)] obtain segs where "calls t = calls u @ concat segs" "list_all2 P xs segs"
    by auto
  with cs show ?case by (intro exI [of _ "cs # segs"]) simp
qed (simp add: return_ok_def)

definition role_recreated :: "rbg \<Rightarrow> role_spec \<Rightarrow> call list \<Rightarrow> bool" where
  "role_recreated g r cs \<longleftrightarrow> recreated (workload_key g r) cs \<and>
     list_all (recreate_call (workload_key g r) (\<lambda>q. \<exists>ob. q = CDelete ob)) cs"

lemma recreate_role_segment:
  assumes "recreate_role lib c attempts g r s = (Inr (), t)"
  shows "\<exists>cs. calls t = calls s @ cs \<and> role_recreated g r cs"
proof -
  from assms obtain recon where ops: "new_workload_reconciler lib c attempts (r_workload r) = Inr recon"
    and run: "wo_recreate recon g r s = (Inr (), t)"
    by (auto simp: recreate_role_def call_of_res_Inr_iff)
  from dispatch_recreate_done [OF ops run] obtain cs where "calls t = calls s @ cs" "recreated (workload_key g r) cs"
    by blast
  moreover from only_callsD [OF dispatch_recreate_calls [OF ops] run] obtain ds where "calls t = calls s @ ds"
    and "list_all (recreate_call (workload_key g r) (\<lambda>q. \<exists>ob. q = CDelete ob)) ds" .
  ultimately show ?thesis by (auto simp: role_recreated_def)
qed

text \<open>The trace of a restart that succeeds.\<close>

lemma restart_rbg_patches:
  assumes "restart_rbg lib c attempts g s = (Inr (), t)"
  obtains now later roles segs where
    "calls t = calls s @ status_patch (with_condition (restart_condition False now) g) # concat segs @
      [status_patch (with_condition (restart_condition True later) (with_condition (restart_condition False now) g))]"
    and "list_all2 (role_recreated g) roles segs" and "sort_roles g = Inr roles"
proof -
  from assms obtain h u roles v k where first: "set_restart_condition c g False s = (Inr h, u)"
    and roles: "sort_roles h = Inr roles" and loop: "for_each (recreate_role lib c attempts h) roles u = (Inr (), v)"
    and last: "set_restart_condition c h True v = (Inr k, t)"
    by (auto simp: restart_rbg_def call_eq_Inr_iff)
  from set_restart_condition_run [OF first] obtain n where h: "h = with_condition (restart_condition False n) g"
    and u: "calls u = calls s @ [status_patch h]" .
  from set_restart_condition_run [OF last] obtain m where k: "k = with_condition (restart_condition True m) h"
    and t: "calls t = calls v @ [status_patch k]" .
  from for_each_segments [OF loop, of "role_recreated h"] recreate_role_segment obtain segs where v: "calls v = calls u @ concat segs"
    and segs: "list_all2 (role_recreated h) roles segs" by blast
  have "role_recreated h = role_recreated g" by (simp add: h role_recreated_def fun_eq_iff)
  with segs roles u v t h k show ?thesis
    by (intro that [of n segs m roles]) simp_all
qed

lemma restart_rbg_run:
  assumes "restart_rbg lib c attempts g s = (Inr (), t)"
  obtains roles segs before after where "sort_roles g = Inr roles"
    and "calls t = calls s @ status_patch before # concat segs @ [status_patch after]"
    and "list_all2 (role_recreated g) roles segs"
    and "restart_condition_true (g_status before)" and "\<not> restart_condition_true (g_status after)"
    and "g_meta before = g_meta g" and "g_meta after = g_meta g"
proof -
  from restart_rbg_patches [OF assms] obtain now later roles segs where
    "calls t = calls s @ status_patch (with_condition (restart_condition False now) g) # concat segs @
      [status_patch (with_condition (restart_condition True later) (with_condition (restart_condition False now) g))]"
    "list_all2 (role_recreated g) roles segs" "sort_roles g = Inr roles" .
  then show ?thesis
    by (intro that [of roles "with_condition (restart_condition False now) g" segs
          "with_condition (restart_condition True later) (with_condition (restart_condition False now) g)"])
      (simp_all add: restart_flag_set)
qed

section \<open>Properties\<close>



text \<open>No restart storm: once the restart condition of the first patch is in the group, no further pod
  event asks for a restart, and after the last patch it can again.\<close>

theorem restart_not_repeated:
  "\<not> restart_wanted p (with_condition (restart_condition False now) g) \<and>
   (restart_wanted p (with_condition (restart_condition True now) g) \<longleftrightarrow>
      om_deletion (g_meta g) = None \<and>
      (\<exists>role. get_role g (sm_get (om_labels (pd_meta p)) SetRoleLabelKey) = Inr role \<and>
         r_restart_policy role = RecreateRBGOnPodRestart))"
  by (simp add: restart_wanted_def restart_flag_set get_role_def)

end
