(* ===== verification/Pod_Group.thy ===== *)
theory Pod_Group
  imports Workload_Interface Sample_Cluster
begin

text \<open>
  \<open>pkg/scheduler/podgroup_manager.go\<close>: the PodGroup through which the pods of a group are scheduled
  together. Its minimum member count is the size of the group, converted to \<open>int32\<close>.

  \<open>retry.RetryOnConflict\<close> of client-go runs a function again while it fails with a conflict, a
  fixed number of times; how often is the parameter \<open>retries\<close> (the attempts after the first).
\<close>

section \<open>Operations\<close>

primrec retry_on_conflict :: "nat \<Rightarrow> ('w, 'a) act \<Rightarrow> ('w, 'a) act" where
  "retry_on_conflict 0 m = m"
| "retry_on_conflict (Suc n) m = handle m (\<lambda>q. case q of
       Inr x \<Rightarrow> return_ok x
     | Inl e \<Rightarrow> if is_conflict e then retry_on_conflict n m else return_err e)"

definition as_pod_group :: "obj \<Rightarrow> pod_group option" where
  "as_pod_group ob = (case ob of ObjPodGroup x \<Rightarrow> Some x | _ \<Rightarrow> None)"

definition group_key :: "rbg \<Rightarrow> nsname" where
  "group_key g = (g_namespace g, g_name g)"

definition min_member :: "rbg \<Rightarrow> int res" where
  "min_member g = (case get_group_size g of Inl e \<Rightarrow> Inl e | Inr n \<Rightarrow> Inr (i32 n))"

text \<open>\<open>rbg.Spec.PodGroupPolicy.KubeScheduling.ScheduleTimeoutSeconds\<close>, two dereferences.\<close>

definition schedule_timeout :: "rbg \<Rightarrow> int option res" where
  "schedule_timeout g =
     (case deref (gp_pod_group_policy (g_spec g)) of Inl e \<Rightarrow> Inl e
      | Inr p \<Rightarrow> (case deref (pg_kube_scheduling p) of Inl e \<Rightarrow> Inl e
      | Inr k \<Rightarrow> Inr (ks_schedule_timeout k)))"

definition construct_pod_group :: "rbg \<Rightarrow> pod_group res" where
  "construct_pod_group g =
     (case min_member g of Inl e \<Rightarrow> Inl e
      | Inr n \<Rightarrow> (case schedule_timeout g of Inl e \<Rightarrow> Inl e
      | Inr timeout \<Rightarrow> Inr \<lparr>
          pgr_meta = empty_meta\<lparr>om_name := g_name g, om_namespace := g_namespace g,
            om_owners := [rbg_controller_ref g]\<rparr>,
          pgr_min_member = n, pgr_schedule_timeout = timeout\<rparr>))"

definition update_min_member :: "'w client \<Rightarrow> rbg \<Rightarrow> ('w, unit) act" where
  "update_min_member c g =
     call (do_get c KPodGroup as_pod_group (group_key g)) (\<lambda>pg.
     call (of_res (min_member g)) (\<lambda>n.
     call (do_update c as_pod_group (ObjPodGroup (pg\<lparr>pgr_min_member := n\<rparr>))) (\<lambda>_.
     return_ok ())))"

definition create_or_update_pod_group :: "'w client \<Rightarrow> nat \<Rightarrow> rbg \<Rightarrow> ('w, unit) act" where
  "create_or_update_pod_group c retries g =
     call (of_res (construct_pod_group g)) (\<lambda>pod_group.
     call (get_if_exists c KPodGroup as_pod_group (group_key g)) (\<lambda>found.
     case found of
       None \<Rightarrow> do_create c (ObjPodGroup pod_group)
     | Some pg \<Rightarrow>
         call (of_res (min_member g)) (\<lambda>n.
         if pgr_min_member pg \<noteq> n then retry_on_conflict retries (update_min_member c g)
         else return_ok ())))"

definition delete_pod_group :: "'w client \<Rightarrow> rbg \<Rightarrow> ('w, unit) act" where
  "delete_pod_group c g =
     call (get_if_exists c KPodGroup as_pod_group (group_key g)) (\<lambda>found.
     case found of None \<Rightarrow> return_ok () | Some pg \<Rightarrow> do_delete c (ObjPodGroup pg))"

definition reconcile_pod_group :: "'w client \<Rightarrow> nat \<Rightarrow> rbg \<Rightarrow> ('w, unit) act" where
  "reconcile_pod_group c retries g =
     (if enable_gang_scheduling g then create_or_update_pod_group c retries g else delete_pod_group c g)"

section \<open>Lemmas\<close>

lemma as_pod_group_iff [simp]: "as_pod_group ob = Some pg \<longleftrightarrow> ob = ObjPodGroup pg"
  by (cases ob) (auto simp: as_pod_group_def)

lemma gang_construct:
  assumes "enable_gang_scheduling g" and "min_member g = Inr n"
  obtains pg where "construct_pod_group g = Inr pg" and "pgr_min_member pg = n"
    and "obj_key (ObjPodGroup pg) = group_key g" and "om_owners (pgr_meta pg) = [rbg_controller_ref g]"
  using assms
  by (auto simp: enable_gang_scheduling_def construct_pod_group_def schedule_timeout_def obj_key_def group_key_def
      split: option.splits)

definition writes_min_member :: "rbg \<Rightarrow> int \<Rightarrow> call \<Rightarrow> bool" where
  "writes_min_member g n q \<longleftrightarrow>
     (\<exists>pg. q = CGet KPodGroup (group_key g) (Inr (ObjPodGroup pg)) \<and> pgr_min_member pg = n) \<or>
     (\<exists>pg. q = CCreate (ObjPodGroup pg) \<and> pgr_min_member pg = n \<and> obj_key (ObjPodGroup pg) = group_key g
        \<and> om_owners (pgr_meta pg) = [rbg_controller_ref g]) \<or>
     (\<exists>pg. q = CUpdate (ObjPodGroup pg) \<and> pgr_min_member pg = n)"

lemma update_min_member_last:
  assumes "update_min_member c g s = (Inr (), t)" and "min_member g = Inr n"
  shows "\<exists>cs q. calls t = calls s @ cs @ [q] \<and> writes_min_member g n q"
proof -
  from assms obtain pg u v where g: "do_get c KPodGroup as_pod_group (group_key g) s = (Inr pg, u)"
    and upd: "do_update c as_pod_group (ObjPodGroup (pg\<lparr>pgr_min_member := n\<rparr>)) u = (Inr v, t)"
    by (auto simp: update_min_member_def call_eq_Inr_iff)
  from do_get_trace [OF g] do_update_last [OF upd] show ?thesis by (auto simp: writes_min_member_def)
qed

lemma update_min_member_extends: "update_min_member c g s = (r, t) \<Longrightarrow> \<exists>cs. calls t = calls s @ cs"
proof (rule only_calls_extends)
  show "only_calls (\<lambda>_. True) (update_min_member c g)"
    unfolding update_min_member_def by (intro only_calls_intros) simp_all
qed

lemma retry_update_last:
  assumes "retry_on_conflict k (update_min_member c g) s = (Inr (), t)" and "min_member g = Inr n"
  shows "\<exists>cs q. calls t = calls s @ cs @ [q] \<and> writes_min_member g n q"
  using assms(1)
proof (induction k arbitrary: s)
  case 0
  then show ?case using update_min_member_last [OF _ assms(2)] by simp
next
  case (Suc k)
  obtain q u where m: "update_min_member c g s = (q, u)" by fastforce
  show ?case
  proof (cases q)
    case (Inr x)
    with Suc.prems m show ?thesis using update_min_member_last [OF _ assms(2), of c s u]
      by (simp add: handle_def)
  next
    case (Inl e)
    with Suc.prems m have "retry_on_conflict k (update_min_member c g) u = (Inr (), t)"
      by (auto simp: handle_def split: if_splits)
    from Suc.IH [OF this] update_min_member_extends [OF m] show ?thesis by fastforce
  qed
qed

lemma create_or_update_last:
  assumes "create_or_update_pod_group c retries g s = (Inr (), t)" and "enable_gang_scheduling g"
  shows "\<exists>n cs q. min_member g = Inr n \<and> calls t = calls s @ cs @ [q] \<and> writes_min_member g n q"
proof -
  from assms(1) obtain pod_group found u where cons: "construct_pod_group g = Inr pod_group"
    and get: "get_if_exists c KPodGroup as_pod_group (group_key g) s = (Inr found, u)"
    by (auto simp: create_or_update_pod_group_def call_eq_Inr_iff)
  from cons obtain n where n: "min_member g = Inr n" by (auto simp: construct_pod_group_def split: sum.splits)
  from get show ?thesis
  proof (cases rule: get_if_exists_cases)
    case 1
    with assms(1) cons get have "do_create c (ObjPodGroup pod_group) u = (Inr (), t)"
      by (auto simp: create_or_update_pod_group_def call_eq_Inr_iff)
    from do_create_last [OF this] gang_construct [OF assms(2) n] cons 1 n show ?thesis
      by (fastforce simp: writes_min_member_def)
  next
    case (2 pg ob)
    with assms(1) cons get n have
      run: "(if pgr_min_member pg \<noteq> n then retry_on_conflict retries (update_min_member c g) else return_ok ()) u
        = (Inr (), t)"
      by (auto simp: create_or_update_pod_group_def call_eq_Inr_iff)
    show ?thesis
    proof (cases "pgr_min_member pg = n")
      case True
      with run 2 n show ?thesis by (auto simp: writes_min_member_def)
    next
      case False
      with run have "retry_on_conflict retries (update_min_member c g) u = (Inr (), t)" by simp
      from retry_update_last [OF this n] 2 n show ?thesis by fastforce
    qed
  qed
qed

lemma delete_pod_group_last:
  assumes "delete_pod_group c g s = (Inr (), t)"
  shows "calls t = calls s @ [CGet KPodGroup (group_key g) (Inl NotFound)] \<or>
    (\<exists>pg. calls t = calls s @ [CGet KPodGroup (group_key g) (Inr (ObjPodGroup pg)), CDelete (ObjPodGroup pg)])"
proof -
  from assms obtain found u where get: "get_if_exists c KPodGroup as_pod_group (group_key g) s = (Inr found, u)"
    by (auto simp: delete_pod_group_def call_eq_Inr_iff)
  from get show ?thesis
  proof (cases rule: get_if_exists_cases)
    case 1
    with assms get show ?thesis by (auto simp: delete_pod_group_def call_eq_Inr_iff)
  next
    case (2 pg ob)
    with assms get have "do_delete c (ObjPodGroup pg) u = (Inr (), t)"
      by (auto simp: delete_pod_group_def call_eq_Inr_iff)
    from do_delete_last [OF this] 2 show ?thesis by auto
  qed
qed

lemma get_group_size_cases:
  "get_group_size g = (if list_all role_sized (g_roles g) then Inr (i64 (sum_list (map role_pods (g_roles g))))
     else Inl (Panic NilDereference))"
  using loop_group_size [of "g_roles g" 0] by (simp add: get_group_size_def loop_group_size_panic)

section \<open>Properties\<close>

text \<open>C35: A PodGroup reconcile that succeeds has settled the minimum member count: with gang
  scheduling its last request read a PodGroup that already had the group's size, created one with
  it, controlled by the group, or updated one to it; without gang scheduling there was no PodGroup
  or it was deleted.\<close>

theorem pod_group_settled:
  assumes "fst (reconcile_pod_group c retries g s) = Inr ()"
  shows "(enable_gang_scheduling g \<longrightarrow> (\<exists>n cs q. min_member g = Inr n \<and> writes_min_member g n q \<and>
      calls (snd (reconcile_pod_group c retries g s)) = calls s @ cs @ [q])) \<and>
    (\<not> enable_gang_scheduling g \<longrightarrow>
      calls (snd (reconcile_pod_group c retries g s)) = calls s @ [CGet KPodGroup (group_key g) (Inl NotFound)] \<or>
      (\<exists>pg. calls (snd (reconcile_pod_group c retries g s)) =
         calls s @ [CGet KPodGroup (group_key g) (Inr (ObjPodGroup pg)), CDelete (ObjPodGroup pg)]))"
proof -
  obtain t where run: "reconcile_pod_group c retries g s = (Inr (), t)" using assms by (metis prod.collapse)
  show ?thesis
  proof (cases "enable_gang_scheduling g")
    case True
    with run create_or_update_last [of c retries g s t] show ?thesis by (auto simp: reconcile_pod_group_def)
  next
    case False
    with run delete_pod_group_last [of c g s t] show ?thesis by (auto simp: reconcile_pod_group_def)
  qed
qed

definition sample_gang :: "role_spec list \<Rightarrow> rbg" where
  "sample_gang rs = (sample_rbg rs)\<lparr>g_spec := \<lparr>gp_roles = rs, gp_pod_group_policy =
     Some \<lparr>pg_kube_scheduling = Some \<lparr>ks_schedule_timeout = Some 60\<rparr>\<rparr>\<rparr>\<rparr>"

definition sample_pod_group :: "int \<Rightarrow> pod_group" where
  "sample_pod_group n = \<lparr>pgr_meta = sample_meta ''g'' ''uid-pg'', pgr_min_member = n, pgr_schedule_timeout = None\<rparr>"

theorem pod_group_settled_witness:
  "\<exists>n cs q. min_member (sample_gang [sample_role ''a'' [] 3]) = Inr n \<and>
     writes_min_member (sample_gang [sample_role ''a'' [] 3]) n q \<and>
     calls (snd (reconcile_pod_group store_client 4 (sample_gang [sample_role ''a'' [] 3])
       (run_on [ObjPodGroup (sample_pod_group 1)]))) = cs @ [q]"
proof -
  let ?g = "sample_gang [sample_role ''a'' [] 3]"
  have "fst (reconcile_pod_group store_client 4 ?g (run_on [ObjPodGroup (sample_pod_group 1)])) = Inr ()"
    and "enable_gang_scheduling ?g"
    by code_simp+
  with pod_group_settled [of store_client 4 ?g "run_on [ObjPodGroup (sample_pod_group 1)]"] show ?thesis
    by (auto simp: run_on_def)
qed

text \<open>The size of a group is the number of its pods: the replicas of every role, times the pods of
  an instance for a LeaderWorkerSet role; a role without replicas, or a LeaderWorkerSet role without
  a size, makes the computation panic. The sum is taken in 64 bits; while it fits in 32 the PodGroup gets
  exactly it, otherwise the remainder the conversion leaves.\<close>

theorem group_size_result:
  "get_group_size g = (if list_all role_sized (g_roles g) then Inr (i64 (sum_list (map role_pods (g_roles g))))
     else Inl (Panic NilDereference)) \<and>
   (list_all role_sized (g_roles g) \<longrightarrow> (in_i32 (sum_list (map role_pods (g_roles g))) \<longleftrightarrow>
     min_member g = Inr (sum_list (map role_pods (g_roles g)))))"
  by (auto simp: get_group_size_cases min_member_def) (metis i32_in_range)

theorem group_size_result_witness:
  "get_group_size (sample_rbg [sample_role ''a'' [] 3, sample_role ''b'' [] 4]) = Inr 7 \<and>
   min_member (sample_rbg [sample_role ''a'' [] 3, sample_role ''b'' [] 4]) = Inr 7"
proof -
  have "list_all role_sized (g_roles (sample_rbg [sample_role ''a'' [] 3, sample_role ''b'' [] 4]))"
    and sum: "sum_list (map role_pods (g_roles (sample_rbg [sample_role ''a'' [] 3, sample_role ''b'' [] 4]))) = 7"
    by code_simp+
  with group_size_result [of "sample_rbg [sample_role ''a'' [] 3, sample_role ''b'' [] 4]"] show ?thesis
    unfolding sum by (simp add: in_i32_def i64_id)
qed

text \<open>Two roles of the largest replica count: the minimum member count wraps to a negative number.\<close>

lemma min_member_wraps:
  "min_member (sample_rbg [sample_role ''a'' [] 2147483647, sample_role ''b'' [] 2147483647]) = Inr (- 2)"
  by code_simp

end
