(* ===== verification/Scaling_Adapter.thy ===== *)
theory Scaling_Adapter
  imports Pod_Controller Pod_Group
begin

text \<open>
  The scaling adapter controller (\<open>rolebasedgroupscalingadapter_controller.go\<close>) and the apply
  configuration it builds (\<open>rolebasedgroupscalingadapter_apply_configuration.go\<close>). An adapter is a
  small state machine: not bound, bound (its replicas and selector initialised from the role), and
  from then on every change of its replicas is written to the role of the group.

  A reconcile returns the delay after which it is run again, in the unit of \<open>time.Duration\<close>, zero
  for none. \<open>RetryOnConflict\<close> is unfolded in \<open>update_role_replicas\<close> because each attempt works on the
  group the last one fetched.
\<close>

section \<open>The apply configuration\<close>

definition role_based_group_scaling_adapter :: "scaling_adapter \<Rightarrow> patch" where
  "role_based_group_scaling_adapter a =
     PatchAdapter (om_namespace (ad_meta a), om_name (ad_meta a)) (ad_kind a) (ad_api_version a) [] (ad_spec a) None"

fun adapter_with_owner_references :: "owner_ref list \<Rightarrow> patch \<Rightarrow> patch" where
  "adapter_with_owner_references refs (PatchAdapter key k v os sp st) = PatchAdapter key k v (os @ refs) sp st"
| "adapter_with_owner_references refs p = p"

fun adapter_with_spec :: "adapter_spec \<Rightarrow> patch \<Rightarrow> patch" where
  "adapter_with_spec sp (PatchAdapter key k v os _ st) = PatchAdapter key k v os sp st"
| "adapter_with_spec sp p = p"

fun adapter_with_status :: "adapter_status \<Rightarrow> patch \<Rightarrow> patch" where
  "adapter_with_status st (PatchAdapter key k v os sp _) = PatchAdapter key k v os sp (Some st)"
| "adapter_with_status st p = p"

definition spec_with_replicas :: "int option \<Rightarrow> adapter_spec \<Rightarrow> adapter_spec" where
  "spec_with_replicas n sp = (if n = None then sp else sp\<lparr>as_replicas := n\<rparr>)"

text \<open>The last argument is the current time when the change is a scale.\<close>

definition status_with_replicas :: "int option \<Rightarrow> nat option \<Rightarrow> adapter_status \<Rightarrow> adapter_status" where
  "status_with_replicas n scale_time st =
     (if n = None then st
      else if scale_time = None then st\<lparr>at_replicas := n\<rparr>
      else st\<lparr>at_replicas := n, at_last_scale_time := scale_time\<rparr>)"

text \<open>\<open>RbgScalingAdapterSpec\<close> and \<open>RbgScalingAdapterStatus\<close> start an apply configuration with the fields the
  adapter has; \<open>WithPhase\<close> and \<open>WithSelector\<close> set one.\<close>

definition adapter_spec_config :: "adapter_spec \<Rightarrow> adapter_spec" where
  "adapter_spec_config sp = \<lparr>as_replicas = as_replicas sp, as_scale_target_ref = as_scale_target_ref sp\<rparr>"

definition adapter_status_config :: "adapter_status \<Rightarrow> adapter_status" where
  "adapter_status_config st = \<lparr>at_phase = at_phase st, at_replicas = at_replicas st, at_selector = at_selector st,
     at_last_scale_time = at_last_scale_time st\<rparr>"

definition status_with_phase :: "adapter_phase \<Rightarrow> adapter_status \<Rightarrow> adapter_status" where
  "status_with_phase ph st = st\<lparr>at_phase := ph\<rparr>"

definition status_with_selector :: "string \<Rightarrow> adapter_status \<Rightarrow> adapter_status" where
  "status_with_selector sel st = st\<lparr>at_selector := sel\<rparr>"

lemma adapter_configs [simp]: "adapter_spec_config sp = sp" "adapter_status_config st = st"
  by (simp_all add: adapter_spec_config_def adapter_status_config_def)

section \<open>Scaling the role\<close>

primrec set_replicas_of :: "string \<Rightarrow> int \<Rightarrow> role_spec list \<Rightarrow> role_spec list" where
  "set_replicas_of name n [] = []"
| "set_replicas_of name n (r # rs) =
     (if r_name r = name then r\<lparr>r_replicas := Some n\<rparr> # rs else r # set_replicas_of name n rs)"

definition set_role_replicas :: "string \<Rightarrow> int \<Rightarrow> rbg \<Rightarrow> rbg" where
  "set_role_replicas name n g = g\<lparr>g_spec := (g_spec g)\<lparr>gp_roles := set_replicas_of name n (g_roles g)\<rparr>\<rparr>"

primrec update_role_replicas :: "'w client \<Rightarrow> nat \<Rightarrow> rbg \<Rightarrow> string \<Rightarrow> int \<Rightarrow> ('w, unit) act" where
  "update_role_replicas c 0 g name n =
     handle (do_update c as_rbg (ObjRbg (set_role_replicas name n g))) (\<lambda>q. case q of
       Inr _ \<Rightarrow> return_ok ()
     | Inl e \<Rightarrow> if is_conflict e
         then call (do_get c KRbg as_rbg (group_key g)) (\<lambda>_. return_err e)
         else return_err e)"
| "update_role_replicas c (Suc retries) g name n =
     handle (do_update c as_rbg (ObjRbg (set_role_replicas name n g))) (\<lambda>q. case q of
       Inr _ \<Rightarrow> return_ok ()
     | Inl e \<Rightarrow> if is_conflict e
         then handle (do_get c KRbg as_rbg (group_key g)) (\<lambda>q. case q of
             Inr h \<Rightarrow> update_role_replicas c retries h name n
           | Inl e' \<Rightarrow> if is_conflict e'
               then update_role_replicas c retries (set_role_replicas name n g) name n
               else return_err e')
         else return_err e)"

section \<open>The selector\<close>

definition as_unstructured :: "obj \<Rightarrow> selector_field option" where
  "as_unstructured ob = (case ob of ObjUnstructured sel \<Rightarrow> Some sel | _ \<Rightarrow> None)"

primrec join :: "string \<Rightarrow> string list \<Rightarrow> string" where
  "join sep [] = []"
| "join sep (x # xs) = (if xs = [] then x else x @ sep @ join sep xs)"

definition selector_string :: "label_selector \<Rightarrow> string" where
  "selector_string sel = join '','' (map (\<lambda>(k, v). k @ ''='' @ v) (sm_entries (ls_match_labels sel)))"

definition selector_gvk :: "klib \<Rightarrow> workload_spec \<Rightarrow> kind res" where
  "selector_gvk lib w =
     (let api_version = (if ws_kind w = ''LeaderWorkerSet'' then ''apps/v1'' else ws_api_version w) in
      case lib_parse_group_version lib api_version of
        None \<Rightarrow> Inl (LibError ''unexpected GroupVersion string'')
      | Some (grp, ver) \<Rightarrow> Inr (KGvk grp ver (ws_kind w)))"

definition extract_label_selector_default ::
  "klib \<Rightarrow> 'w client \<Rightarrow> rbg \<Rightarrow> role_spec \<Rightarrow> ('w, string) act" where
  "extract_label_selector_default lib c g r =
     call (of_res (selector_gvk lib (r_workload r))) (\<lambda>k.
     call (do_get c k as_unstructured (workload_key g r)) (\<lambda>field.
     case field of
       FieldNotMap \<Rightarrow> return_err SelectorNotMap
     | FieldAbsent \<Rightarrow> return_err SelectorMissing
     | FieldMalformed msg \<Rightarrow> return_err (SelectorNotConverted msg)
     | FieldSelector sel \<Rightarrow> return_ok (selector_string sel)))"

section \<open>The reconcile\<close>

definition get_target_rbg_from_adapter :: "'w client \<Rightarrow> scaling_adapter \<Rightarrow> adapter_scale_target_ref \<Rightarrow> ('w, rbg) act" where
  "get_target_rbg_from_adapter c a ref = do_get c KRbg as_rbg (om_namespace (ad_meta a), tr_name ref)"

definition patch_adapter_status :: "'w client \<Rightarrow> scaling_adapter \<Rightarrow> adapter_status \<Rightarrow> ('w, unit) act" where
  "patch_adapter_status c a st = patch_object_apply_configuration c
     (Inr (adapter_with_status st (role_based_group_scaling_adapter a))) PatchStatus"

definition update_adapter_owner_reference :: "'w client \<Rightarrow> scaling_adapter \<Rightarrow> rbg \<Rightarrow> ('w, unit) act" where
  "update_adapter_owner_reference c a g = patch_object_apply_configuration c
     (Inr (adapter_with_owner_references
        [\<lparr>or_api_version = g_api_version g, or_kind = g_kind g, or_name = g_name g, or_uid = g_uid g,
          or_controller = None, or_block_owner_deletion = Some True\<rparr>]
        (role_based_group_scaling_adapter a))) PatchSpec"

text \<open>The target role could not be found: the phase becomes not bound; a failed patch is only logged.\<close>

definition unbind_adapter :: "'w client \<Rightarrow> scaling_adapter \<Rightarrow> ('w, nat) act" where
  "unbind_adapter c a =
     call (record_event (om_name (ad_meta a)) ''FailedGetRBGRole'') (\<lambda>_.
     call (if at_phase (ad_status a) \<noteq> AdapterPhaseNotBound
           then handle (patch_adapter_status c a (status_with_phase AdapterPhaseNotBound (adapter_status_config (ad_status a))))
                  (\<lambda>_. return_ok ())
           else return_ok ()) (\<lambda>_.
     return_ok 10))"

definition bind_adapter :: "klib \<Rightarrow> 'w client \<Rightarrow> scaling_adapter \<Rightarrow> rbg \<Rightarrow> role_spec \<Rightarrow> ('w, nat) act" where
  "bind_adapter lib c a g role =
     call (patch_object_apply_configuration c
        (Inr (adapter_with_spec (spec_with_replicas (r_replicas role) (adapter_spec_config (ad_spec a)))
           (role_based_group_scaling_adapter a))) PatchSpec) (\<lambda>_.
     call (extract_label_selector_default lib c g role) (\<lambda>selector.
     call (patch_adapter_status c a
        (status_with_selector selector (status_with_phase AdapterPhaseBound
          (status_with_replicas (r_replicas role) None (adapter_status_config (ad_status a)))))) (\<lambda>_.
     call (record_event (om_name (ad_meta a)) ''SuccessfulBound'') (\<lambda>_.
     return_ok 1))))"

definition scale_role ::
  "'w client \<Rightarrow> nat \<Rightarrow> scaling_adapter \<Rightarrow> rbg \<Rightarrow> string \<Rightarrow> int \<Rightarrow> ('w, nat) act" where
  "scale_role c retries a g role_name desired =
     handle (update_role_replicas c retries g role_name desired) (\<lambda>q. case q of
       Inl e \<Rightarrow> call (record_event (om_name (ad_meta a)) ''FailedScale'') (\<lambda>_. return_err e)
     | Inr _ \<Rightarrow>
         call (time_now c) (\<lambda>now.
         call (patch_adapter_status c a (status_with_replicas (Some desired) (Some now) (adapter_status_config (ad_status a)))) (\<lambda>_.
         call (record_event (om_name (ad_meta a)) ''SuccessfulScale'') (\<lambda>_.
         return_ok 0))))"

text \<open>The part after the target was looked up: \<open>target\<close> is the group and its role, or the group (if it
  was found) and the error.\<close>

definition reconcile_bound_adapter ::
  "klib \<Rightarrow> 'w client \<Rightarrow> nat \<Rightarrow> scaling_adapter \<Rightarrow> rbg \<Rightarrow> role_spec \<Rightarrow> string \<Rightarrow> ('w, nat) act" where
  "reconcile_bound_adapter lib c retries a g role role_name =
     (if \<not> contains_rbg_owner a g
      then call (update_adapter_owner_reference c a g) (\<lambda>_. return_ok 1)
      else if at_phase (ad_status a) \<noteq> AdapterPhaseBound then bind_adapter lib c a g role
      else (case (as_replicas (ad_spec a), r_replicas role) of
          (Some desired, Some current) \<Rightarrow>
            if desired = current then return_ok 0 else scale_role c retries a g role_name desired
        | _ \<Rightarrow> return_ok 0))"

definition reconcile_adapter :: "klib \<Rightarrow> 'w client \<Rightarrow> nat \<Rightarrow> nsname \<Rightarrow> ('w, nat) act" where
  "reconcile_adapter lib c retries key =
     handle (do_get c KAdapter as_adapter key) (\<lambda>q. case q of
       Inl e \<Rightarrow> if is_not_found e then return_ok 0 else return_err e
     | Inr a \<Rightarrow>
         if om_deletion (ad_meta a) \<noteq> None then return_ok 0
         else call (of_res (deref (as_scale_target_ref (ad_spec a)))) (\<lambda>ref.
           handle (get_target_rbg_from_adapter c a ref) (\<lambda>q.
             let found = (case q of Inl e \<Rightarrow> None | Inr g \<Rightarrow> Some g);
                 target = (case q of Inl e \<Rightarrow> Inl (WrapGetRbg (tr_name ref) e)
                   | Inr g \<Rightarrow> (case get_role g (tr_role ref) of
                       Inl e \<Rightarrow> Inl (WrapGetRole (tr_role ref) (tr_name ref) e)
                     | Inr role \<Rightarrow> Inr (g, role))) in
             if \<not> is_scaling_adapter_managed_by_rbg (Some a) found then return_ok 0
             else (case target of
                 Inl e \<Rightarrow> unbind_adapter c a
               | Inr (g, role) \<Rightarrow> reconcile_bound_adapter lib c retries a g role (tr_role ref)))))"

text \<open>\<open>CheckCrdExists\<close> of the adapter controller.\<close>

definition check_adapter_crds :: "'w client \<Rightarrow> ('w, unit) act" where
  "check_adapter_crds rd = for_each (check_crd_exists rd) [''rolebasedgroupscalingadapters.workloads.x-k8s.io'']"

section \<open>Lemmas\<close>

lemma set_replicas_of_names [simp]: "map r_name (set_replicas_of name n rs) = map r_name rs"
  by (induction rs) auto

lemma set_replicas_of_idem [simp]:
  "set_replicas_of name n (set_replicas_of name n rs) = set_replicas_of name n rs"
  by (induction rs) auto

lemma set_role_replicas_idem [simp]:
  "set_role_replicas name n (set_role_replicas name n g) = set_role_replicas name n g"
  by (simp add: set_role_replicas_def)

lemma set_replicas_of_find:
  "find (\<lambda>r. r_name r = k) (set_replicas_of name n rs) =
     (if k = name then map_option (\<lambda>r. r\<lparr>r_replicas := Some n\<rparr>) (find (\<lambda>r. r_name r = k) rs)
      else find (\<lambda>r. r_name r = k) rs)"
  by (induction rs) auto

lemma get_role_set_replicas:
  "get_role (set_role_replicas name n g) k =
     (case get_role g k of Inl e \<Rightarrow> Inl e
      | Inr r \<Rightarrow> Inr (if k = name then r\<lparr>r_replicas := Some n\<rparr> else r))"
  by (simp add: get_role_def set_role_replicas_def set_replicas_of_find split: option.splits)

lemma set_role_replicas_keeps [simp]:
  "g_meta (set_role_replicas name n g) = g_meta g" "g_status (set_role_replicas name n g) = g_status g"
  "gp_pod_group_policy (g_spec (set_role_replicas name n g)) = gp_pod_group_policy (g_spec g)"
  "map r_name (g_roles (set_role_replicas name n g)) = map r_name (g_roles g)"
  by (simp_all add: set_role_replicas_def)

lemma as_rbg_iff [simp]: "as_rbg ob = Some g \<longleftrightarrow> ob = ObjRbg g"
  by (cases ob) (auto simp: as_rbg_def)

lemma as_adapter_iff [simp]: "as_adapter ob = Some a \<longleftrightarrow> ob = ObjAdapter a"
  by (cases ob) (auto simp: as_adapter_def)

text \<open>What scaling a role requests: updates of a group in which only the replicas of the role differ
  from the group the adapter found or one that was read again after a conflict, and those reads.\<close>

definition scale_trace :: "string \<Rightarrow> int \<Rightarrow> rbg \<Rightarrow> call list \<Rightarrow> bool" where
  "scale_trace name n g cs \<longleftrightarrow> (\<forall>q \<in> set cs. (\<exists>k a. q = CGet KRbg k a) \<or>
     (\<exists>h. q = CUpdate (ObjRbg (set_role_replicas name n h)) \<and>
        (h = g \<or> (\<exists>k. CGet KRbg k (Inr (ObjRbg h)) \<in> set cs))))"

fun is_update :: "call \<Rightarrow> bool" where
  "is_update (CUpdate ob) = True"
| "is_update _ = False"

lemma scale_trace_one: "scale_trace name n g [CUpdate (ObjRbg (set_role_replicas name n g))]"
  by (auto simp: scale_trace_def)

lemma scale_trace_two: "scale_trace name n g [CUpdate (ObjRbg (set_role_replicas name n g)), CGet KRbg k a]"
  by (auto simp: scale_trace_def)

lemma scale_trace_again:
  assumes "scale_trace name n h cs" and "a = Inr (ObjRbg h) \<or> h = set_role_replicas name n g"
  shows "scale_trace name n g ([CUpdate (ObjRbg (set_role_replicas name n g)), CGet KRbg k a] @ cs)"
proof -
  let ?all = "[CUpdate (ObjRbg (set_role_replicas name n g)), CGet KRbg k a] @ cs"
  have known: "\<exists>h''. set_role_replicas name n h' = set_role_replicas name n h'' \<and>
      (h'' = g \<or> (\<exists>k. CGet KRbg k (Inr (ObjRbg h'')) \<in> set ?all))"
    if "h' = h \<or> (\<exists>k. CGet KRbg k (Inr (ObjRbg h')) \<in> set cs)" for h'
  proof (cases "h' = h \<and> h = set_role_replicas name n g")
    case True
    then show ?thesis by (intro exI [of _ g]) simp
  next
    case False
    with that assms(2) consider "h' = h" "a = Inr (ObjRbg h)" | k' where "CGet KRbg k' (Inr (ObjRbg h')) \<in> set cs"
      by blast
    then have "\<exists>k. CGet KRbg k (Inr (ObjRbg h')) \<in> set ?all"
    proof cases
      case 1
      then show ?thesis by (intro exI [of _ k]) simp
    next
      case (2 k')
      then show ?thesis by (intro exI [of _ k']) simp
    qed
    then show ?thesis by blast
  qed
  show ?thesis
    unfolding scale_trace_def
  proof
    fix q assume "q \<in> set ?all"
    then consider "q = CUpdate (ObjRbg (set_role_replicas name n g))" | "q = CGet KRbg k a" | "q \<in> set cs" by auto
    then show "(\<exists>k a. q = CGet KRbg k a) \<or> (\<exists>h. q = CUpdate (ObjRbg (set_role_replicas name n h)) \<and>
        (h = g \<or> (\<exists>k. CGet KRbg k (Inr (ObjRbg h)) \<in> set ?all)))"
    proof cases
      case 3
      with assms(1) consider "\<exists>k a. q = CGet KRbg k a" | h' where "q = CUpdate (ObjRbg (set_role_replicas name n h'))"
          "h' = h \<or> (\<exists>k. CGet KRbg k (Inr (ObjRbg h')) \<in> set cs)"
        unfolding scale_trace_def by blast
      then show ?thesis
      proof cases
        case (2 h')
        from known [OF 2(2)] 2(1) show ?thesis by metis
      qed blast
    qed blast+
  qed
qed

lemma update_role_replicas_trace:
  assumes "update_role_replicas c retries g name n s = (r, t)"
  shows "\<exists>cs. calls t = calls s @ cs \<and> scale_trace name n g cs \<and> length (filter is_update cs) \<le> Suc retries"
  using assms
proof (induction retries arbitrary: g s)
  case 0
  obtain q u where upd: "do_update c as_rbg (ObjRbg (set_role_replicas name n g)) s = (q, u)" by fastforce
  note u = do_update_last [OF upd]
  obtain p v where get: "do_get c KRbg as_rbg (group_key g) u = (p, v)" by fastforce
  from do_get_trace [OF get] obtain a where v: "calls v = calls u @ [CGet KRbg (group_key g) a]" by blast
  from 0 upd get have "t = u \<or> t = v"
    by (auto simp: handle_def call_def split: sum.splits if_splits)
  then show ?case
  proof
    assume "t = u"
    with u scale_trace_one [of name n g] show ?thesis
      by (intro exI [of _ "[CUpdate (ObjRbg (set_role_replicas name n g))]"]) simp
  next
    assume "t = v"
    with u v scale_trace_two [of name n g] show ?thesis
      by (intro exI [of _ "[CUpdate (ObjRbg (set_role_replicas name n g)), CGet KRbg (group_key g) a]"]) simp
  qed
next
  case (Suc retries)
  obtain q u where upd: "do_update c as_rbg (ObjRbg (set_role_replicas name n g)) s = (q, u)" by fastforce
  note u = do_update_last [OF upd]
  obtain p v where get: "do_get c KRbg as_rbg (group_key g) u = (p, v)" by fastforce
  from do_get_trace [OF get] obtain a where v: "calls v = calls u @ [CGet KRbg (group_key g) a]"
    and p: "p = decode as_rbg a" by blast
  from Suc.prems upd get have "t = u \<or> t = v \<or>
      (\<exists>h. (p = Inr h \<or> h = set_role_replicas name n g) \<and> update_role_replicas c retries h name n v = (r, t))"
    by (auto simp: handle_def split: sum.splits if_splits)
  then consider "t = u" | "t = v" | h where "p = Inr h \<or> h = set_role_replicas name n g"
      "update_role_replicas c retries h name n v = (r, t)" by blast
  then show ?case
  proof cases
    case 1
    with u scale_trace_one [of name n g] show ?thesis
      by (intro exI [of _ "[CUpdate (ObjRbg (set_role_replicas name n g))]"]) simp
  next
    case 2
    with u v scale_trace_two [of name n g] show ?thesis
      by (intro exI [of _ "[CUpdate (ObjRbg (set_role_replicas name n g)), CGet KRbg (group_key g) a]"]) simp
  next
    case (3 h)
    from Suc.IH [OF 3(2)] obtain cs where cs: "calls t = calls v @ cs" "scale_trace name n h cs"
      "length (filter is_update cs) \<le> Suc retries" by blast
    have "a = Inr (ObjRbg h) \<or> h = set_role_replicas name n g"
      using 3(1) p decode_found [of as_rbg a h] by auto
    from scale_trace_again [OF cs(2) this] u v cs(1,3) show ?thesis
      by (intro exI [of _ "[CUpdate (ObjRbg (set_role_replicas name n g)), CGet KRbg (group_key g) a] @ cs"]) simp
  qed
qed

text \<open>When it succeeds, its last request is an update that the server accepted.\<close>

lemma update_role_replicas_accepted:
  assumes "update_role_replicas c retries g name n s = (Inr (), t)"
  shows "\<exists>pre h b ob. calls b = calls s @ pre \<and>
    do_update c as_rbg (ObjRbg (set_role_replicas name n h)) b = (Inr ob, t) \<and>
    (h = g \<or> (\<exists>k. CGet KRbg k (Inr (ObjRbg h)) \<in> set pre))"
  using assms
proof (induction retries arbitrary: g s)
  case 0
  then obtain ob where "do_update c as_rbg (ObjRbg (set_role_replicas name n g)) s = (Inr ob, t)"
    by (auto simp: handle_def call_def return_ok_def return_err_def split: prod.splits sum.splits if_splits)
  then show ?case by (intro exI [of _ "[]"] exI [of _ g] exI [of _ s] exI [of _ ob]) simp
next
  case (Suc retries)
  obtain q u where upd: "do_update c as_rbg (ObjRbg (set_role_replicas name n g)) s = (q, u)" by fastforce
  show ?case
  proof (cases q)
    case (Inr x)
    with Suc.prems upd show ?thesis
      by (intro exI [of _ "[]"] exI [of _ g] exI [of _ s] exI [of _ x]) (simp add: handle_def return_ok_def)
  next
    case (Inl e)
    obtain p v where get: "do_get c KRbg as_rbg (group_key g) u = (p, v)" by fastforce
    from do_get_trace [OF get] obtain a where v: "calls v = calls u @ [CGet KRbg (group_key g) a]"
      and p: "p = decode as_rbg a" by blast
    from Suc.prems upd Inl get obtain h where h: "p = Inr h \<or> h = set_role_replicas name n g"
      and again: "update_role_replicas c retries h name n v = (Inr (), t)"
      by (auto simp: handle_def return_err_def split: sum.splits if_splits)
    from Suc.IH [OF again] obtain pre h' b ob where b: "calls b = calls v @ pre"
      and sent: "do_update c as_rbg (ObjRbg (set_role_replicas name n h')) b = (Inr ob, t)"
      and h': "h' = h \<or> (\<exists>k. CGet KRbg k (Inr (ObjRbg h')) \<in> set pre)" by blast
    let ?pre = "[CUpdate (ObjRbg (set_role_replicas name n g)), CGet KRbg (group_key g) a] @ pre"
    have pre: "calls b = calls s @ ?pre" using b v do_update_last [OF upd] by simp
    show ?thesis
    proof (cases "h' = h \<and> h = set_role_replicas name n g")
      case True
      with sent pre show ?thesis by (intro exI [of _ ?pre] exI [of _ g] exI [of _ b] exI [of _ ob]) simp
    next
      case False
      with h h' p decode_found [of as_rbg a h] have "CGet KRbg (group_key g) (Inr (ObjRbg h')) \<in> set ?pre \<or>
          (\<exists>k. CGet KRbg k (Inr (ObjRbg h')) \<in> set ?pre)" by auto
      with sent pre show ?thesis by blast
    qed
  qed
qed

lemma update_role_replicas_sends:
  assumes "update_role_replicas c retries g name n s = (r, t)"
  shows "\<exists>cs. calls t = calls s @ CUpdate (ObjRbg (set_role_replicas name n g)) # cs"
proof -
  obtain q u where upd: "do_update c as_rbg (ObjRbg (set_role_replicas name n g)) s = (q, u)" by fastforce
  have again: "\<exists>cs. calls v = calls u @ cs" if "update_role_replicas c k h name n u = (p, v)" for k h p u v
    using update_role_replicas_trace [OF that] by blast
  have "\<exists>cs. calls t = calls u @ cs"
  proof (cases retries)
    case 0
    with assms upd show ?thesis
      by (auto simp: handle_def call_def return_ok_def return_err_def do_get_def log_call_def
          split: prod.splits sum.splits if_splits)
  next
    case (Suc k)
    obtain p v where get: "do_get c KRbg as_rbg (group_key g) u = (p, v)" by fastforce
    from do_get_trace [OF get] have "\<exists>cs. calls v = calls u @ cs" by blast
    moreover from assms Suc upd get have "t = u \<or> t = v \<or> (\<exists>h. update_role_replicas c k h name n v = (r, t))"
      by (auto simp: handle_def return_ok_def return_err_def split: sum.splits if_splits)
    ultimately show ?thesis using again by (metis append.assoc append_Nil2)
  qed
  with do_update_last [OF upd] show ?thesis by auto
qed

text \<open>The calls of the phases: reads, events and patches of the adapter itself.\<close>

definition adapter_write :: "scaling_adapter \<Rightarrow> call \<Rightarrow> bool" where
  "adapter_write a q \<longleftrightarrow> (\<exists>k v sp st p. p = PatchAdapter (om_namespace (ad_meta a), om_name (ad_meta a)) k v [] sp st \<and>
     (q = CApply p \<or> q = CApplyStatus p))"

definition adapter_call :: "scaling_adapter \<Rightarrow> call \<Rightarrow> bool" where
  "adapter_call a q \<longleftrightarrow> is_read q \<or> (\<exists>n e. q = CEvent n e) \<or> adapter_write a q"

lemma adapter_call_simps [simp]:
  "adapter_call a (CGet k key r)" "adapter_call a (CEvent n e)"
  by (simp_all add: adapter_call_def)

lemma only_calls_patch_adapter_status: "only_calls (adapter_call a) (patch_adapter_status c a st)"
  unfolding patch_adapter_status_def
  by (intro only_calls_patch) (auto simp: role_based_group_scaling_adapter_def adapter_call_def adapter_write_def)

lemma unbind_adapter_calls: "only_calls (adapter_call a) (unbind_adapter c a)"
  unfolding unbind_adapter_def
  by (intro only_calls_call only_calls_if only_calls_handle only_calls_return only_calls_client
      only_calls_patch_adapter_status) simp_all

lemma extract_selector_calls: "only_calls (adapter_call a) (extract_label_selector_default lib c g r)"
  unfolding extract_label_selector_default_def
  by (intro only_calls_call only_calls_return only_calls_client) (auto split: selector_field.splits)

lemma bind_adapter_calls: "only_calls (adapter_call a) (bind_adapter lib c a g role)"
  unfolding bind_adapter_def
  by (intro only_calls_call only_calls_return only_calls_client extract_selector_calls
      only_calls_patch_adapter_status only_calls_patch)
    (auto simp: role_based_group_scaling_adapter_def adapter_call_def adapter_write_def)

lemma time_now_calls: "only_calls P (time_now c)"
  by (auto simp: only_calls_def time_now_def)

lemma scale_role_trace:
  assumes "scale_role c retries a g name n s = (r, t)"
  shows "\<exists>us ps. calls t = calls s @ us @ ps \<and> scale_trace name n g us \<and> list_all (adapter_call a) ps"
proof -
  obtain q u where upd: "update_role_replicas c retries g name n s = (q, u)" by fastforce
  from update_role_replicas_trace [OF upd] obtain us where us: "calls u = calls s @ us" "scale_trace name n g us"
    by blast
  have post: "only_calls (adapter_call a) (call (record_event (om_name (ad_meta a)) ''FailedScale'') (\<lambda>_. return_err e))"
    for e :: go_error by (intro only_calls_call only_calls_return only_calls_client) simp
  have ok: "only_calls (adapter_call a) (call (time_now c) (\<lambda>now.
         call (patch_adapter_status c a (status_with_replicas (Some n) (Some now) (ad_status a))) (\<lambda>_.
         call (record_event (om_name (ad_meta a)) ''SuccessfulScale'') (\<lambda>_. return_ok (0::nat)))))"
    by (intro only_calls_call only_calls_return only_calls_client only_calls_patch_adapter_status time_now_calls) simp
  show ?thesis
  proof (cases q)
    case (Inl e)
    show ?thesis
    proof (cases "is_panic e")
      case True
      with assms upd Inl have "t = u" by (simp add: scale_role_def handle_def)
      with us show ?thesis by (intro exI [of _ us] exI [of _ "[]"]) simp
    next
      case False
      with assms upd Inl have "call (record_event (om_name (ad_meta a)) ''FailedScale'') (\<lambda>_. return_err e) u = (r, t)"
        by (simp add: scale_role_def handle_def)
      from only_callsD [OF post this] us show ?thesis by (metis append_assoc)
    qed
  next
    case (Inr x)
    with assms upd have "call (time_now c) (\<lambda>now.
         call (patch_adapter_status c a (status_with_replicas (Some n) (Some now) (ad_status a))) (\<lambda>_.
         call (record_event (om_name (ad_meta a)) ''SuccessfulScale'') (\<lambda>_. return_ok (0::nat)))) u = (r, t)"
      by (simp add: scale_role_def handle_def)
    from only_callsD [OF ok this] us show ?thesis by (metis append_assoc)
  qed
qed

text \<open>A scale that succeeds ends with an accepted update of the group, the adapter's status and an event.\<close>

lemma scale_role_accepted:
  assumes "scale_role c retries a g name n s = (Inr k, t)"
  shows "k = 0 \<and> (\<exists>pre h b ob b' now. calls b = calls s @ pre \<and>
    do_update c as_rbg (ObjRbg (set_role_replicas name n h)) b = (Inr ob, b') \<and>
    (h = g \<or> (\<exists>k. CGet KRbg k (Inr (ObjRbg h)) \<in> set pre)) \<and>
    calls t = calls b' @ [CApplyStatus (adapter_with_status (status_with_replicas (Some n) (Some now) (ad_status a))
        (role_based_group_scaling_adapter a)), CEvent (om_name (ad_meta a)) ''SuccessfulScale''])"
proof -
  obtain q u where upd: "update_role_replicas c retries g name n s = (q, u)" by fastforce
  have ok: "q = Inr ()"
    using assms upd by (auto simp: scale_role_def handle_def call_eq_Inr_iff return_err_def split: sum.splits if_splits)
  with assms upd obtain now v w where "time_now c u = (Inr now, v)"
    and "patch_adapter_status c a (status_with_replicas (Some n) (Some now) (ad_status a)) v = (Inr (), w)"
    and "record_event (om_name (ad_meta a)) ''SuccessfulScale'' w = (Inr (), t)" and k: "k = 0"
    by (auto simp: scale_role_def handle_def call_eq_Inr_iff)
  then have "calls t = calls u @ [CApplyStatus (adapter_with_status (status_with_replicas (Some n) (Some now) (ad_status a))
        (role_based_group_scaling_adapter a)), CEvent (om_name (ad_meta a)) ''SuccessfulScale'']"
    by (auto simp: patch_adapter_status_def patch_object_apply_configuration_def call_eq_Inr_iff time_now_def
        record_event_def do_apply_status_def log_call_def split: prod.splits)
  with update_role_replicas_accepted [OF upd [unfolded ok]] k show ?thesis by blast
qed

text \<open>A reconcile either only reads, or it found the adapter's own group and acts on it. Because the
  adapter is managed by the group exactly when the group owns it, the branch that adds the owner
  reference is never taken.\<close>

definition adapter_target :: "'w client \<Rightarrow> nsname \<Rightarrow> 'w sys \<Rightarrow> scaling_adapter \<Rightarrow> adapter_scale_target_ref \<Rightarrow> rbg \<Rightarrow> 'w sys \<Rightarrow> bool" where
  "adapter_target c key s a ref g u \<longleftrightarrow>
     calls u = calls s @ [CGet KAdapter key (Inr (ObjAdapter a)),
       CGet KRbg (om_namespace (ad_meta a), tr_name ref) (Inr (ObjRbg g))] \<and>
     om_deletion (ad_meta a) = None \<and> as_scale_target_ref (ad_spec a) = Some ref \<and> contains_rbg_owner a g"

lemma reconcile_adapter_cases:
  assumes "reconcile_adapter lib c retries key s = (r, t)"
  obtains cs where "calls t = calls s @ cs" and "list_all is_read cs"
  | a ref g u where "adapter_target c key s a ref g u" and "unbind_adapter c a u = (r, t)"
  | a ref g u role where "adapter_target c key s a ref g u" and "get_role g (tr_role ref) = Inr role"
      and "reconcile_bound_adapter lib c retries a g role (tr_role ref) u = (r, t)"
proof -
  obtain q v where get: "do_get c KAdapter as_adapter key s = (q, v)" by fastforce
  from do_get_trace [OF get] obtain x where x: "calls v = calls s @ [CGet KAdapter key x]" "q = decode as_adapter x"
    by blast
  show thesis
  proof (cases "\<exists>a ref. q = Inr a \<and> om_deletion (ad_meta a) = None \<and> as_scale_target_ref (ad_spec a) = Some ref")
    case False
    with assms get have "t = v"
      by (auto simp: reconcile_adapter_def handle_def split: sum.splits if_splits option.splits)
    with x(1) that(1) show thesis by simp
  next
    case True
    then obtain a ref where a: "q = Inr a" "om_deletion (ad_meta a) = None" "as_scale_target_ref (ad_spec a) = Some ref"
      by blast
    with x(2) decode_found [of as_adapter x a] have xa: "x = Inr (ObjAdapter a)" by auto
    let ?gkey = "(om_namespace (ad_meta a), tr_name ref)"
    obtain p u where getg: "do_get c KRbg as_rbg ?gkey v = (p, u)" by fastforce
    from do_get_trace [OF getg] obtain y where y: "calls u = calls v @ [CGet KRbg ?gkey y]" "p = decode as_rbg y"
      by blast
    show thesis
    proof (cases "\<exists>g. p = Inr g \<and> contains_rbg_owner a g")
      case False
      with assms get getg a do_get_no_panic [of c KRbg as_rbg ?gkey v _ u] have "t = u"
        by (cases p) (auto simp: reconcile_adapter_def handle_def get_target_rbg_from_adapter_def Let_def
            is_scaling_adapter_managed_by_rbg_def contains_rbg_owner_def list_ex_iff split: if_splits)
      with x(1) y(1) that(1) show thesis by simp
    next
      case True
      then obtain g where g: "p = Inr g" "contains_rbg_owner a g" by blast
      with y(2) decode_found [of as_rbg y g] have "y = Inr (ObjRbg g)" by auto
      with x(1) xa y(1) a(2,3) g(2) have tgt: "adapter_target c key s a ref g u" by (simp add: adapter_target_def)
      show thesis
      proof (cases "get_role g (tr_role ref)")
        case (Inl e)
        with assms get getg a g have "unbind_adapter c a u = (r, t)"
          by (simp add: reconcile_adapter_def handle_def get_target_rbg_from_adapter_def Let_def managed_iff_contains_owner)
        with tgt that(2) show thesis by blast
      next
        case (Inr role)
        with assms get getg a g have "reconcile_bound_adapter lib c retries a g role (tr_role ref) u = (r, t)"
          by (simp add: reconcile_adapter_def handle_def get_target_rbg_from_adapter_def Let_def managed_iff_contains_owner)
        with tgt Inr that(3) show thesis by blast
      qed
    qed
  qed
qed

section \<open>Properties\<close>

text \<open>The calls of a reconcile that found its group: reads, events, patches of the adapter itself, and,
  when it is bound, updates of a group that was read, in which nothing but the replicas of the target
  role is changed, to the replicas the adapter asks for.\<close>

definition adapter_action :: "scaling_adapter \<Rightarrow> adapter_scale_target_ref \<Rightarrow> call list \<Rightarrow> call \<Rightarrow> bool" where
  "adapter_action a ref cs q \<longleftrightarrow> adapter_call a q \<or>
     (at_phase (ad_status a) = AdapterPhaseBound \<and>
      (\<exists>n h k. as_replicas (ad_spec a) = Some n \<and> q = CUpdate (ObjRbg (set_role_replicas (tr_role ref) n h)) \<and>
         CGet KRbg k (Inr (ObjRbg h)) \<in> set cs))"

lemma reconcile_bound_adapter_actions:
  assumes "reconcile_bound_adapter lib c retries a g role (tr_role ref) u = (r, t)" and "contains_rbg_owner a g"
    and "CGet KRbg key (Inr (ObjRbg g)) \<in> set pre"
  shows "\<exists>cs. calls t = calls u @ cs \<and> list_all (adapter_action a ref (pre @ cs)) cs"
proof -
  have quiet: "\<exists>cs. calls t = calls u @ cs \<and> list_all (adapter_action a ref (pre @ cs)) cs"
    if only: "only_calls (adapter_call a) m" and run: "m u = (r, t)" for m :: "('a, nat) act"
    using only_callsD [OF only run] by (metis (mono_tags) adapter_action_def list_all_iff)
  consider (bind) "at_phase (ad_status a) \<noteq> AdapterPhaseBound"
    | (scale) n m where "at_phase (ad_status a) = AdapterPhaseBound" "as_replicas (ad_spec a) = Some n"
        "r_replicas role = Some m" "n \<noteq> m"
    | (idle) "at_phase (ad_status a) = AdapterPhaseBound"
        "as_replicas (ad_spec a) = None \<or> r_replicas role = None \<or> as_replicas (ad_spec a) = r_replicas role"
    by (cases "as_replicas (ad_spec a)"; cases "r_replicas role") auto
  then show ?thesis
  proof cases
    case bind
    with assms have "bind_adapter lib c a g role u = (r, t)" by (simp add: reconcile_bound_adapter_def)
    with bind_adapter_calls show ?thesis by (rule quiet)
  next
    case (scale n m)
    with assms have "scale_role c retries a g (tr_role ref) n u = (r, t)" by (simp add: reconcile_bound_adapter_def)
    from scale_role_trace [OF this] obtain us ps where cs: "calls t = calls u @ us @ ps"
      and us: "scale_trace (tr_role ref) n g us" and ps: "list_all (adapter_call a) ps" by blast
    have "adapter_action a ref (pre @ us @ ps) q" if "q \<in> set us" for q
    proof -
      from us that consider "\<exists>k a. q = CGet KRbg k a"
        | h where "q = CUpdate (ObjRbg (set_role_replicas (tr_role ref) n h))"
          "h = g \<or> (\<exists>k. CGet KRbg k (Inr (ObjRbg h)) \<in> set us)"
        unfolding scale_trace_def by blast
      then show ?thesis
      proof cases
        case (2 h)
        from 2(2) assms(3) have "\<exists>k. CGet KRbg k (Inr (ObjRbg h)) \<in> set (pre @ us @ ps)"
          unfolding set_append Un_iff by blast
        with 2(1) scale(1,2) show ?thesis unfolding adapter_action_def by blast
      qed (auto simp: adapter_action_def)
    qed
    moreover have "adapter_action a ref (pre @ us @ ps) q" if "q \<in> set ps" for q
      using ps that by (simp add: list_all_iff adapter_action_def)
    ultimately show ?thesis using cs by (intro exI [of _ "us @ ps"]) (auto simp: list_all_iff)
  next
    case idle
    with assms have "(r, t) = (Inr 0, u)"
      by (auto simp: reconcile_bound_adapter_def return_ok_def split: option.splits if_splits)
    then show ?thesis by simp
  qed
qed

text \<open>C13: An adapter acts only on the group that owns it: every reconcile either only reads, or it has
  read an adapter that is not being deleted and its target group, and the group is an owner of the
  adapter. It then patches only this adapter, never adds an owner, and updates a group only when the
  adapter is bound, changing nothing but the target role's replicas, to those of the adapter.\<close>

theorem adapter_acts_on_owner:
  "\<exists>cs. calls (snd (reconcile_adapter lib c retries key s)) = calls s @ cs \<and>
    (list_all is_read cs \<or>
     (\<exists>a ref g. CGet KAdapter key (Inr (ObjAdapter a)) \<in> set cs \<and> om_deletion (ad_meta a) = None \<and>
        as_scale_target_ref (ad_spec a) = Some ref \<and>
        CGet KRbg (om_namespace (ad_meta a), tr_name ref) (Inr (ObjRbg g)) \<in> set cs \<and>
        contains_rbg_owner a g \<and> list_all (adapter_action a ref cs) cs))"
proof -
  obtain r t where run: "reconcile_adapter lib c retries key s = (r, t)" by fastforce
  have ?thesis if tgt: "adapter_target c key s a ref g u" and
    ds: "\<exists>ds. calls t = calls u @ ds \<and> list_all (adapter_action a ref ([CGet KAdapter key (Inr (ObjAdapter a)),
       CGet KRbg (om_namespace (ad_meta a), tr_name ref) (Inr (ObjRbg g))] @ ds)) ds" for a ref g u
  proof -
    let ?pre = "[CGet KAdapter key (Inr (ObjAdapter a)),
       CGet KRbg (om_namespace (ad_meta a), tr_name ref) (Inr (ObjRbg g))]"
    from ds obtain ds where t: "calls t = calls u @ ds" and all: "list_all (adapter_action a ref (?pre @ ds)) ds" by blast
    have "list_all (adapter_action a ref (?pre @ ds)) (?pre @ ds)" using all by (simp add: adapter_action_def)
    with t tgt show ?thesis unfolding run snd_conv adapter_target_def
      by (intro exI [of _ "?pre @ ds"] conjI disjI2 exI [of _ a] exI [of _ ref] exI [of _ g]) simp_all
  qed
  note act = this
  from run show ?thesis
  proof (cases rule: reconcile_adapter_cases)
    case (1 cs)
    then show ?thesis unfolding run snd_conv by blast
  next
    case (2 a ref g u)
    from only_callsD [OF unbind_adapter_calls 2(2)] obtain ds where "calls t = calls u @ ds"
      "list_all (adapter_call a) ds" .
    with 2(1) show ?thesis by (intro act) (auto simp: list_all_iff adapter_action_def)
  next
    case (3 a ref g u role)
    then have "contains_rbg_owner a g" by (simp add: adapter_target_def)
    from reconcile_bound_adapter_actions [OF 3(3) this, where pre = "[CGet KAdapter key (Inr (ObjAdapter a)),
        CGet KRbg (om_namespace (ad_meta a), tr_name ref) (Inr (ObjRbg g))]"] 3(1)
    show ?thesis by (intro act) simp_all
  qed
qed

definition sample_adapter :: "int option \<Rightarrow> adapter_phase \<Rightarrow> scaling_adapter" where
  "sample_adapter n phase = \<lparr>ad_api_version = ''v1'', ad_kind = ''RoleBasedGroupScalingAdapter'',
     ad_meta = (sample_meta ''g-a'' ''uid-a'')\<lparr>om_owners := [rbg_controller_ref (sample_rbg [])]\<rparr>,
     ad_spec = \<lparr>as_replicas = n, as_scale_target_ref = Some \<lparr>tr_name = ''g'', tr_role = ''a''\<rparr>\<rparr>,
     ad_status = \<lparr>at_phase = phase, at_replicas = None, at_selector = [], at_last_scale_time = None\<rparr>\<rparr>"

theorem adapter_acts_on_owner_witness:
  "\<exists>cs a. cs = calls (snd (reconcile_adapter sample_lib store_client 3 (''ns'', ''g-a'')
       (run_on [ObjRbg (sample_rbg [sample_role ''a'' [] 3]), ObjAdapter (sample_adapter (Some 5) AdapterPhaseBound)]))) \<and>
     list_ex is_update cs \<and> CGet KAdapter (''ns'', ''g-a'') (Inr (ObjAdapter a)) \<in> set cs \<and>
     at_phase (ad_status a) = AdapterPhaseBound"
proof -
  let ?w = "run_on [ObjRbg (sample_rbg [sample_role ''a'' [] 3]), ObjAdapter (sample_adapter (Some 5) AdapterPhaseBound)]"
  let ?cs = "calls (snd (reconcile_adapter sample_lib store_client 3 (''ns'', ''g-a'') ?w))"
  have upd: "list_ex is_update ?cs" by code_simp
  then obtain q where q: "q \<in> set ?cs" "is_update q" by (auto simp: list_ex_iff)
  have quiet: "\<not> is_update q" if "adapter_call a q" for a q
    using that by (auto simp: adapter_call_def adapter_write_def is_read_def)
  have "\<not> is_read q" using q(2) by (auto simp: is_read_def)
  with q(1) have "\<not> list_all is_read ?cs" by (auto simp: list_all_iff)
  moreover have "calls ?w = []" by (simp add: run_on_def)
  ultimately obtain a ref where a: "CGet KAdapter (''ns'', ''g-a'') (Inr (ObjAdapter a)) \<in> set ?cs"
    and all: "list_all (adapter_action a ref ?cs) ?cs"
    using adapter_acts_on_owner [of sample_lib store_client 3 "(''ns'', ''g-a'')" ?w] by auto
  from all q(1) have "adapter_action a ref ?cs q" by (simp add: list_all_iff)
  with quiet q(2) have "at_phase (ad_status a) = AdapterPhaseBound" by (auto simp: adapter_action_def)
  with upd a show ?thesis by blast
qed

text \<open>C36: Scaling a role is bounded and exact, whatever the API server answers. At least one update is
  sent and at most one more than the retries; the only other requests are reads of groups. Every group
  that is sent is the given one or one read in this run, with the asked replicas in the target role and
  everything else as it was there: every other role, the other fields of the role, metadata and status.
  Success is reported only after an update, as the last request.\<close>

theorem scale_bounded_exact:
  "\<exists>cs. calls (snd (update_role_replicas c retries g name n s)) = calls s @ cs \<and>
    1 \<le> length (filter is_update cs) \<and> length (filter is_update cs) \<le> retries + 1 \<and>
    list_all (\<lambda>q. (\<exists>k a. q = CGet KRbg k a) \<or>
      (\<exists>h h'. q = CUpdate (ObjRbg h') \<and> (h = g \<or> (\<exists>k. CGet KRbg k (Inr (ObjRbg h)) \<in> set cs)) \<and>
         h' = h\<lparr>g_spec := (g_spec h)\<lparr>gp_roles := g_roles h'\<rparr>\<rparr> \<and> map r_name (g_roles h') = map r_name (g_roles h) \<and>
         (\<forall>k. get_role h' k = (case get_role h k of Inl e \<Rightarrow> Inl e
            | Inr r \<Rightarrow> Inr (if k = name then r\<lparr>r_replicas := Some n\<rparr> else r))))) cs \<and>
    (fst (update_role_replicas c retries g name n s) = Inr () \<longrightarrow> is_update (last cs))"
proof -
  obtain q t where run: "update_role_replicas c retries g name n s = (q, t)" by fastforce
  from update_role_replicas_trace [OF run] obtain cs where t: "calls t = calls s @ cs"
    and cs: "scale_trace name n g cs" and len: "length (filter is_update cs) \<le> Suc retries" by blast
  from update_role_replicas_sends [OF run] t have "1 \<le> length (filter is_update cs)" by auto
  moreover have "is_update (last cs)" if "q = Inr ()"
    using update_role_replicas_accepted [OF run [unfolded that]] t by (auto dest!: do_update_last)
  moreover have "h' = h\<lparr>g_spec := (g_spec h)\<lparr>gp_roles := g_roles h'\<rparr>\<rparr> \<and> map r_name (g_roles h') = map r_name (g_roles h) \<and>
      (\<forall>k. get_role h' k = (case get_role h k of Inl e \<Rightarrow> Inl e
            | Inr r \<Rightarrow> Inr (if k = name then r\<lparr>r_replicas := Some n\<rparr> else r)))" if "h' = set_role_replicas name n h" for h h'
    unfolding that get_role_set_replicas by (simp add: set_role_replicas_def)
  then have "list_all (\<lambda>q. (\<exists>k a. q = CGet KRbg k a) \<or>
      (\<exists>h h'. q = CUpdate (ObjRbg h') \<and> (h = g \<or> (\<exists>k. CGet KRbg k (Inr (ObjRbg h)) \<in> set cs)) \<and>
         h' = h\<lparr>g_spec := (g_spec h)\<lparr>gp_roles := g_roles h'\<rparr>\<rparr> \<and> map r_name (g_roles h') = map r_name (g_roles h) \<and>
         (\<forall>k. get_role h' k = (case get_role h k of Inl e \<Rightarrow> Inl e
            | Inr r \<Rightarrow> Inr (if k = name then r\<lparr>r_replicas := Some n\<rparr> else r))))) cs"
    using cs unfolding scale_trace_def list_all_iff by metis
  ultimately show ?thesis using t len unfolding run fst_conv snd_conv by (intro exI [of _ cs]) simp
qed

theorem scale_bounded_exact_witness:
  "\<exists>cs h'. calls (snd (update_role_replicas store_client 3 (sample_rbg [sample_role ''a'' [] 3, sample_role ''b'' [] 1])
       ''a'' 5 (run_on [ObjRbg (sample_rbg [sample_role ''a'' [] 3, sample_role ''b'' [] 1])]))) = cs \<and>
     CUpdate (ObjRbg h') \<in> set cs \<and> is_update (last cs) \<and>
     get_role h' ''a'' = Inr ((sample_role ''a'' [] 3)\<lparr>r_replicas := Some 5\<rparr>) \<and> get_role h' ''b'' = Inr (sample_role ''b'' [] 1)"
proof -
  let ?g = "sample_rbg [sample_role ''a'' [] 3, sample_role ''b'' [] 1]"
  let ?run = "update_role_replicas store_client 3 ?g ''a'' 5 (run_on [ObjRbg ?g])"
  have roles: "get_role ?g ''a'' = Inr (sample_role ''a'' [] 3)" "get_role ?g ''b'' = Inr (sample_role ''b'' [] 1)"
    by (simp_all add: get_role_def sample_rbg_def sample_role_def)
  have ok: "fst ?run = Inr ()" and one: "length (calls (snd ?run)) = 1" by code_simp+
  from scale_bounded_exact [of store_client 3 ?g "''a''" 5 "run_on [ObjRbg ?g]"] obtain cs where
    cs: "calls (snd ?run) = calls (run_on [ObjRbg ?g]) @ cs" and last: "fst ?run = Inr () \<longrightarrow> is_update (last cs)" and
    all: "list_all (\<lambda>q. (\<exists>k a. q = CGet KRbg k a) \<or>
      (\<exists>h h'. q = CUpdate (ObjRbg h') \<and> (h = ?g \<or> (\<exists>k. CGet KRbg k (Inr (ObjRbg h)) \<in> set cs)) \<and>
         h' = h\<lparr>g_spec := (g_spec h)\<lparr>gp_roles := g_roles h'\<rparr>\<rparr> \<and> map r_name (g_roles h') = map r_name (g_roles h) \<and>
         (\<forall>k. get_role h' k = (case get_role h k of Inl e \<Rightarrow> Inl e
            | Inr r \<Rightarrow> Inr (if k = ''a'' then r\<lparr>r_replicas := Some 5\<rparr> else r))))) cs" by blast
  have cs: "calls (snd ?run) = cs" and last: "is_update (last cs)" using cs last ok by (simp_all add: run_on_def)
  from one cs obtain q where q: "cs = [q]" by (metis One_nat_def length_0_conv length_Suc_conv)
  with last all have "\<exists>h'. q = CUpdate (ObjRbg h') \<and> (\<forall>k. get_role h' k = (case get_role ?g k of Inl e \<Rightarrow> Inl e
            | Inr r \<Rightarrow> Inr (if k = ''a'' then r\<lparr>r_replicas := Some 5\<rparr> else r)))" by auto
  then obtain h' where "q = CUpdate (ObjRbg h')" and h': "\<forall>k. get_role h' k = (case get_role ?g k of Inl e \<Rightarrow> Inl e
            | Inr r \<Rightarrow> Inr (if k = ''a'' then r\<lparr>r_replicas := Some 5\<rparr> else r))" by blast
  with q cs last spec [OF h', of "''a''"] spec [OF h', of "''b''"] roles show ?thesis
    by (intro exI [of _ cs] exI [of _ h']) simp
qed

text \<open>A bound adapter whose replicas are those of the role, or that has none, is at rest: the reconcile
  reads the adapter and the group, requests nothing else and is not run again.\<close>

theorem adapter_at_rest:
  assumes "do_get c KAdapter as_adapter key s = (Inr a, u)" and "om_deletion (ad_meta a) = None"
    and "as_scale_target_ref (ad_spec a) = Some ref"
    and "do_get c KRbg as_rbg (om_namespace (ad_meta a), tr_name ref) u = (Inr g, t)"
    and "get_role g (tr_role ref) = Inr role" and "contains_rbg_owner a g"
    and "at_phase (ad_status a) = AdapterPhaseBound"
    and "as_replicas (ad_spec a) = None \<or> as_replicas (ad_spec a) = r_replicas role"
  shows "reconcile_adapter lib c retries key s = (Inr 0, t)"
  using assms
  by (auto simp: reconcile_adapter_def handle_def get_target_rbg_from_adapter_def Let_def managed_iff_contains_owner
      reconcile_bound_adapter_def return_ok_def split: option.splits)

theorem adapter_at_rest_witness:
  "fst (reconcile_adapter sample_lib store_client 3 (''ns'', ''g-a'') (run_on [ObjRbg (sample_rbg [sample_role ''a'' [] 3]),
      ObjAdapter (sample_adapter (Some 3) AdapterPhaseBound)])) = Inr 0"
proof -
  let ?g = "sample_rbg [sample_role ''a'' [] 3]" and ?a = "sample_adapter (Some 3) AdapterPhaseBound"
  let ?w = "run_on [ObjRbg ?g, ObjAdapter ?a]"
  have "fst (do_get store_client KAdapter as_adapter (''ns'', ''g-a'') ?w) = Inr ?a" by code_simp
  then obtain u where u: "do_get store_client KAdapter as_adapter (''ns'', ''g-a'') ?w = (Inr ?a, u)"
    by (metis prod.collapse)
  have "fst (do_get store_client KRbg as_rbg (om_namespace (ad_meta ?a), ''g'')
      (snd (do_get store_client KAdapter as_adapter (''ns'', ''g-a'') ?w))) = Inr ?g" by code_simp
  then obtain t where t: "do_get store_client KRbg as_rbg (om_namespace (ad_meta ?a), tr_name \<lparr>tr_name = ''g'', tr_role = ''a''\<rparr>) u
      = (Inr ?g, t)" unfolding u by (metis prod.collapse snd_conv adapter_scale_target_ref.select_convs(1))
  have r: "get_role ?g (tr_role \<lparr>tr_name = ''g'', tr_role = ''a''\<rparr>) = Inr (sample_role ''a'' [] 3)"
    by (simp add: get_role_def sample_rbg_def sample_role_def)
  have "contains_rbg_owner ?a ?g" by code_simp
  moreover have "om_deletion (ad_meta ?a) = None" and "as_scale_target_ref (ad_spec ?a) = Some \<lparr>tr_name = ''g'', tr_role = ''a''\<rparr>"
    and "at_phase (ad_status ?a) = AdapterPhaseBound" and "as_replicas (ad_spec ?a) = r_replicas (sample_role ''a'' [] 3)"
    by (simp_all add: sample_adapter_def sample_defs)
  ultimately have "reconcile_adapter sample_lib store_client 3 (''ns'', ''g-a'') ?w = (Inr 0, t)"
    using u t r by (intro adapter_at_rest) auto
  then show ?thesis by simp
qed

text \<open>The selector of a LeaderWorkerSet role is looked up under a kind that does not exist: group and
  version of a StatefulSet, kind of a LeaderWorkerSet.\<close>

lemma lws_selector_kind:
  "selector_gvk sample_lib \<lparr>ws_api_version = ''leaderworkerset.x-k8s.io/v1'', ws_kind = ''LeaderWorkerSet''\<rparr>
     = Inr (KGvk ''apps'' ''v1'' ''LeaderWorkerSet'')"
  by code_simp

end
