(* ===== verification/Group_Controller.thy ===== *)
theory Group_Controller
  imports Scaling_Adapter
begin

text \<open>
  The controller of the group itself (\<open>rolebasedgroup_controller.go\<close>): the roles are sorted, the
  PodGroup is settled, then every role is reconciled in order, each only when all roles it depends
  on are ready, then the status is patched and what no role claims any more is deleted.

  A reconcile returns the delay after which it is run again, in the unit of \<open>time.Duration\<close>. The
  kinds the controller already watches (\<open>watchedWorkload\<close>) are the \<open>watched\<close> field of the state;
  registering a further watch with the running manager (\<open>runtimeController.Owns\<close>) has no effect on
  the requests and is not modelled. \<open>apiReader\<close>, which reads past the cache, is a client of its own.
\<close>

section \<open>Events and watches\<close>

definition FailedGetRBG :: string where "FailedGetRBG = ''FailedGetRBG''"
definition InvalidRoleDependency :: string where "InvalidRoleDependency = ''InvalidRoleDependency''"
definition FailedCheckRoleDependency :: string where "FailedCheckRoleDependency = ''FailedCheckRoleDependency''"
definition FailedReconcileWorkload :: string where "FailedReconcileWorkload = ''FailedReconcileWorkload''"
definition FailedCreateScalingAdapter :: string where "FailedCreateScalingAdapter = ''FailedCreateScalingAdapter''"
definition Succeed :: string where "Succeed = ''Succeed''"
definition FailedUpdateStatus :: string where "FailedUpdateStatus = ''FailedUpdateStatus''"
definition FailedCreatePodGroup :: string where "FailedCreatePodGroup = ''FailedCreatePodGroup''"

definition is_watched :: "string \<Rightarrow> ('w, bool) act" where
  "is_watched name s = (Inr (name \<in> set (watched s)), s)"

definition store_watched :: "string \<Rightarrow> ('w, unit) act" where
  "store_watched name s = (Inr (), if name \<in> set (watched s) then s else s\<lparr>watched := watched s @ [name]\<rparr>)"

text \<open>\<open>if err := m(); err != nil { recorder.Event(rbg, reason, err); return err }\<close>\<close>

definition on_error :: "rbg \<Rightarrow> string \<Rightarrow> ('w, 'a) act \<Rightarrow> ('w, 'a) act" where
  "on_error g reason m = handle m (\<lambda>q. case q of
       Inr x \<Rightarrow> return_ok x
     | Inl e \<Rightarrow> call (record_event (g_name g) reason) (\<lambda>_. return_err e))"

definition dynamic_watch_custom_crd :: "string \<Rightarrow> ('w, unit) act" where
  "dynamic_watch_custom_crd kind_name =
     (if kind_name = ''LeaderWorkerSet''
      then call (is_watched LwsCrdName) (\<lambda>lws_exist.
        if \<not> lws_exist then store_watched LwsCrdName else return_ok ())
      else return_ok ())"

text \<open>Whether PodGroups are watched, after trying to start with it when gang scheduling is on.\<close>

definition watch_pod_groups :: "'w client \<Rightarrow> rbg \<Rightarrow> ('w, bool) act" where
  "watch_pod_groups rd g =
     call (is_watched PodGroupCrdName) (\<lambda>pod_group_exist.
     if enable_gang_scheduling g \<and> \<not> pod_group_exist
     then handle (check_crd_exists rd PodGroupCrdName) (\<lambda>q. case q of
         Inr _ \<Rightarrow> call (store_watched PodGroupCrdName) (\<lambda>_. return_ok True)
       | Inl e \<Rightarrow> return_ok pod_group_exist)
     else return_ok pod_group_exist)"

section \<open>Scaling adapters of a group\<close>

definition new_scaling_adapter :: "rbg \<Rightarrow> role_spec \<Rightarrow> scaling_adapter" where
  "new_scaling_adapter g r = \<lparr>ad_api_version = [], ad_kind = [],
     ad_meta = empty_meta\<lparr>om_name := generate_scaling_adapter_name (g_name g) (r_name r),
       om_namespace := g_namespace g,
       om_owners := [\<lparr>or_api_version = g_api_version g, or_kind = g_kind g, or_name = g_name g,
         or_uid = g_uid g, or_controller = None, or_block_owner_deletion = Some True\<rparr>],
       om_labels := Some [(SetNameLabelKey, g_name g), (SetRoleLabelKey, r_name r)]\<rparr>,
     ad_spec = \<lparr>as_replicas = None, as_scale_target_ref = Some \<lparr>tr_name = g_name g, tr_role = r_name r\<rparr>\<rparr>,
     ad_status = \<lparr>at_phase = AdapterPhaseNone, at_replicas = None, at_selector = [], at_last_scale_time = None\<rparr>\<rparr>"

definition reconcile_scaling_adapter :: "'w client \<Rightarrow> rbg \<Rightarrow> role_spec \<Rightarrow> ('w, unit) act" where
  "reconcile_scaling_adapter c g r =
     handle (do_get c KAdapter as_adapter (g_namespace g, generate_scaling_adapter_name (g_name g) (r_name r))) (\<lambda>q.
       case q of
         Inr a \<Rightarrow> if \<not> is_scaling_adapter_enable (Some r) then do_delete c (ObjAdapter a) else return_ok ()
       | Inl e \<Rightarrow>
           if \<not> is_not_found e then return_err e
           else if \<not> is_scaling_adapter_enable (Some r) then return_ok ()
           else do_create c (ObjAdapter (new_scaling_adapter g r)))"

text \<open>The adapters a cleanup deletes: managed by the group and aimed at a role it does not have.\<close>

definition orphaned_adapter :: "rbg \<Rightarrow> scaling_adapter \<Rightarrow> bool" where
  "orphaned_adapter g a \<longleftrightarrow> is_scaling_adapter_managed_by_rbg (Some a) (Some g) \<and>
     (case as_scale_target_ref (ad_spec a) of None \<Rightarrow> False
      | Some ref \<Rightarrow> tr_name ref = g_name g \<and> \<not> list_ex (\<lambda>r. r_name r = tr_role ref) (g_roles g))"

definition cleanup_orphaned_scaling_adapters :: "'w client \<Rightarrow> rbg \<Rightarrow> ('w, unit) act" where
  "cleanup_orphaned_scaling_adapters c g =
     call (do_list c KAdapter as_adapter (g_namespace g) (owner_selector g)) (\<lambda>xs.
     for_each (\<lambda>a. if orphaned_adapter g a
         then wrap_err (DeleteFailed (om_name (ad_meta a))) (do_delete c (ObjAdapter a))
         else return_ok ()) xs)"

section \<open>The reconcile\<close>

text \<open>\<open>if err := m(); err != nil { errs = append(errs, err) }\<close>\<close>

definition collect_error :: "('w, unit) act \<Rightarrow> go_error list \<Rightarrow> ('w, go_error list) act" where
  "collect_error m errs = handle m (\<lambda>q. case q of Inl e \<Rightarrow> return_ok (errs @ [e]) | Inr _ \<Rightarrow> return_ok errs)"

definition delete_roles :: "klib \<Rightarrow> 'w client \<Rightarrow> rbg \<Rightarrow> ('w, unit) act" where
  "delete_roles lib c g =
     call (collect_error (deployment_cleanup lib c g) []) (\<lambda>errs.
     call (collect_error (sts_cleanup lib c g) errs) (\<lambda>errs.
     call (collect_error (lws_cleanup lib c g) errs) (\<lambda>errs.
     call (collect_error (cleanup_orphaned_scaling_adapters c g) errs) (\<lambda>errs.
     if errs = [] then return_ok () else return_err (Aggregate errs)))))"

definition construct_role_status :: "'w workload_ops \<Rightarrow> rbg \<Rightarrow> role_spec \<Rightarrow> ('w, role_status \<times> bool) act" where
  "construct_role_status ops g r = handle (wo_role_status ops g r) (\<lambda>q. case q of
       Inr x \<Rightarrow> return_ok x
     | Inl e \<Rightarrow>
         if is_not_found e then return_err e
         else call (record_event (g_name g) FailedReconcileWorkload) (\<lambda>_. return_err e))"

definition reconcile_role :: "klib \<Rightarrow> 'w client \<Rightarrow> nat \<Rightarrow> rbg \<Rightarrow> role_spec \<Rightarrow> ('w, role_status \<times> bool) act" where
  "reconcile_role lib c attempts g r =
     call (on_error g FailedReconcileWorkload (of_res (new_workload_reconciler lib c attempts (r_workload r)))) (\<lambda>ops.
     call (on_error g FailedReconcileWorkload (wo_reconcile ops g r)) (\<lambda>_.
     call (on_error g FailedCreateScalingAdapter (reconcile_scaling_adapter c g r)) (\<lambda>_.
     construct_role_status ops g r)))"

text \<open>The loop over the sorted roles; \<open>None\<close> when it stops at a role whose dependencies are not ready.\<close>

primrec reconcile_roles ::
  "klib \<Rightarrow> 'w client \<Rightarrow> nat \<Rightarrow> rbg \<Rightarrow> role_spec list \<Rightarrow> bool \<Rightarrow> role_status list \<Rightarrow> ('w, (bool \<times> role_status list) option) act" where
  "reconcile_roles lib c attempts g [] update_status role_statuses = return_ok (Some (update_status, role_statuses))"
| "reconcile_roles lib c attempts g (r # rs) update_status role_statuses =
     call (dynamic_watch_custom_crd (ws_kind (r_workload r))) (\<lambda>_.
     call (on_error g FailedCheckRoleDependency (check_dependency_ready lib c attempts g r)) (\<lambda>ready.
     if \<not> ready then return_ok None
     else call (reconcile_role lib c attempts g r) (\<lambda>(role_status, update_role_status).
       reconcile_roles lib c attempts g rs (update_status \<or> update_role_status) (role_statuses @ [role_status]))))"

definition reconcile_sorted ::
  "klib \<Rightarrow> 'w client \<Rightarrow> 'w client \<Rightarrow> nat \<Rightarrow> nat \<Rightarrow> rbg \<Rightarrow> role_spec list \<Rightarrow> ('w, nat) act" where
  "reconcile_sorted lib c rd attempts retries g sorted_roles =
     call (watch_pod_groups rd g) (\<lambda>pod_group_exist.
     call (if pod_group_exist then on_error g FailedCreatePodGroup (reconcile_pod_group c retries g)
           else return_ok ()) (\<lambda>_.
     call (reconcile_roles lib c attempts g sorted_roles False []) (\<lambda>finished.
     case finished of
       None \<Rightarrow> return_ok 5
     | Some (update_status, role_statuses) \<Rightarrow>
         call (if update_status then on_error g FailedUpdateStatus (update_rbg_status c g role_statuses)
               else return_ok ()) (\<lambda>_.
         call (on_error g ''delete role error'' (delete_roles lib c g)) (\<lambda>_.
         call (record_event (g_name g) Succeed) (\<lambda>_.
         return_ok 0))))))"

definition reconcile_group ::
  "klib \<Rightarrow> 'w client \<Rightarrow> 'w client \<Rightarrow> nat \<Rightarrow> nat \<Rightarrow> nsname \<Rightarrow> ('w, nat) act" where
  "reconcile_group lib c rd attempts retries key =
     handle (do_get c KRbg as_rbg key) (\<lambda>q. case q of
       Inl e \<Rightarrow> call (record_event [] FailedGetRBG) (\<lambda>_. if is_not_found e then return_ok 0 else return_err e)
     | Inr g \<Rightarrow>
         if om_deletion (g_meta g) \<noteq> None then return_ok 0
         else call (on_error g InvalidRoleDependency (of_res (sort_roles g))) (\<lambda>sorted_roles.
           reconcile_sorted lib c rd attempts retries g sorted_roles))"

text \<open>\<open>CheckCrdExists\<close> of the group controller.\<close>

definition group_crds :: "string list" where
  "group_crds = [''rolebasedgroups.workloads.x-k8s.io'', ''clusterengineruntimeprofiles.workloads.x-k8s.io'']"

definition check_group_crds :: "'w client \<Rightarrow> ('w, unit) act" where
  "check_group_crds rd = for_each (check_crd_exists rd) group_crds"

section \<open>What a reconcile requests\<close>

text \<open>\<open>makes P m\<close>: every call that \<open>m\<close> adds satisfies \<open>P\<close>; unlike \<open>only_calls\<close> it says nothing of the
  watched kinds.\<close>

definition makes :: "(call \<Rightarrow> bool) \<Rightarrow> ('w, 'a) act \<Rightarrow> bool" where
  "makes P m \<longleftrightarrow> (\<forall>s r t. m s = (r, t) \<longrightarrow> (\<exists>cs. calls t = calls s @ cs \<and> list_all P cs))"

lemma makesD:
  assumes "makes P m" and "m s = (r, t)"
  obtains cs where "calls t = calls s @ cs" and "list_all P cs"
  using assms unfolding makes_def by blast

lemma makes_only: "only_calls P m \<Longrightarrow> makes P m"
  unfolding makes_def only_calls_def by blast

lemma makes_mono: "makes P m \<Longrightarrow> (\<And>q. P q \<Longrightarrow> Q q) \<Longrightarrow> makes Q m"
  unfolding makes_def list_all_iff by blast

lemma makes_return [simp]: "makes P (return_ok x)" "makes P (return_err e)" "makes P (of_res r)"
  by (simp_all add: makes_only)

lemma makes_callI:
  assumes "makes P m" and "\<And>x s t. m s = (Inr x, t) \<Longrightarrow> makes P (f x)"
  shows "makes P (call m f)"
  unfolding makes_def
proof (intro allI impI)
  fix s r u assume run: "call m f s = (r, u)"
  obtain q t where m: "m s = (q, t)" by fastforce
  with assms(1) obtain cs where cs: "calls t = calls s @ cs" "list_all P cs" by (rule makesD)
  show "\<exists>cs. calls u = calls s @ cs \<and> list_all P cs"
  proof (cases q)
    case (Inl e)
    with run m cs show ?thesis by (auto simp: call_def)
  next
    case (Inr x)
    with run m have "f x t = (r, u)" by (simp add: call_def)
    with assms(2) [OF m [unfolded Inr]] obtain ds where "calls u = calls t @ ds" "list_all P ds" by (rule makesD)
    with cs show ?thesis by auto
  qed
qed

lemma makes_handle:
  assumes "makes P m" and "\<And>q. makes P (f q)"
  shows "makes P (handle m f)"
  unfolding makes_def
proof (intro allI impI)
  fix s r u assume run: "handle m f s = (r, u)"
  obtain q t where m: "m s = (q, t)" by fastforce
  with assms(1) obtain cs where cs: "calls t = calls s @ cs" "list_all P cs" by (rule makesD)
  have "u = t \<or> f q t = (r, u)" using run m by (auto simp: handle_def split: sum.splits if_splits)
  then show "\<exists>cs. calls u = calls s @ cs \<and> list_all P cs"
  proof
    assume "u = t"
    with cs show ?thesis by blast
  next
    assume "f q t = (r, u)"
    with assms(2) obtain ds where "calls u = calls t @ ds" "list_all P ds" by (rule makesD)
    with cs show ?thesis by auto
  qed
qed

lemma makes_if: "(b \<Longrightarrow> makes P m) \<Longrightarrow> (\<not> b \<Longrightarrow> makes P n) \<Longrightarrow> makes P (if b then m else n)"
  by simp

lemma makes_event: "P (CEvent n e) \<Longrightarrow> makes P (record_event n e)"
  by (intro makes_only only_calls_client)

lemma makes_on_error:
  assumes "makes P m" and "P (CEvent (g_name g) reason)"
  shows "makes P (on_error g reason m)"
  unfolding on_error_def
proof (rule makes_handle [OF assms(1)])
  fix q :: "'b res"
  show "makes P (case q of Inl e \<Rightarrow> call (record_event (g_name g) reason) (\<lambda>_. return_err e) | Inr x \<Rightarrow> return_ok x)"
    by (cases q) (auto intro!: makes_callI makes_event assms(2))
qed

lemma makes_collect: "makes P m \<Longrightarrow> makes P (collect_error m errs)"
  unfolding collect_error_def by (rule makes_handle) (auto split: sum.splits)

lemma makes_watched [simp]: "makes P (is_watched n)" "makes P (store_watched n)"
  by (auto simp: makes_def is_watched_def store_watched_def)

lemma makes_dynamic_watch [simp]: "makes P (dynamic_watch_custom_crd k)"
  unfolding dynamic_watch_custom_crd_def by (intro makes_if makes_callI) simp_all

lemma on_error_Inr [simp]: "on_error g reason m s = (Inr x, t) \<longleftrightarrow> m s = (Inr x, t)"
  by (auto simp: on_error_def handle_def call_eq_Inr_iff split: prod.splits sum.splits)

text \<open>The deletions: workloads the group controls and no role of their kind claims, adapters of roles
  that are gone or have none, and the PodGroup when gang scheduling is off.\<close>

definition group_delete :: "klib \<Rightarrow> rbg \<Rightarrow> obj \<Rightarrow> bool" where
  "group_delete lib g ob =
     (case ob of
        ObjSts x \<Rightarrow> lib_is_controlled_by lib (ss_meta x) (g_meta g) \<and> \<not> has_role_for g ''StatefulSet'' (om_name (ss_meta x))
      | ObjDeploy x \<Rightarrow> lib_is_controlled_by lib (dp_meta x) (g_meta g) \<and> \<not> has_role_for g ''Deployment'' (om_name (dp_meta x))
      | ObjLws x \<Rightarrow> lib_is_controlled_by lib (lw_meta x) (g_meta g) \<and> \<not> has_role_for g ''LeaderWorkerSet'' (om_name (lw_meta x))
      | ObjAdapter a \<Rightarrow> orphaned_adapter g a \<or> list_ex (\<lambda>r. \<not> is_scaling_adapter_enable (Some r)) (g_roles g)
      | ObjPodGroup _ \<Rightarrow> \<not> enable_gang_scheduling g
      | _ \<Rightarrow> False)"

text \<open>All requests of a reconcile.\<close>

definition group_call :: "klib \<Rightarrow> rbg \<Rightarrow> call \<Rightarrow> bool" where
  "group_call lib g q \<longleftrightarrow> is_read q \<or> list_ex (\<lambda>r. role_call g r q) (g_roles g) \<or>
     (case q of
        CEvent n e \<Rightarrow> n = g_name g
      | CApplyStatus p \<Rightarrow> (\<exists>conds sts. p = PatchRbgStatus (g_namespace g, g_name g) (g_kind g) (g_api_version g) conds sts)
      | CCreate ob \<Rightarrow> (\<exists>r. r \<in> set (g_roles g) \<and> is_scaling_adapter_enable (Some r) \<and> ob = ObjAdapter (new_scaling_adapter g r))
          \<or> (enable_gang_scheduling g \<and> (\<exists>pg. ob = ObjPodGroup pg))
      | CUpdate ob \<Rightarrow> enable_gang_scheduling g \<and> (\<exists>pg. ob = ObjPodGroup pg)
      | CDelete ob \<Rightarrow> group_delete lib g ob
      | _ \<Rightarrow> False)"

lemma group_call_simps [simp]:
  "is_read q \<Longrightarrow> group_call lib g q" "group_call lib g (CEvent (g_name g) e)"
  "group_delete lib g ob \<Longrightarrow> group_call lib g (CDelete ob)"
  by (simp_all add: group_call_def)

lemma group_call_role: "r \<in> set (g_roles g) \<Longrightarrow> role_call g r q \<Longrightarrow> group_call lib g q"
  by (auto simp: group_call_def list_ex_iff)

lemma watch_pod_groups_calls: "makes is_read (watch_pod_groups rd g)"
proof -
  have crd: "makes is_read (check_crd_exists rd PodGroupCrdName)"
    unfolding check_crd_exists_def by (intro makes_only only_calls_intros) simp
  show ?thesis
    unfolding watch_pod_groups_def
    by (intro makes_callI makes_if makes_handle crd makes_watched makes_return)
      (auto intro!: makes_callI split: sum.splits)
qed

text \<open>The requests that apply nothing.\<close>

definition quiet_call :: "klib \<Rightarrow> rbg \<Rightarrow> call \<Rightarrow> bool" where
  "quiet_call lib g q \<longleftrightarrow> group_call lib g q \<and> (\<forall>p. q \<noteq> CApply p)"

lemma quiet_call_simps [simp]:
  "is_read q \<Longrightarrow> quiet_call lib g q" "quiet_call lib g (CEvent (g_name g) e)"
  "group_delete lib g ob \<Longrightarrow> quiet_call lib g (CDelete ob)"
  by (auto simp: quiet_call_def is_read_def)

text \<open>The requests made on the way to the roles: nothing is applied and no status is patched.\<close>

definition settling_call :: "klib \<Rightarrow> rbg \<Rightarrow> call \<Rightarrow> bool" where
  "settling_call lib g q \<longleftrightarrow> quiet_call lib g q \<and> (\<forall>p. q \<noteq> CApplyStatus p)"

lemma settling_call_simps [simp]:
  "is_read q \<Longrightarrow> settling_call lib g q" "settling_call lib g (CEvent (g_name g) e)"
  "group_delete lib g ob \<Longrightarrow> settling_call lib g (CDelete ob)"
  by (auto simp: settling_call_def is_read_def)

lemma makes_settling: "makes (settling_call lib g) m \<Longrightarrow> makes (quiet_call lib g) m"
  by (erule makes_mono) (simp add: settling_call_def)

lemma pod_group_settles: "makes (settling_call lib g) (reconcile_pod_group c retries g)"
proof (cases "enable_gang_scheduling g")
  case True
  then have create: "settling_call lib g (CCreate (ObjPodGroup pg))" "settling_call lib g (CUpdate (ObjPodGroup pg))" for pg
    by (auto simp: group_call_def settling_call_def quiet_call_def)
  have upd: "only_calls (settling_call lib g) (update_min_member c g)"
    unfolding update_min_member_def by (intro only_calls_intros create) simp
  have retry: "only_calls (settling_call lib g) (retry_on_conflict k (update_min_member c g))" for k
  proof (induction k)
    case (Suc k)
    then show ?case by (simp, intro only_calls_handle upd) (auto split: sum.splits)
  qed (simp add: upd)
  have "only_calls (settling_call lib g) (create_or_update_pod_group c retries g)"
    unfolding create_or_update_pod_group_def
    by (intro only_calls_call only_calls_get_if_exists only_calls_return)
      (auto split: option.splits intro!: only_calls_call only_calls_if only_calls_client retry create)
  with True show ?thesis by (simp add: reconcile_pod_group_def makes_only)
next
  case False
  then have del: "settling_call lib g (CDelete (ObjPodGroup pg))" for pg by (simp add: group_delete_def)
  have "only_calls (settling_call lib g) (delete_pod_group c g)"
    unfolding delete_pod_group_def
    by (intro only_calls_call only_calls_get_if_exists) (auto split: option.splits intro!: only_calls_client del)
  with False show ?thesis by (simp add: reconcile_pod_group_def makes_only)
qed

lemma adapter_settles:
  assumes "r \<in> set (g_roles g)"
  shows "makes (settling_call lib g) (reconcile_scaling_adapter c g r)"
proof -
  have "settling_call lib g (CCreate (ObjAdapter (new_scaling_adapter g r)))" if "is_scaling_adapter_enable (Some r)"
    using assms that by (auto simp: group_call_def settling_call_def quiet_call_def)
  moreover have "settling_call lib g (CDelete (ObjAdapter a))" if "\<not> is_scaling_adapter_enable (Some r)" for a
    using assms that by (intro settling_call_simps(3)) (auto simp: group_delete_def list_ex_iff)
  ultimately have "only_calls (settling_call lib g) (reconcile_scaling_adapter c g r)"
    unfolding reconcile_scaling_adapter_def
    by (intro only_calls_handle only_calls_client)
      (auto split: sum.splits intro!: only_calls_if only_calls_client)
  then show ?thesis by (rule makes_only)
qed

lemmas pod_group_calls = pod_group_settles [THEN makes_settling]

lemma cleanup_quiet:
  assumes "only_calls (\<lambda>q. is_read q \<or> (\<exists>x. q = CDelete (to_obj x) \<and> P x)) m"
    and "\<And>x. P x \<Longrightarrow> group_delete lib g (to_obj x)"
  shows "makes (quiet_call lib g) m"
  by (rule makes_only, rule only_calls_mono [OF assms(1)]) (auto dest: assms(2))

lemma cleanup_adapters_quiet: "makes (quiet_call lib g) (cleanup_orphaned_scaling_adapters c g)"
  unfolding cleanup_orphaned_scaling_adapters_def
  by (intro makes_only only_calls_call only_calls_client only_calls_for_each only_calls_if only_calls_wrap_err
      only_calls_return) (simp_all add: group_delete_def)

lemma delete_roles_calls: "makes (quiet_call lib g) (delete_roles lib c g)"
proof -
  have dep: "makes (quiet_call lib g) (deployment_cleanup lib c g)"
    using deployment.cleanup_calls [where attempts = undefined] unfolding deployment_ops_def workload_ops.select_convs
    by (rule cleanup_quiet) (simp add: group_delete_def)
  have sts: "makes (quiet_call lib g) (sts_cleanup lib c g)"
    using sts.cleanup_calls [where attempts = undefined] unfolding sts_ops_def workload_ops.select_convs
    by (rule cleanup_quiet) (simp add: group_delete_def)
  have lws: "makes (quiet_call lib g) (lws_cleanup lib c g)"
    using lws.cleanup_calls [where attempts = undefined] unfolding lws_ops_def workload_ops.select_convs
    by (rule cleanup_quiet) (simp add: group_delete_def)
  show ?thesis
    unfolding delete_roles_def
    by (intro makes_callI makes_collect makes_if makes_return dep sts lws cleanup_adapters_quiet)
qed

lemma status_patch_quiet: "makes (quiet_call lib g) (update_rbg_status c g sts)"
proof -
  have keep: "g_meta (updated_status sts now g) = g_meta g" "g_kind (updated_status sts now g) = g_kind g"
    "g_api_version (updated_status sts now g) = g_api_version g" for now
    by (simp_all add: updated_status_def Let_def)
  have "makes (quiet_call lib g) (patch_group_status c (updated_status sts now g))" for now
    unfolding makes_def
  proof (intro allI impI)
    fix s r t assume "patch_group_status c (updated_status sts now g) s = (r, t)"
    from patch_group_status_run [OF this] show "\<exists>cs. calls t = calls s @ cs \<and> list_all (quiet_call lib g) cs"
      by (auto simp: keep quiet_call_def group_call_def)
  qed
  then show ?thesis
    unfolding update_rbg_status_def by (intro makes_callI makes_only [OF time_now_calls])
qed

end
