(* ===== verification/Group_Order.thy ===== *)
theory Group_Order
  imports Group_Controller
begin

text \<open>
  The order in which a group reconcile works, proved of its trace: a role's objects are applied only
  after its dependencies were read ready; a reconcile that succeeds has gone through every role; a
  reconcile that waits does so for a dependency it has gone through itself, so no two roles can wait
  for each other.
\<close>

section \<open>The order of roles\<close>

text \<open>\<open>gated g cs\<close>: wherever a request applies an object under the name of a role's workload, each role it
  depends on was read before, with all replicas ready.\<close>

definition dependencies_read :: "rbg \<Rightarrow> role_spec \<Rightarrow> call list \<Rightarrow> bool" where
  "dependencies_read g r cs \<longleftrightarrow> (\<forall>d \<in> set (r_dependencies r). \<exists>role q. get_role g d = Inr role \<and>
     q \<in> set cs \<and> read_ready g role q)"

definition gated :: "rbg \<Rightarrow> call list \<Rightarrow> bool" where
  "gated g cs \<longleftrightarrow> (\<forall>pre ob post r. cs = pre @ CApply (PatchObj ob) # post \<longrightarrow> r \<in> set (g_roles g) \<longrightarrow>
     obj_key ob = workload_key g r \<longrightarrow> dependencies_read g r pre)"

lemma dependencies_read_mono: "dependencies_read g r cs \<Longrightarrow> set cs \<subseteq> set ds \<Longrightarrow> dependencies_read g r ds"
  unfolding dependencies_read_def by blast

lemma gated_quiet: "list_all (quiet_call lib g) cs \<Longrightarrow> gated g cs"
  by (auto simp: gated_def quiet_call_def list_all_iff)

lemma split_at:
  "xs @ ys = pre @ q # post \<Longrightarrow>
   (\<exists>zs. xs = pre @ q # zs) \<or> (\<exists>zs. ys = zs @ q # post \<and> pre = xs @ zs)"
  by (auto simp: append_eq_append_conv2 append_eq_Cons_conv)

lemma gated_append:
  assumes "gated g xs" and "gated g ys"
  shows "gated g (xs @ ys)"
  unfolding gated_def
proof (intro allI impI)
  fix pre ob post r
  assume eq: "xs @ ys = pre @ CApply (PatchObj ob) # post" and r: "r \<in> set (g_roles g)" "obj_key ob = workload_key g r"
  from split_at [OF eq] consider zs where "xs = pre @ CApply (PatchObj ob) # zs"
    | zs where "ys = zs @ CApply (PatchObj ob) # post" "pre = xs @ zs" by blast
  then show "dependencies_read g r pre"
  proof cases
    case 1
    with assms(1) r show ?thesis by (auto simp: gated_def)
  next
    case (2 zs)
    with assms(2) r have "dependencies_read g r zs" by (auto simp: gated_def)
    then show ?thesis using 2(2) by (auto elim: dependencies_read_mono)
  qed
qed

text \<open>The part of one role: its dependencies were read, then only its own objects are applied.\<close>

definition role_or_quiet :: "klib \<Rightarrow> rbg \<Rightarrow> role_spec \<Rightarrow> call \<Rightarrow> bool" where
  "role_or_quiet lib g r q \<longleftrightarrow> role_call g r q \<or> settling_call lib g q"

lemma gated_role:
  assumes "unique_role_names g" and "r \<in> set (g_roles g)" and "dependencies_read g r pre" and "gated g pre"
    and "list_all (role_or_quiet lib g r) cs"
  shows "gated g (pre @ cs)"
  unfolding gated_def
proof (intro allI impI)
  fix xs ob post q
  assume eq: "pre @ cs = xs @ CApply (PatchObj ob) # post" and q: "q \<in> set (g_roles g)" "obj_key ob = workload_key g q"
  from split_at [OF eq] consider zs where "pre = xs @ CApply (PatchObj ob) # zs"
    | zs where "cs = zs @ CApply (PatchObj ob) # post" "xs = pre @ zs" by blast
  then show "dependencies_read g q xs"
  proof cases
    case 1
    with assms(4) q show ?thesis by (auto simp: gated_def)
  next
    case (2 zs)
    with assms(5) have "role_call g r (CApply (PatchObj ob))"
      by (auto simp: role_or_quiet_def settling_call_def quiet_call_def)
    then have "obj_key ob = workload_key g r" by (auto simp: role_call_def is_read_def)
    with q(2) have "r_name q = r_name r" by (simp add: workload_key_def get_workload_name_def)
    with assms(1,2) q(1) have "q = r" by (auto simp: unique_role_names_def distinct_map inj_on_def)
    with assms(3) 2(2) show ?thesis by (auto elim: dependencies_read_mono)
  qed
qed

lemma reconcile_role_calls:
  assumes "r \<in> set (g_roles g)"
  shows "makes (role_or_quiet lib g r) (reconcile_role lib c attempts g r)"
proof -
  have quiet: "makes (role_or_quiet lib g r) m" if "makes (settling_call lib g) m" for m :: "('a, 'b) act"
    using that by (rule makes_mono) (simp add: role_or_quiet_def)
  have ev: "role_or_quiet lib g r (CEvent (g_name g) e)" for e by (simp add: role_or_quiet_def)
  have status: "makes (role_or_quiet lib g r) (construct_role_status ops g r)"
    if "new_workload_reconciler lib c attempts (r_workload r) = Inr ops" for ops
  proof -
    have "makes (role_or_quiet lib g r) (wo_role_status ops g r)"
      using makes_only [OF dispatch_status_reads [OF that]] by (rule makes_mono) (simp add: role_or_quiet_def)
    then show ?thesis
      unfolding construct_role_status_def
      by (rule makes_handle) (auto split: sum.splits intro!: makes_if makes_callI makes_event ev)
  qed
  show ?thesis
    unfolding reconcile_role_def
  proof (intro makes_callI makes_on_error makes_return ev quiet [OF adapter_settles [OF assms]])
    fix ops :: "'a workload_ops" and s t
    assume "on_error g FailedReconcileWorkload (of_res (new_workload_reconciler lib c attempts (r_workload r))) s = (Inr ops, t)"
    then have ops: "new_workload_reconciler lib c attempts (r_workload r) = Inr ops" by simp
    show "makes (role_or_quiet lib g r) (wo_reconcile ops g r)"
      using makes_only [OF dispatch_reconcile_calls [OF ops]] by (rule makes_mono) (simp add: role_or_quiet_def)
    show "makes (role_or_quiet lib g r) (construct_role_status ops g r)" by (rule status [OF ops])
  qed
qed

definition gated_act :: "klib \<Rightarrow> rbg \<Rightarrow> ('w, 'a) act \<Rightarrow> bool" where
  "gated_act lib g m \<longleftrightarrow> (\<forall>s r t. m s = (r, t) \<longrightarrow>
     (\<exists>cs. calls t = calls s @ cs \<and> gated g cs \<and> list_all (group_call lib g) cs))"

lemma gated_actD:
  assumes "gated_act lib g m" and "m s = (r, t)"
  obtains cs where "calls t = calls s @ cs" and "gated g cs" and "list_all (group_call lib g) cs"
  using assms unfolding gated_act_def by blast

lemma gated_act_quiet: "makes (quiet_call lib g) m \<Longrightarrow> gated_act lib g m"
  unfolding makes_def gated_act_def by (metis (mono_tags) gated_quiet list_all_iff quiet_call_def)

lemma gated_act_return [simp]: "gated_act lib g (return_ok x)" "gated_act lib g (return_err e)"
  by (simp_all add: gated_act_quiet)

lemma gated_act_call:
  assumes "gated_act lib g m" and "\<And>x. gated_act lib g (f x)"
  shows "gated_act lib g (call m f)"
  unfolding gated_act_def
proof (intro allI impI)
  fix s r u assume run: "call m f s = (r, u)"
  obtain q t where m: "m s = (q, t)" by fastforce
  from gated_actD [OF assms(1) m] obtain cs where cs: "calls t = calls s @ cs" "gated g cs" "list_all (group_call lib g) cs" .
  show "\<exists>cs. calls u = calls s @ cs \<and> gated g cs \<and> list_all (group_call lib g) cs"
  proof (cases q)
    case (Inl e)
    with run m cs show ?thesis by (auto simp: call_def)
  next
    case (Inr x)
    with run m have "f x t = (r, u)" by (simp add: call_def)
    from gated_actD [OF assms(2) this] obtain ds where "calls u = calls t @ ds" "gated g ds" "list_all (group_call lib g) ds" .
    with cs show ?thesis by (intro exI [of _ "cs @ ds"]) (simp add: gated_append)
  qed
qed

lemma gated_act_if: "gated_act lib g m \<Longrightarrow> gated_act lib g n \<Longrightarrow> gated_act lib g (if b then m else n)"
  by simp

lemma dependency_check_quiet: "makes (quiet_call lib g) (check_dependency_ready lib c attempts g r)"
  unfolding check_dependency_ready_def
  by (rule makes_mono [OF makes_only [OF dependencies_ready_reads]]) simp

text \<open>One role: when the check says ready, what follows is gated by what the check read.\<close>

lemma gated_act_role:
  assumes "unique_role_names g" and "r \<in> set (g_roles g)" and rest: "\<And>x. gated_act lib g (f x)"
  shows "gated_act lib g (call (on_error g FailedCheckRoleDependency (check_dependency_ready lib c attempts g r)) (\<lambda>ready.
     if \<not> ready then return_ok None else call (reconcile_role lib c attempts g r) f))"
  unfolding gated_act_def
proof (intro allI impI)
  let ?check = "on_error g FailedCheckRoleDependency (check_dependency_ready lib c attempts g r)"
  fix s q u
  assume run: "call ?check (\<lambda>ready. if \<not> ready then return_ok None else call (reconcile_role lib c attempts g r) f) s = (q, u)"
  have check: "makes (quiet_call lib g) ?check" by (intro makes_on_error dependency_check_quiet) simp
  obtain b t where b: "?check s = (b, t)" by fastforce
  from makesD [OF check b] obtain cs where cs: "calls t = calls s @ cs" "list_all (quiet_call lib g) cs" .
  then have cs_ok: "gated g cs" "list_all (group_call lib g) cs"
    using gated_quiet [of lib g cs] by (simp_all add: list_all_iff quiet_call_def)
  show "\<exists>cs. calls u = calls s @ cs \<and> gated g cs \<and> list_all (group_call lib g) cs"
  proof (cases "b = Inr True")
    case False
    with run b have "u = t" by (cases b) (auto simp: call_def return_ok_def)
    with cs cs_ok show ?thesis by blast
  next
    case True
    with b have "dependencies_ready lib c attempts g (r_dependencies r) s = (Inr True, t)"
      by (simp add: check_dependency_ready_def)
    from dependencies_ready_true [OF this] cs(1)
    have "list_all2 (\<lambda>d q. \<exists>role. get_role g d = Inr role \<and> read_ready g role q) (r_dependencies r) cs" by auto
    then have deps: "dependencies_read g r cs"
      unfolding dependencies_read_def list_all2_conv_all_nth by (metis in_set_conv_nth nth_mem)
    obtain x v where x: "reconcile_role lib c attempts g r t = (x, v)" by fastforce
    from makesD [OF reconcile_role_calls [OF assms(2)] x] obtain ds
      where ds: "calls v = calls t @ ds" "list_all (role_or_quiet lib g r) ds" .
    have "gated g (cs @ ds)" by (rule gated_role [OF assms(1,2) deps cs_ok(1) ds(2)])
    moreover have "list_all (group_call lib g) (cs @ ds)"
      using cs_ok(2) ds(2) group_call_role [OF assms(2)] by (auto simp: list_all_iff role_or_quiet_def settling_call_def quiet_call_def)
    ultimately have part: "calls v = calls s @ (cs @ ds)" "gated g (cs @ ds)" "list_all (group_call lib g) (cs @ ds)"
      using cs(1) ds(1) by simp_all
    show ?thesis
    proof (cases x)
      case (Inl e)
      with run b True x have "u = v" by (simp add: call_def)
      with part show ?thesis by blast
    next
      case (Inr y)
      with run b True x have "f y v = (q, u)" by (simp add: call_def)
      from gated_actD [OF rest this] obtain es where "calls u = calls v @ es" "gated g es" "list_all (group_call lib g) es" .
      with part show ?thesis by (intro exI [of _ "(cs @ ds) @ es"]) (simp add: gated_append del: append_assoc)
    qed
  qed
qed

lemma gated_act_roles:
  "unique_role_names g \<Longrightarrow> set rs \<subseteq> set (g_roles g) \<Longrightarrow> gated_act lib g (reconcile_roles lib c attempts g rs upd sts)"
proof (induction rs arbitrary: upd sts)
  case (Cons r rs)
  show ?case
    unfolding reconcile_roles.simps
  proof (rule gated_act_call)
    show "gated_act lib g (dynamic_watch_custom_crd (ws_kind (r_workload r)))" by (simp add: gated_act_quiet)
  qed (rule gated_act_role, use Cons in \<open>auto split: prod.splits\<close>)
qed simp

lemma gated_act_sorted:
  assumes "unique_role_names g" and "sort_roles g = Inr rs"
  shows "gated_act lib g (reconcile_sorted lib c rd attempts retries g rs)"
proof -
  have quiet: "gated_act lib g (on_error g e m)" if "makes (quiet_call lib g) m" for e and m :: "('a, 'b) act"
    using that by (intro gated_act_quiet makes_on_error) simp_all
  have watch: "gated_act lib g (watch_pod_groups rd g)"
    by (rule gated_act_quiet, rule makes_mono [OF watch_pod_groups_calls]) simp
  have roles: "gated_act lib g (reconcile_roles lib c attempts g rs False [])"
    by (rule gated_act_roles [OF assms(1) sort_roles_Inr(2) [OF assms(2)]])
  have tail: "gated_act lib g (case x of None \<Rightarrow> return_ok 5
     | Some (update_status, role_statuses) \<Rightarrow>
         call (if update_status then on_error g FailedUpdateStatus (update_rbg_status c g role_statuses)
               else return_ok ()) (\<lambda>_.
         call (on_error g ''delete role error'' (delete_roles lib c g)) (\<lambda>_.
         call (record_event (g_name g) Succeed) (\<lambda>_.
         return_ok 0))))" for x
    by (auto split: option.splits prod.splits
        intro!: gated_act_call gated_act_if quiet status_patch_quiet delete_roles_calls gated_act_quiet [OF makes_event])
  show ?thesis
    unfolding reconcile_sorted_def
    by (intro gated_act_call gated_act_if watch quiet [OF pod_group_calls] gated_act_return roles tail)
qed

lemma reconcile_group_trace:
  assumes "reconcile_group lib c rd attempts retries key s = (q, t)"
    and "do_get c KRbg as_rbg key s = (Inr g, u)" and "unique_role_names g"
  shows "\<exists>cs. calls t = calls u @ cs \<and> gated g cs \<and> list_all (group_call lib g) cs"
proof -
  have "gated_act lib g (if om_deletion (g_meta g) \<noteq> None then return_ok 0
         else call (on_error g InvalidRoleDependency (of_res (sort_roles g))) (\<lambda>sorted_roles.
           reconcile_sorted lib c rd attempts retries g sorted_roles))"
  proof (rule gated_act_if [OF gated_act_return(1)])
    have err: "makes (quiet_call lib g) (on_error g InvalidRoleDependency (of_res (sort_roles g)))"
      by (intro makes_on_error makes_return) simp
    show "gated_act lib g (call (on_error g InvalidRoleDependency (of_res (sort_roles g))) (\<lambda>sorted_roles.
           reconcile_sorted lib c rd attempts retries g sorted_roles))"
    proof (cases "sort_roles g")
      case (Inl e)
      show ?thesis
        unfolding gated_act_def
      proof (intro allI impI)
        fix v p w assume run: "call (on_error g InvalidRoleDependency (of_res (sort_roles g))) (\<lambda>sorted_roles.
           reconcile_sorted lib c rd attempts retries g sorted_roles) v = (p, w)"
        obtain b x where b: "on_error g InvalidRoleDependency (of_res (sort_roles g)) v = (b, x)" by fastforce
        have "x = w"
        proof (cases b)
          case (Inr y)
          with b Inl show ?thesis by simp
        qed (use run b in \<open>simp add: call_def\<close>)
        note b = b [unfolded this]
        from gated_actD [OF gated_act_quiet [OF err] b]
        show "\<exists>cs. calls w = calls v @ cs \<and> gated g cs \<and> list_all (group_call lib g) cs" by blast
      qed
    next
      case (Inr rs)
      have ok: "(on_error g InvalidRoleDependency (of_res (sort_roles g)) :: ('a, role_spec list) act) = return_ok rs"
        by (simp add: on_error_def handle_def Inr of_res_def return_ok_def fun_eq_iff)
      show ?thesis unfolding ok call_return_ok by (rule gated_act_sorted [OF assms(3) Inr])
    qed
  qed
  moreover have "(if om_deletion (g_meta g) \<noteq> None then return_ok 0
         else call (on_error g InvalidRoleDependency (of_res (sort_roles g))) (\<lambda>sorted_roles.
           reconcile_sorted lib c rd attempts retries g sorted_roles)) u = (q, t)"
    using assms(1,2) by (simp add: reconcile_group_def handle_def)
  ultimately show ?thesis by (rule gated_actD) blast
qed

lemma dynamic_watch_silent: "dynamic_watch_custom_crd k s = (q, t) \<Longrightarrow> calls t = calls s"
  by (auto simp: dynamic_watch_custom_crd_def is_watched_def store_watched_def call_def return_ok_def
      split: if_splits)

lemma dependencies_ready_deps:
  assumes "check_dependency_ready lib c attempts g r s = (Inr True, t)"
  obtains cs where "calls t = calls s @ cs" and "list_all is_read cs" and "dependencies_read g r cs"
proof -
  from assms have run: "dependencies_ready lib c attempts g (r_dependencies r) s = (Inr True, t)"
    by (simp add: check_dependency_ready_def)
  from dependencies_ready_true [OF run] obtain cs where cs: "calls t = calls s @ cs"
    and all: "list_all2 (\<lambda>d q. \<exists>role. get_role g d = Inr role \<and> read_ready g role q) (r_dependencies r) cs"
    by blast
  from all have "dependencies_read g r cs"
    unfolding dependencies_read_def list_all2_conv_all_nth by (metis in_set_conv_nth nth_mem)
  moreover from only_callsD [OF dependencies_ready_reads run] cs have "list_all is_read cs" by auto
  ultimately show ?thesis using that cs by blast
qed

text \<open>A role the loop has gone through: its dependencies were read ready and its workload was found.\<close>

definition workload_found :: "rbg \<Rightarrow> role_spec \<Rightarrow> call list \<Rightarrow> bool" where
  "workload_found g r cs \<longleftrightarrow> (\<exists>q \<in> set cs. read_found g r q)"

definition role_done :: "rbg \<Rightarrow> role_spec \<Rightarrow> call list \<Rightarrow> bool" where
  "role_done g r cs \<longleftrightarrow> dependencies_read g r cs \<and> workload_found g r cs"

lemma role_done_mono: "role_done g r cs \<Longrightarrow> set cs \<subseteq> set ds \<Longrightarrow> role_done g r ds"
  unfolding role_done_def workload_found_def by (blast intro: dependencies_read_mono)

lemma reconcile_role_found:
  assumes "reconcile_role lib c attempts g r s = (Inr x, t)" and "r \<in> set (g_roles g)"
  shows "\<exists>cs. calls t = calls s @ cs \<and> list_all (role_or_quiet lib g r) cs \<and> workload_found g r cs"
proof -
  from assms(1) obtain ops u v y where ops: "new_workload_reconciler lib c attempts (r_workload r) = Inr ops"
    and run: "wo_reconcile ops g r s = (Inr y, u)"
    and adapter: "reconcile_scaling_adapter c g r u = (Inr (), v)"
    and status: "construct_role_status ops g r v = (Inr x, t)"
    by (auto simp: reconcile_role_def call_eq_Inr_iff)
  from status have "wo_role_status ops g r v = (Inr (fst x, snd x), t)"
    by (auto simp: construct_role_status_def handle_def call_eq_Inr_iff split: prod.splits sum.splits if_splits)
  from dispatch_status_found [OF ops this] obtain q where q: "calls t = calls v @ [q]" "read_found g r q" by blast
  obtain c1 where "calls u = calls s @ c1" using only_callsD [OF dispatch_reconcile_calls [OF ops] run] by blast
  moreover obtain c2 where "calls v = calls u @ c2" using makesD [OF adapter_settles [OF assms(2)] adapter] by blast
  ultimately have t: "calls t = calls s @ (c1 @ c2 @ [q])" using q(1) by simp
  obtain cs where cs: "calls t = calls s @ cs" "list_all (role_or_quiet lib g r) cs"
    using makesD [OF reconcile_role_calls [OF assms(2)] assms(1)] by blast
  with t q(2) show ?thesis by (auto simp: workload_found_def)
qed

text \<open>What the loop has done when it reaches its end.\<close>

lemma reconcile_role_status_name:
  assumes "reconcile_role lib c attempts g r s = (Inr (st, upd), t)"
  shows "st_name st = r_name r \<and> (\<not> upd \<longrightarrow> st \<in> set (gs_role_statuses (g_status g)))"
proof -
  from assms obtain ops v where ops: "new_workload_reconciler lib c attempts (r_workload r) = Inr ops"
    and run: "construct_role_status ops g r v = (Inr (st, upd), t)"
    by (auto simp: reconcile_role_def call_eq_Inr_iff)
  from run have status: "wo_role_status ops g r v = (Inr (st, upd), t)"
    by (auto simp: construct_role_status_def handle_def call_eq_Inr_iff split: prod.splits sum.splits if_splits)
  from dispatch_status_name [OF ops status] dispatch_status_kept [OF ops, of g r v st t] status
  show ?thesis by (cases upd) simp_all
qed

lemma reconcile_roles_finished:
  assumes "reconcile_roles lib c attempts g rs upd sts s = (Inr (Some (upd', sts')), t)"
    and "set rs \<subseteq> set (g_roles g)"
  shows "\<exists>cs. calls t = calls s @ cs \<and> (\<forall>r \<in> set rs. role_done g r cs) \<and>
    map st_name sts' = map st_name sts @ map r_name rs \<and>
    (\<not> upd' \<longrightarrow> \<not> upd \<and> (\<forall>st \<in> set sts'. st \<in> set sts \<or> st \<in> set (gs_role_statuses (g_status g))))"
  using assms
proof (induction rs arbitrary: upd sts s)
  case (Cons r rs)
  from Cons.prems(1) obtain z u ready v where watch: "dynamic_watch_custom_crd (ws_kind (r_workload r)) s = (Inr z, u)"
    and "on_error g FailedCheckRoleDependency (check_dependency_ready lib c attempts g r) u = (Inr ready, v)"
    and cont: "(if \<not> ready then return_ok None
       else call (reconcile_role lib c attempts g r) (\<lambda>(role_status, update_role_status).
         reconcile_roles lib c attempts g rs (upd \<or> update_role_status) (sts @ [role_status]))) v
       = (Inr (Some (upd', sts')), t)"
    unfolding reconcile_roles.simps call_eq_Inr_iff by blast
  then have check: "check_dependency_ready lib c attempts g r u = (Inr ready, v)" by simp
  from cont have ready: "ready" by (cases ready) (simp_all add: return_ok_def)
  from cont have "call (reconcile_role lib c attempts g r) (\<lambda>(role_status, update_role_status).
         reconcile_roles lib c attempts g rs (upd \<or> update_role_status) (sts @ [role_status])) v
       = (Inr (Some (upd', sts')), t)" by (simp only: ready simp_thms if_False)
  then obtain st b w where role: "reconcile_role lib c attempts g r v = (Inr (st, b), w)"
    and rest: "reconcile_roles lib c attempts g rs (upd \<or> b) (sts @ [st]) w = (Inr (Some (upd', sts')), t)"
    unfolding call_eq_Inr_iff by force
  have u: "calls u = calls s" by (rule dynamic_watch_silent [OF watch])
  from dependencies_ready_deps [OF check [unfolded eqTrueI [OF ready]]] obtain cs where v: "calls v = calls u @ cs"
    and deps: "dependencies_read g r cs" by blast
  from Cons.prems(2) have r: "r \<in> set (g_roles g)" and rs: "set rs \<subseteq> set (g_roles g)" by simp_all
  from reconcile_role_found [OF role r] obtain ds where w: "calls w = calls v @ ds" and found: "workload_found g r ds" by blast
  from Cons.IH [OF rest rs] obtain es where t: "calls t = calls w @ es"
    and es: "\<forall>r \<in> set rs. role_done g r es"
    and names: "map st_name sts' = map st_name (sts @ [st]) @ map r_name rs"
    and kept: "\<not> upd' \<longrightarrow> \<not> (upd \<or> b) \<and> (\<forall>x \<in> set sts'. x \<in> set (sts @ [st]) \<or> x \<in> set (gs_role_statuses (g_status g)))"
    by blast
  have here: "role_done g r (cs @ ds @ es)"
    using deps found by (auto simp: role_done_def workload_found_def elim!: dependencies_read_mono)
  have "role_done g q (cs @ ds @ es)" if "q \<in> set (r # rs)" for q
    using that here es by (auto elim!: role_done_mono)
  with u v w t names kept reconcile_role_status_name [OF role] show ?case
    by (intro exI [of _ "cs @ ds @ es"]) auto
qed (auto simp: return_ok_def)

lemma reconcile_sorted_finished:
  assumes "reconcile_sorted lib c rd attempts retries g rs s = (Inr 0, t)"
    and "unique_role_names g" and "sort_roles g = Inr rs"
  shows "\<exists>cs. calls t = calls s @ cs @ [CEvent (g_name g) Succeed] \<and> (\<forall>r \<in> set (g_roles g). role_done g r cs)"
proof -
  have sub: "set rs \<subseteq> set (g_roles g)" and all: "set rs = set (g_roles g)"
    using sort_roles_Inr(2) [OF assms(3)] sort_roles_perm [OF assms(3,2)] by (auto dest: mset_eq_setD)
  from assms(1) obtain b v w x y z upd sts where watch: "watch_pod_groups rd g s = (Inr b, v)"
    and pods: "(if b then on_error g FailedCreatePodGroup (reconcile_pod_group c retries g) else return_ok ()) v = (Inr (), w)"
    and roles: "reconcile_roles lib c attempts g rs False [] w = (Inr (Some (upd, sts)), x)"
    and status: "(if upd then on_error g FailedUpdateStatus (update_rbg_status c g sts) else return_ok ()) x = (Inr (), y)"
    and del: "on_error g ''delete role error'' (delete_roles lib c g) y = (Inr (), z)"
    and ev: "record_event (g_name g) Succeed z = (Inr (), t)"
    by (auto simp: reconcile_sorted_def call_eq_Inr_iff return_ok_def split: option.splits prod.splits)
  have quiet: "makes (quiet_call lib g) (on_error g e m)" if "makes (quiet_call lib g) m" for e and m :: "('a, unit) act"
    using that by (intro makes_on_error) simp_all
  obtain c1 where c1: "calls v = calls s @ c1" using makesD [OF watch_pod_groups_calls watch] by blast
  obtain c2 where c2: "calls w = calls v @ c2"
    using makesD [OF makes_if [OF quiet [OF pod_group_calls] makes_return(1)] pods] by blast
  obtain c4 where c4: "calls y = calls x @ c4"
    using makesD [OF makes_if [OF quiet [OF status_patch_quiet] makes_return(1)] status] by blast
  obtain c5 where c5: "calls z = calls y @ c5" using makesD [OF quiet [OF delete_roles_calls] del] by blast
  from reconcile_roles_finished [OF roles sub] obtain c3 where c3: "calls x = calls w @ c3"
    and deps: "\<forall>r \<in> set rs. role_done g r c3" by blast
  have "calls t = calls z @ [CEvent (g_name g) Succeed]" using ev by (auto simp: record_event_def log_call_def)
  with c1 c2 c3 c4 c5 have "calls t = calls s @ (c1 @ c2 @ c3 @ c4 @ c5) @ [CEvent (g_name g) Succeed]" by simp
  moreover have "role_done g r (c1 @ c2 @ c3 @ c4 @ c5)" if "r \<in> set (g_roles g)" for r
    using deps that all by (auto elim!: role_done_mono)
  ultimately show ?thesis by blast
qed

text \<open>What the loop has done when it stops at a role that has to wait.\<close>

lemma role_or_quiet_no_status: "role_or_quiet lib g r q \<Longrightarrow> q \<noteq> CApplyStatus p"
  by (auto simp: role_or_quiet_def settling_call_def role_call_def is_read_def)

lemma reconcile_roles_waiting:
  assumes "reconcile_roles lib c attempts g rs upd sts s = (Inr None, t)" and "set rs \<subseteq> set (g_roles g)"
  shows "\<exists>pre r post d dep cs q. rs = pre @ r # post \<and> d \<in> set (r_dependencies r) \<and> get_role g d = Inr dep \<and>
    calls t = calls s @ cs @ [q] \<and> read_waiting g dep q \<and> (\<forall>p \<in> set pre. role_done g p cs) \<and>
    (\<forall>p. CApplyStatus p \<notin> set cs)"
  using assms
proof (induction rs arbitrary: upd sts s)
  case (Cons r rs)
  from Cons.prems(1) obtain z u ready v where watch: "dynamic_watch_custom_crd (ws_kind (r_workload r)) s = (Inr z, u)"
    and check: "check_dependency_ready lib c attempts g r u = (Inr ready, v)"
    and cont: "(if \<not> ready then return_ok None
       else call (reconcile_role lib c attempts g r) (\<lambda>(role_status, update_role_status).
         reconcile_roles lib c attempts g rs (upd \<or> update_role_status) (sts @ [role_status]))) v
       = (Inr None, t)"
    unfolding reconcile_roles.simps call_eq_Inr_iff on_error_Inr by blast
  have u: "calls u = calls s" by (rule dynamic_watch_silent [OF watch])
  show ?case
  proof (cases ready)
    case False
    with cont have "v = t" by simp
    with check False have "dependencies_ready lib c attempts g (r_dependencies r) u = (Inr False, t)"
      by (simp add: check_dependency_ready_def)
    from dependencies_ready_false [OF this] obtain d dep cs q where "d \<in> set (r_dependencies r)"
      "get_role g d = Inr dep" "calls t = calls u @ cs @ [q]" "list_all is_read cs" "read_waiting g dep q" by blast
    moreover from \<open>list_all is_read cs\<close> have "\<forall>p. CApplyStatus p \<notin> set cs" by (auto simp: list_all_iff is_read_def)
    ultimately show ?thesis using u
      by (intro exI [of _ "[]"] exI [of _ r] exI [of _ rs] exI [of _ d] exI [of _ dep] exI [of _ cs] exI [of _ q]) simp
  next
    case True
    with cont obtain st b w where role: "reconcile_role lib c attempts g r v = (Inr (st, b), w)"
      and rest: "reconcile_roles lib c attempts g rs (upd \<or> b) (sts @ [st]) w = (Inr None, t)"
      by (auto simp: call_eq_Inr_iff)
    from dependencies_ready_deps [OF check [unfolded eqTrueI [OF True]]] obtain cs where v: "calls v = calls u @ cs"
      and cs: "list_all is_read cs" and deps: "dependencies_read g r cs" by blast
    from Cons.prems(2) have r: "r \<in> set (g_roles g)" and rs: "set rs \<subseteq> set (g_roles g)" by simp_all
    from reconcile_role_found [OF role r] obtain ds where w: "calls w = calls v @ ds"
      and ds: "list_all (role_or_quiet lib g r) ds" and found: "workload_found g r ds" by blast
    from Cons.IH [OF rest rs] obtain pre r' post d dep es q where split: "rs = pre @ r' # post"
      and d: "d \<in> set (r_dependencies r')" "get_role g d = Inr dep" and t: "calls t = calls w @ es @ [q]"
      and q: "read_waiting g dep q" and pre: "\<forall>p \<in> set pre. role_done g p es"
      and quiet: "\<forall>p. CApplyStatus p \<notin> set es" by blast
    have here: "role_done g r (cs @ ds @ es)"
      using deps found by (auto simp: role_done_def workload_found_def elim!: dependencies_read_mono)
    have "role_done g p (cs @ ds @ es)" if "p \<in> set (r # pre)" for p
      using that here pre by (auto elim!: role_done_mono)
    moreover have "CApplyStatus p \<notin> set (cs @ ds @ es)" for p
      using cs quiet ds by (auto simp: list_all_iff is_read_def dest: role_or_quiet_no_status)
    ultimately show ?thesis using split d q u v w t
      by (intro exI [of _ "r # pre"] exI [of _ r'] exI [of _ post] exI [of _ d] exI [of _ dep]
          exI [of _ "cs @ ds @ es"] exI [of _ q]) simp
  qed
qed simp

lemma reconcile_sorted_waiting:
  assumes "reconcile_sorted lib c rd attempts retries g rs s = (Inr 5, t)" and "set rs \<subseteq> set (g_roles g)"
  shows "\<exists>pre r post d dep cs q. rs = pre @ r # post \<and> d \<in> set (r_dependencies r) \<and> get_role g d = Inr dep \<and>
    calls t = calls s @ cs @ [q] \<and> read_waiting g dep q \<and> (\<forall>p \<in> set pre. role_done g p cs) \<and>
    (\<forall>p. CApplyStatus p \<notin> set cs)"
proof -
  from assms(1) obtain b v z w where watch: "watch_pod_groups rd g s = (Inr b, v)"
    and pods: "(if b then on_error g FailedCreatePodGroup (reconcile_pod_group c retries g) else return_ok ()) v = (Inr z, w)"
    and finished: "call (reconcile_roles lib c attempts g rs False []) (\<lambda>finished.
     case finished of
       None \<Rightarrow> return_ok 5
     | Some (update_status, role_statuses) \<Rightarrow>
         call (if update_status then on_error g FailedUpdateStatus (update_rbg_status c g role_statuses)
               else return_ok ()) (\<lambda>_.
         call (on_error g ''delete role error'' (delete_roles lib c g)) (\<lambda>_.
         call (record_event (g_name g) Succeed) (\<lambda>_.
         return_ok 0)))) w = (Inr (5::nat), t)"
    unfolding reconcile_sorted_def call_eq_Inr_iff by blast
  from finished have roles: "reconcile_roles lib c attempts g rs False [] w = (Inr None, t)"
    by (auto simp: call_eq_Inr_iff split: option.splits) (metis option.exhaust prod.exhaust)
  from makesD [OF watch_pod_groups_calls watch] obtain c1 where c1: "calls v = calls s @ c1" "list_all is_read c1" .
  have "makes (settling_call lib g) (on_error g FailedCreatePodGroup (reconcile_pod_group c retries g))"
    by (intro makes_on_error pod_group_settles) simp
  from makesD [OF makes_if [OF this makes_return(1)] pods] obtain c2
    where c2: "calls w = calls v @ c2" "list_all (settling_call lib g) c2" .
  from reconcile_roles_waiting [OF roles assms(2)] obtain pre r post d dep cs q where found:
    "rs = pre @ r # post" "d \<in> set (r_dependencies r)" "get_role g d = Inr dep" "calls t = calls w @ cs @ [q]"
    "read_waiting g dep q" "\<forall>p \<in> set pre. role_done g p cs" "\<forall>p. CApplyStatus p \<notin> set cs" by blast
  have "\<forall>p \<in> set pre. role_done g p (c1 @ c2 @ cs)"
    using found(6) by (auto elim!: role_done_mono)
  moreover have "\<forall>p. CApplyStatus p \<notin> set (c1 @ c2 @ cs)"
    using c1(2) c2(2) found(7) by (auto simp: list_all_iff is_read_def settling_call_def)
  ultimately show ?thesis using found c1(1) c2(1)
    by (intro exI [of _ pre] exI [of _ r] exI [of _ post] exI [of _ d] exI [of _ dep] exI [of _ "c1 @ c2 @ cs"]
        exI [of _ q]) simp
qed

text \<open>The same of a whole reconcile; the role it waits for is among those it has gone through.\<close>

lemma reconcile_group_waiting:
  assumes "do_get c KRbg as_rbg key s = (Inr g, u)" and "unique_role_names g"
    and "reconcile_group lib c rd attempts retries key s = (Inr 5, t)"
  obtains pre r post dep cs q where "sort_roles g = Inr (pre @ r # post)" and "dep \<in> set pre"
    and "r_name dep \<in> set (r_dependencies r)" and "get_role g (r_name dep) = Inr dep"
    and "calls t = calls u @ cs @ [q]" and "read_waiting g dep q"
    and "\<And>p. p \<in> set pre \<Longrightarrow> role_done g p cs" and "\<And>p. CApplyStatus p \<notin> set cs"
proof -
  from assms(1,3) obtain rs where rs: "sort_roles g = Inr rs"
    and sorted: "reconcile_sorted lib c rd attempts retries g rs u = (Inr 5, t)"
    by (auto simp: reconcile_group_def handle_def call_eq_Inr_iff split: if_splits)
  from reconcile_sorted_waiting [OF sorted sort_roles_Inr(2) [OF rs]] obtain pre r post d dep cs q where found:
    "rs = pre @ r # post" "d \<in> set (r_dependencies r)" "get_role g d = Inr dep" "calls t = calls u @ cs @ [q]"
    "read_waiting g dep q" "\<forall>p \<in> set pre. role_done g p cs" "\<forall>p. CApplyStatus p \<notin> set cs" by blast
  have dep: "dep \<in> set (g_roles g)" "r_name dep = d"
    using found(3) by (auto simp: get_role_Inr_iff find_Some_iff)
  from sort_roles_deps_first [OF rs [unfolded found(1)] assms(2)] found(2) obtain p
    where p: "p \<in> set pre" "r_name p = d" by auto
  have "p \<in> set (g_roles g)" using sort_roles_Inr(2) [OF rs] p(1) found(1) by auto
  with dep p(2) assms(2) have "p = dep" by (auto simp: unique_role_names_def distinct_map inj_on_def)
  with found p dep that rs show ?thesis by auto
qed

section \<open>Properties\<close>

text \<open>C1: Roles start in dependency order: in every reconcile, whatever the API server answers and
  however it ends, an object under the name of a role's workload is applied only after the workload
  of each role it depends on was read in the same reconcile with all its replicas ready.\<close>

theorem reconcile_dependency_gate:
  assumes "do_get c KRbg as_rbg key s = (Inr g, u)" and "unique_role_names g"
  shows "\<exists>cs. calls (snd (reconcile_group lib c rd attempts retries key s)) = calls u @ cs \<and>
    (\<forall>pre ob post r. cs = pre @ CApply (PatchObj ob) # post \<longrightarrow> r \<in> set (g_roles g) \<longrightarrow>
       obj_key ob = workload_key g r \<longrightarrow> dependencies_read g r pre)"
proof -
  obtain q t where run: "reconcile_group lib c rd attempts retries key s = (q, t)" by fastforce
  from reconcile_group_trace [OF run assms] obtain cs where "calls t = calls u @ cs" "gated g cs" by blast
  then show ?thesis unfolding run snd_conv gated_def by blast
qed

definition two_roles :: rbg where
  "two_roles = sample_rbg [sample_role ''b'' [''a''] 1, sample_role ''a'' [] 1]"

lemma two_roles_read:
  "\<exists>u. do_get store_client KRbg as_rbg (''ns'', ''g'') (run_on [ObjRbg two_roles]) = (Inr two_roles, u)"
proof -
  have "fst (do_get store_client KRbg as_rbg (''ns'', ''g'') (run_on [ObjRbg two_roles])) = Inr two_roles" by code_simp
  then show ?thesis by (metis prod.collapse)
qed

lemma two_roles_unique: "unique_role_names two_roles"
  by code_simp

theorem reconcile_dependency_gate_witness:
  "\<exists>(u :: cluster sys) cs. calls (snd (reconcile_group sample_lib store_client store_client 1 1 (''ns'', ''g'') (run_on [ObjRbg two_roles])))
      = calls u @ cs \<and>
    (\<forall>pre ob post. cs = pre @ CApply (PatchObj ob) # post \<longrightarrow>
       obj_key ob = workload_key two_roles (sample_role ''b'' [''a''] 1) \<longrightarrow>
       dependencies_read two_roles (sample_role ''b'' [''a''] 1) pre)"
proof -
  obtain u where u: "do_get store_client KRbg as_rbg (''ns'', ''g'') (run_on [ObjRbg two_roles]) = (Inr two_roles, u)"
    using two_roles_read by blast
  have "sample_role ''b'' [''a''] 1 \<in> set (g_roles two_roles)" by (simp add: two_roles_def sample_rbg_def)
  with reconcile_dependency_gate [OF u two_roles_unique, of sample_lib store_client 1 1] show ?thesis
    by (intro exI [of _ u]) blast
qed



text \<open>A group whose dependencies cannot be ordered is left alone: the reconcile fails with the error
  of \<open>SortRoles\<close> after reading the group and recording the event, and requests nothing else.\<close>

theorem invalid_dependencies_touch_nothing:
  assumes "do_get c KRbg as_rbg key s = (Inr g, u)" and "om_deletion (g_meta g) = None" and "sort_roles g = Inl e"
  shows "fst (reconcile_group lib c rd attempts retries key s) = Inl e \<and>
    calls (snd (reconcile_group lib c rd attempts retries key s)) = calls u @ [CEvent (g_name g) InvalidRoleDependency]"
proof -
  from sort_roles_Inl [OF assms(3)] have "\<not> is_panic e" by auto
  with assms show ?thesis
    by (simp add: reconcile_group_def handle_def on_error_def call_def of_res_def record_event_def return_err_def
        log_call_def)
qed

theorem invalid_dependencies_touch_nothing_witness:
  "fst (reconcile_group sample_lib store_client store_client 1 1 (''ns'', ''g'')
     (run_on [ObjRbg (sample_rbg [sample_role ''b'' [''x''] 1])])) = Inl (DependencyRoleMissing ''b'' ''x'')"
proof -
  let ?g = "sample_rbg [sample_role ''b'' [''x''] 1]"
  have "fst (do_get store_client KRbg as_rbg (''ns'', ''g'') (run_on [ObjRbg ?g])) = Inr ?g" by code_simp
  then obtain u where u: "do_get store_client KRbg as_rbg (''ns'', ''g'') (run_on [ObjRbg ?g]) = (Inr ?g, u)"
    by (metis prod.collapse)
  have "om_deletion (g_meta ?g) = None" and "sort_roles ?g = Inl (DependencyRoleMissing ''b'' ''x'')" by code_simp+
  with invalid_dependencies_touch_nothing [OF u] show ?thesis by blast
qed





text \<open>The four cleanups at the end of a reconcile are independent: each one runs even when an earlier
  one failed, the result is a success exactly when all four succeeded, and otherwise it holds the
  errors of the ones that failed, in order.\<close>

theorem delete_roles_independent:
  assumes "deployment_cleanup lib c g s = (q1, s1)" and "sts_cleanup lib c g s1 = (q2, s2)"
    and "lws_cleanup lib c g s2 = (q3, s3)" and "cleanup_orphaned_scaling_adapters c g s3 = (q4, s4)"
    and "\<forall>p. Inl (Panic p) \<notin> {q1, q2, q3, q4}"
  shows "delete_roles lib c g s =
    (let errs = List.map_filter (\<lambda>q. case q of Inl e \<Rightarrow> Some e | Inr _ \<Rightarrow> None) [q1, q2, q3, q4]
     in (if errs = [] then Inr () else Inl (Aggregate errs), s4))"
proof -
  have collect: "collect_error m errs v = (Inr (errs @ (case q of Inl e \<Rightarrow> [e] | Inr _ \<Rightarrow> [])), w)"
    if "m v = (q, w)" and "\<And>p. q \<noteq> Inl (Panic p)" for m :: "('a, unit) act" and errs v q w
  proof (cases q)
    case (Inl e)
    with that(2) have "\<not> is_panic e" by (cases e) auto
    with that Inl show ?thesis by (simp add: collect_error_def handle_def return_ok_def)
  qed (use that in \<open>simp add: collect_error_def handle_def return_ok_def\<close>)
  note np = assms(5) [simplified]
  have c1: "collect_error (deployment_cleanup lib c g) errs s = (Inr (errs @ (case q1 of Inl e \<Rightarrow> [e] | Inr _ \<Rightarrow> [])), s1)"
    and c2: "collect_error (sts_cleanup lib c g) errs s1 = (Inr (errs @ (case q2 of Inl e \<Rightarrow> [e] | Inr _ \<Rightarrow> [])), s2)"
    and c3: "collect_error (lws_cleanup lib c g) errs s2 = (Inr (errs @ (case q3 of Inl e \<Rightarrow> [e] | Inr _ \<Rightarrow> [])), s3)"
    and c4: "collect_error (cleanup_orphaned_scaling_adapters c g) errs s3
      = (Inr (errs @ (case q4 of Inl e \<Rightarrow> [e] | Inr _ \<Rightarrow> [])), s4)" for errs
    using np by (auto intro!: collect assms(1-4))
  show ?thesis
    by (simp add: delete_roles_def call_def c1 c2 c3 c4 return_ok_def return_err_def map_filter_simps
        split: sum.split)
qed

theorem delete_roles_independent_witness:
  "fst (delete_roles sample_lib store_client two_roles (run_on [ObjSts (owned_sts 3)])) = Inr ()"
proof -
  let ?s = "run_on [ObjSts (owned_sts 3)]"
  obtain q1 s1 where 1: "deployment_cleanup sample_lib store_client two_roles ?s = (q1, s1)" by fastforce
  obtain q2 s2 where 2: "sts_cleanup sample_lib store_client two_roles s1 = (q2, s2)" by fastforce
  obtain q3 s3 where 3: "lws_cleanup sample_lib store_client two_roles s2 = (q3, s3)" by fastforce
  obtain q4 s4 where 4: "cleanup_orphaned_scaling_adapters store_client two_roles s3 = (q4, s4)" by fastforce
  have r1: "fst (deployment_cleanup sample_lib store_client two_roles ?s) = Inr ()"
    and r2: "fst (sts_cleanup sample_lib store_client two_roles
      (snd (deployment_cleanup sample_lib store_client two_roles ?s))) = Inr ()"
    and r3: "fst (lws_cleanup sample_lib store_client two_roles (snd (sts_cleanup sample_lib store_client two_roles
      (snd (deployment_cleanup sample_lib store_client two_roles ?s))))) = Inr ()"
    and r4: "fst (cleanup_orphaned_scaling_adapters store_client two_roles
      (snd (lws_cleanup sample_lib store_client two_roles (snd (sts_cleanup sample_lib store_client two_roles
      (snd (deployment_cleanup sample_lib store_client two_roles ?s))))))) = Inr ()"
    by code_simp+
  have ok: "q1 = Inr ()" "q2 = Inr ()" "q3 = Inr ()" "q4 = Inr ()"
    using r1 r2 r3 r4 unfolding 1 snd_conv 2 3 4 fst_conv .
  from delete_roles_independent [OF 1 2 3 4] show ?thesis by (simp add: ok map_filter_simps)
qed

end
