(* ===== verification/Group_Set.thy ===== *)
theory Group_Set
  imports Group_Order
begin

text \<open>
  The controller of group sets (\<open>rolebasedgroupset_controller.go\<close>): it creates the groups that are
  missing and never changes or deletes one. The creations run in goroutines; they all send the same
  object and share no state, so the model sends them one after the other. Their errors are only
  logged.

  \<open>controllerutil.SetControllerReference\<close> is the parameter \<open>set_ref\<close> (owner, object).
\<close>

section \<open>Operations\<close>

definition RoleBasedGroupSetKey :: string where
  "RoleBasedGroupSetKey = ''workload-rbgs-name''"

definition as_rbg_set :: "obj \<Rightarrow> rbg_set option" where
  "as_rbg_set ob = (case ob of ObjRbgSet x \<Rightarrow> Some x | _ \<Rightarrow> None)"

definition new_group :: "rbg_set \<Rightarrow> object_meta \<Rightarrow> rbg" where
  "new_group st meta = \<lparr>g_api_version = [], g_kind = [], g_meta = meta,
     g_spec = \<lparr>gp_roles = gp_roles (gss_template (set_spec st)), gp_pod_group_policy = None\<rparr>,
     g_status = \<lparr>gs_observed_generation = 0, gs_conditions = [], gs_role_statuses = []\<rparr>\<rparr>"

definition new_group_meta :: "rbg_set \<Rightarrow> object_meta" where
  "new_group_meta st = empty_meta\<lparr>om_namespace := om_namespace (set_meta st),
     om_generate_name := om_name (set_meta st) @ ''-'',
     om_labels := Some [(RoleBasedGroupSetKey, om_name (set_meta st))]\<rparr>"

definition create_rbg ::
  "(object_meta \<Rightarrow> object_meta \<Rightarrow> object_meta res) \<Rightarrow> 'w client \<Rightarrow> rbg_set \<Rightarrow> ('w, unit) act" where
  "create_rbg set_ref c st =
     call (of_res (set_ref (set_meta st) (new_group_meta st))) (\<lambda>meta.
     wrap_err CreateRbgFailed (do_create c (ObjRbg (new_group st meta))))"

primrec create_groups ::
  "(object_meta \<Rightarrow> object_meta \<Rightarrow> object_meta res) \<Rightarrow> 'w client \<Rightarrow> rbg_set \<Rightarrow> nat \<Rightarrow> ('w, unit) act" where
  "create_groups set_ref c st 0 = return_ok ()"
| "create_groups set_ref c st (Suc n) =
     handle (create_rbg set_ref c st) (\<lambda>_. create_groups set_ref c st n)"

definition reconcile_group_set ::
  "(object_meta \<Rightarrow> object_meta \<Rightarrow> object_meta res) \<Rightarrow> 'w client \<Rightarrow> nsname \<Rightarrow> ('w, unit) act" where
  "reconcile_group_set set_ref c key =
     handle (do_get c KRbgSet as_rbg_set key) (\<lambda>q. case q of
       Inl e \<Rightarrow> ignore_not_found e
     | Inr st \<Rightarrow>
         call (do_list c KRbg as_rbg (om_namespace (set_meta st)) (Some [(RoleBasedGroupSetKey, om_name (set_meta st))])) (\<lambda>gs.
         call (of_res (deref (gss_replicas (set_spec st)))) (\<lambda>n.
         if n \<le> int (length gs) then return_ok ()
         else create_groups set_ref c st (nat (n - int (length gs))))))"

definition check_set_crds :: "'w client \<Rightarrow> ('w, unit) act" where
  "check_set_crds rd = check_crd_exists rd ''rolebasedgroupsets.workloads.x-k8s.io''"

section \<open>Lemmas\<close>

lemma create_rbg_calls:
  assumes "set_ref (set_meta st) (new_group_meta st) = Inr meta"
  shows "calls (snd (create_rbg set_ref c st s)) = calls s @ [CCreate (ObjRbg (new_group st meta))] \<and>
    (\<forall>e. fst (create_rbg set_ref c st s) = Inl e \<longrightarrow> \<not> is_panic e)"
  using assms
  by (auto simp: create_rbg_def wrap_err_def handle_def do_create_def log_call_def return_ok_def return_err_def
      map_sum_def split: prod.splits sum.splits if_splits elim!: lift_api.elims)

lemma create_groups_calls:
  assumes "set_ref (set_meta st) (new_group_meta st) = Inr meta"
  shows "\<exists>t. create_groups set_ref c st n s = (Inr (), t) \<and>
    calls t = calls s @ replicate n (CCreate (ObjRbg (new_group st meta)))"
proof (induction n arbitrary: s)
  case (Suc n)
  obtain q u where run: "create_rbg set_ref c st s = (q, u)" by fastforce
  from create_rbg_calls [where set_ref = set_ref and st = st, OF assms, of c s] run have u: "calls u = calls s @ [CCreate (ObjRbg (new_group st meta))]"
    and "\<And>e. q = Inl e \<Longrightarrow> \<not> is_panic e" by auto
  with run have "create_groups set_ref c st (Suc n) s = create_groups set_ref c st n u"
    by (cases q) (simp_all add: handle_def)
  with Suc.IH [of u] u show ?case by auto
qed (simp add: return_ok_def)

lemma do_list_run: "do_list c k sel ns m s = (r, t) \<Longrightarrow> calls t = calls s @ [CList k ns m]"
  by (auto simp: do_list_def log_call_def split: prod.splits)

section \<open>Properties\<close>

text \<open>C37: A group set is filled up and nothing else: the reconcile creates exactly as many groups as are
  missing to the asked replicas, none when there are enough or too many, each with the roles of the
  template, the label of the set and a generated name; it never updates or deletes a group, and it
  succeeds even when creations fail.\<close>

theorem group_set_fills_up:
  assumes "do_get c KRbgSet as_rbg_set key s = (Inr st, u)"
    and "do_list c KRbg as_rbg (om_namespace (set_meta st)) (Some [(RoleBasedGroupSetKey, om_name (set_meta st))]) u = (Inr gs, v)"
    and "gss_replicas (set_spec st) = Some n"
    and "set_ref (set_meta st) (new_group_meta st) = Inr meta"
  shows "fst (reconcile_group_set set_ref c key s) = Inr () \<and>
    calls (snd (reconcile_group_set set_ref c key s)) =
      calls v @ replicate (nat (n - int (length gs))) (CCreate (ObjRbg (new_group st meta)))"
proof -
  have go: "reconcile_group_set set_ref c key s =
      (if n \<le> int (length gs) then return_ok () else create_groups set_ref c st (nat (n - int (length gs)))) v"
    using assms by (simp add: reconcile_group_set_def handle_def call_def of_res_def return_ok_def)
  show ?thesis
  proof (cases "n \<le> int (length gs)")
    case True
    then show ?thesis by (simp add: go return_ok_def)
  next
    case False
    with create_groups_calls [where set_ref = set_ref and st = st, OF assms(4), of c "nat (n - int (length gs))" v] show ?thesis by (auto simp: go)
  qed
qed

definition sample_set :: "int \<Rightarrow> rbg_set" where
  "sample_set n = \<lparr>set_meta = sample_meta ''s'' ''uid-set'',
     set_spec = \<lparr>gss_replicas = Some n, gss_template = \<lparr>gp_roles = [sample_role ''a'' [] 1], gp_pod_group_policy = None\<rparr>\<rparr>\<rparr>"

definition sample_set_ref :: "object_meta \<Rightarrow> object_meta \<Rightarrow> object_meta res" where
  "sample_set_ref owner m = Inr (m\<lparr>om_owners := [\<lparr>or_api_version = ''v'', or_kind = ''RoleBasedGroupSet'',
     or_name = om_name owner, or_uid = om_uid owner, or_controller = Some True,
     or_block_owner_deletion = Some True\<rparr>]\<rparr>)"

theorem group_set_fills_up_witness:
  "\<exists>(v :: cluster sys) meta. calls (snd (reconcile_group_set sample_set_ref store_client (''ns'', ''s'') (run_on [ObjRbgSet (sample_set 2)])))
     = calls v @ [CCreate (ObjRbg (new_group (sample_set 2) meta)), CCreate (ObjRbg (new_group (sample_set 2) meta))]"
proof -
  let ?s = "run_on [ObjRbgSet (sample_set 2)]" and ?m = "set_meta (sample_set 2)"
  have "fst (do_get store_client KRbgSet as_rbg_set (''ns'', ''s'') ?s) = Inr (sample_set 2)" by code_simp
  then obtain u where u: "do_get store_client KRbgSet as_rbg_set (''ns'', ''s'') ?s = (Inr (sample_set 2), u)"
    by (metis prod.collapse)
  have "fst (do_list store_client KRbg as_rbg (om_namespace ?m) (Some [(RoleBasedGroupSetKey, om_name ?m)])
      (snd (do_get store_client KRbgSet as_rbg_set (''ns'', ''s'') ?s))) = Inr []" by code_simp
  then obtain v where v: "do_list store_client KRbg as_rbg (om_namespace ?m) (Some [(RoleBasedGroupSetKey, om_name ?m)]) u
      = (Inr [], v)" unfolding u snd_conv by (metis prod.collapse)
  have n: "gss_replicas (set_spec (sample_set 2)) = Some 2" by (simp add: sample_set_def)
  obtain meta where meta: "sample_set_ref ?m (new_group_meta (sample_set 2)) = Inr meta"
    by (simp add: sample_set_ref_def)
  from group_set_fills_up [where set_ref = sample_set_ref and st = "sample_set 2", OF u v n meta] show ?thesis
    by (intro exI [of _ v] exI [of _ meta]) (simp add: numeral_2_eq_2)
qed

text \<open>The list is answered from a cache. Two reconciles that both see the groups \<open>gs\<close> each create all that
  are missing, and none is ever deleted, so the set ends with more groups than it asks for. The events
  of the groups created first wake the controller while the cache still lacks the others.\<close>

definition sees_groups :: "'w client \<Rightarrow> nsname \<Rightarrow> rbg_set \<Rightarrow> rbg list \<Rightarrow> 'w sys \<Rightarrow> bool" where
  "sees_groups c key st gs s \<longleftrightarrow> (\<exists>u v. do_get c KRbgSet as_rbg_set key s = (Inr st, u) \<and>
     do_list c KRbg as_rbg (om_namespace (set_meta st)) (Some [(RoleBasedGroupSetKey, om_name (set_meta st))]) u = (Inr gs, v))"

definition groups_created :: "'w sys \<Rightarrow> nat" where
  "groups_created s = length (filter (\<lambda>q. case q of CCreate ob \<Rightarrow> True | _ \<Rightarrow> False) (calls s))"

lemma group_set_creates:
  assumes "sees_groups c key st gs s" and "gss_replicas (set_spec st) = Some n"
    and "set_ref (set_meta st) (new_group_meta st) = Inr meta"
  shows "groups_created (snd (reconcile_group_set set_ref c key s)) = groups_created s + nat (n - int (length gs))"
proof -
  from assms(1) obtain u v where u: "do_get c KRbgSet as_rbg_set key s = (Inr st, u)"
    and v: "do_list c KRbg as_rbg (om_namespace (set_meta st)) (Some [(RoleBasedGroupSetKey, om_name (set_meta st))]) u = (Inr gs, v)"
    by (auto simp: sees_groups_def)
  from u have "groups_created u = groups_created s"
    by (auto simp: do_get_def log_call_def groups_created_def split: prod.splits)
  moreover from do_list_run [OF v] have "groups_created v = groups_created u" by (simp add: groups_created_def)
  moreover obtain t where "create_groups set_ref c st (nat (n - int (length gs))) v = (Inr (), t)"
    and "calls t = calls v @ replicate (nat (n - int (length gs))) (CCreate (ObjRbg (new_group st meta)))"
    using create_groups_calls [where set_ref = set_ref and st = st, OF assms(3)] by blast
  ultimately show ?thesis using u v assms(2)
    by (auto simp: reconcile_group_set_def handle_def call_def of_res_def return_ok_def groups_created_def)
qed

lemma group_set_overshoots:
  assumes "sees_groups c key st gs s"
    and "sees_groups c key st gs (snd (reconcile_group_set set_ref c key s))"
    and "gss_replicas (set_spec st) = Some n" and "set_ref (set_meta st) (new_group_meta st) = Inr meta"
  shows "groups_created (snd (reconcile_group_set set_ref c key (snd (reconcile_group_set set_ref c key s))))
    = groups_created s + 2 * nat (n - int (length gs))"
  using group_set_creates [where set_ref = set_ref, OF assms(1,3,4)]
    group_set_creates [where set_ref = set_ref, OF assms(2,3,4)] by simp

text \<open>With a cache that has not seen the new groups yet, a set of two groups gets four.\<close>

lemma group_set_overshoots_example:
  "let c = store_client\<lparr>cl_list := \<lambda>k ns m w. (Inr [], w)\<rparr>;
     reconcile = (\<lambda>s. snd (reconcile_group_set sample_set_ref c (''ns'', ''s'') s))
   in groups_created (reconcile (reconcile (run_on [ObjRbgSet (sample_set 2)]))) = 4"
  by code_simp

text \<open>The scheduling policy of the template is not copied to the groups.\<close>

lemma policy_not_copied: "gp_pod_group_policy (g_spec (new_group st meta)) = None"
  by (simp add: new_group_def)

end
