(* ===== verification/Manager.thy ===== *)
theory Manager
  imports Group_Set
begin

text \<open>
  The start of the manager (\<open>cmd/rbgs/main.go\<close>) and what the controllers register with it
  (\<open>SetupWithManager\<close> of the four controllers): certificates, the options of the manager, the checks of
  the CRDs, the watches, the runnables, and last the start. A failure at any point ends the process
  with exit code 1.

  What controller-runtime answers to each step is a parameter. A watch is a kind, how its events are
  mapped to requests, and the predicate that filters them. Logging, the scheme and
  \<open>MaxConcurrentReconciles\<close> have no effect that is visible here.
\<close>

section \<open>Watches\<close>

datatype mapping_kind = ForObject | OwnsObject | MapsPod

datatype event_filter = AcceptAll | RBGPredicate | WorkloadPredicate | PodPredicate | RBGScalingAdapterPredicate

fun filter_accepts :: "klib \<Rightarrow> event_filter \<Rightarrow> event \<Rightarrow> bool res" where
  "filter_accepts lib AcceptAll e = Inr True"
| "filter_accepts lib RBGPredicate e = Inr (rbg_predicate e)"
| "filter_accepts lib WorkloadPredicate e = workload_predicate lib e"
| "filter_accepts lib PodPredicate e = Inr (pod_predicate e)"
| "filter_accepts lib RBGScalingAdapterPredicate e = Inr (rbg_scaling_adapter_predicate e)"

record watch =
  wa_kind :: kind
  wa_maps :: mapping_kind
  wa_filter :: event_filter

definition setup_group_controller :: "'w client \<Rightarrow> ('w, watch list) act" where
  "setup_group_controller rd =
     (let base = [\<lparr>wa_kind = KRbg, wa_maps = ForObject, wa_filter = RBGPredicate\<rparr>,
        \<lparr>wa_kind = KSts, wa_maps = OwnsObject, wa_filter = WorkloadPredicate\<rparr>,
        \<lparr>wa_kind = KDeploy, wa_maps = OwnsObject, wa_filter = WorkloadPredicate\<rparr>,
        \<lparr>wa_kind = KService, wa_maps = OwnsObject, wa_filter = AcceptAll\<rparr>] in
      call (handle (check_crd_exists rd LwsCrdName) (\<lambda>q. case q of
          Inr _ \<Rightarrow> call (store_watched LwsCrdName) (\<lambda>_.
            return_ok [\<lparr>wa_kind = KLws, wa_maps = OwnsObject, wa_filter = WorkloadPredicate\<rparr>])
        | Inl e \<Rightarrow> return_ok [])) (\<lambda>lws.
      call (handle (check_crd_exists rd PodGroupCrdName) (\<lambda>q. case q of
          Inr _ \<Rightarrow> call (store_watched PodGroupCrdName) (\<lambda>_.
            return_ok [\<lparr>wa_kind = KPodGroup, wa_maps = OwnsObject, wa_filter = AcceptAll\<rparr>])
        | Inl e \<Rightarrow> return_ok [])) (\<lambda>pod_groups.
      return_ok (base @ lws @ pod_groups))))"

definition setup_pod_controller :: "watch list" where
  "setup_pod_controller = [\<lparr>wa_kind = KPod, wa_maps = MapsPod, wa_filter = PodPredicate\<rparr>]"

definition setup_adapter_controller :: "watch list" where
  "setup_adapter_controller =
     [\<lparr>wa_kind = KAdapter, wa_maps = ForObject, wa_filter = RBGScalingAdapterPredicate\<rparr>]"

definition setup_set_controller :: "watch list" where
  "setup_set_controller = [\<lparr>wa_kind = KRbgSet, wa_maps = ForObject, wa_filter = AcceptAll\<rparr>,
     \<lparr>wa_kind = KRbg, wa_maps = OwnsObject, wa_filter = AcceptAll\<rparr>]"

section \<open>The cache\<close>

text \<open>\<open>cacheOptions\<close>: the label an object must carry for the manager's cache to hold it, per kind. The client
  of the controllers reads through the cache.\<close>

definition cache_options :: "kind \<Rightarrow> string option" where
  "cache_options k = (if k \<in> {KSts, KDeploy, KService} then Some SetNameLabelKey else None)"

definition cache_selects :: "kind \<Rightarrow> obj \<Rightarrow> bool" where
  "cache_selects k ob = (case cache_options k of None \<Rightarrow> True
     | Some label \<Rightarrow> gm_get (sm_entries (om_labels (obj_meta ob))) label \<noteq> None)"

section \<open>Flags and options\<close>

record flags =
  fl_metrics_addr :: string
  fl_probe_addr :: string
  fl_leader_elect :: bool
  fl_metrics_secure :: bool
  fl_webhook_cert :: "string \<times> string \<times> string"  \<comment> \<open>path, name, key\<close>
  fl_metrics_cert :: "string \<times> string \<times> string"
  fl_enable_http2 :: bool
  fl_development :: bool
  fl_max_concurrent_reconciles :: int
  fl_cache_sync_timeout :: int                        \<comment> \<open>seconds\<close>

definition default_flags :: flags where
  "default_flags = \<lparr>fl_metrics_addr = ''0'', fl_probe_addr = '':8082'', fl_leader_elect = False, fl_metrics_secure = True,
     fl_webhook_cert = ([], ''tls.crt'', ''tls.key''), fl_metrics_cert = ([], ''tls.crt'', ''tls.key''),
     fl_enable_http2 = False, fl_development = False, fl_max_concurrent_reconciles = 10, fl_cache_sync_timeout = 120\<rparr>"

datatype tls_option = OnlyHttp1 | CertificateFrom "string \<times> string"

record manager_options =
  mo_webhook_tls :: "tls_option list"
  mo_metrics_addr :: string
  mo_metrics_secure :: bool
  mo_metrics_tls :: "tls_option list"
  mo_metrics_auth :: bool
  mo_probe_addr :: string
  mo_leader_election :: bool
  mo_leader_id :: string

text \<open>A certificate watcher is given by its two files; there is one when the path is set.\<close>

definition cert_watcher :: "(string \<Rightarrow> string \<Rightarrow> string) \<Rightarrow> string \<times> string \<times> string \<Rightarrow> (string \<times> string) option" where
  "cert_watcher join_path cert = (case cert of (dir, crt, pkey) \<Rightarrow>
     if dir = [] then None else Some (join_path dir crt, join_path dir pkey))"

definition manager_options_of :: "(string \<Rightarrow> string \<Rightarrow> string) \<Rightarrow> flags \<Rightarrow> manager_options" where
  "manager_options_of join_path fl =
     (let tls_opts = (if fl_enable_http2 fl then [] else [OnlyHttp1]);
          certs = (\<lambda>w. case w of None \<Rightarrow> [] | Some files \<Rightarrow> [CertificateFrom files])
      in \<lparr>mo_webhook_tls = tls_opts @ certs (cert_watcher join_path (fl_webhook_cert fl)),
          mo_metrics_addr = fl_metrics_addr fl, mo_metrics_secure = fl_metrics_secure fl,
          mo_metrics_tls = tls_opts @ certs (cert_watcher join_path (fl_metrics_cert fl)),
          mo_metrics_auth = fl_metrics_secure fl,
          mo_probe_addr = fl_probe_addr fl, mo_leader_election = fl_leader_elect fl,
          mo_leader_id = ''rolebasedgroup-controller''\<rparr>)"

section \<open>The start\<close>

datatype boot_step =
    Load_Certificates "string \<times> string"
  | New_Manager manager_options
  | Setup_Controller string "watch list"
  | Add_Runnable "string \<times> string"
  | Add_Healthz
  | Add_Readyz
  | Start_Manager

record 'w boot =
  bt_sys :: "'w sys"
  bt_steps :: "boot_step list"

text \<open>\<open>True\<close>: the process goes on; \<open>False\<close>: it has called \<open>os.Exit(1)\<close>.\<close>

type_synonym 'w booting = "'w boot \<Rightarrow> bool \<times> 'w boot"

definition attempt :: "(boot_step \<Rightarrow> bool) \<Rightarrow> boot_step \<Rightarrow> 'w booting" where
  "attempt succeeds st b = (succeeds st, b\<lparr>bt_steps := bt_steps b @ [st]\<rparr>)"

definition and_boot :: "'w booting \<Rightarrow> 'w booting \<Rightarrow> 'w booting" where
  "and_boot m n b = (case m b of (True, b') \<Rightarrow> n b' | (False, b') \<Rightarrow> (False, b'))"

definition attempt_optional :: "(boot_step \<Rightarrow> bool) \<Rightarrow> ('a \<Rightarrow> boot_step) \<Rightarrow> 'a option \<Rightarrow> 'w booting" where
  "attempt_optional succeeds st w b = (case w of None \<Rightarrow> (True, b) | Some x \<Rightarrow> attempt succeeds (st x) b)"

text \<open>\<open>if err := CheckCrdExists(); err != nil { os.Exit(1) }\<close>; a panic ends the process as well.\<close>

definition require :: "('w, unit) act \<Rightarrow> 'w booting" where
  "require m b = (case m (bt_sys b) of (q, s) \<Rightarrow> (q = Inr (), b\<lparr>bt_sys := s\<rparr>))"

definition setup_controller :: "(boot_step \<Rightarrow> bool) \<Rightarrow> string \<Rightarrow> ('w, watch list) act \<Rightarrow> 'w booting" where
  "setup_controller succeeds name m b = (case m (bt_sys b) of
       (Inl e, s) \<Rightarrow> (False, b\<lparr>bt_sys := s\<rparr>)
     | (Inr watches, s) \<Rightarrow> attempt succeeds (Setup_Controller name watches) (b\<lparr>bt_sys := s\<rparr>))"

primrec boot_all :: "'w booting list \<Rightarrow> 'w booting" where
  "boot_all [] b = (True, b)"
| "boot_all (m # ms) b = and_boot m (boot_all ms) b"

text \<open>\<open>main\<close> up to the start of the manager, and with it.\<close>

definition boot_preparation ::
  "'w client \<Rightarrow> (string \<Rightarrow> string \<Rightarrow> string) \<Rightarrow> (boot_step \<Rightarrow> bool) \<Rightarrow> flags \<Rightarrow> 'w booting list" where
  "boot_preparation rd join_path succeeds fl = [
     attempt_optional succeeds Load_Certificates (cert_watcher join_path (fl_webhook_cert fl)),
     attempt_optional succeeds Load_Certificates (cert_watcher join_path (fl_metrics_cert fl)),
     attempt succeeds (New_Manager (manager_options_of join_path fl)),
     require (check_group_crds rd),
     setup_controller succeeds ''workloads-rolebasedgroup'' (setup_group_controller rd),
     setup_controller succeeds ''pod-controller'' (return_ok setup_pod_controller),
     require (check_adapter_crds rd),
     setup_controller succeeds ''workloads-rolebasedgroup-scalingadapter'' (return_ok setup_adapter_controller),
     require (check_set_crds rd),
     setup_controller succeeds ''workloads-rolebasedgroupset'' (return_ok setup_set_controller),
     attempt_optional succeeds Add_Runnable (cert_watcher join_path (fl_metrics_cert fl)),
     attempt_optional succeeds Add_Runnable (cert_watcher join_path (fl_webhook_cert fl)),
     attempt succeeds Add_Healthz,
     attempt succeeds Add_Readyz]"

definition run_manager ::
  "'w client \<Rightarrow> (string \<Rightarrow> string \<Rightarrow> string) \<Rightarrow> (boot_step \<Rightarrow> bool) \<Rightarrow> flags \<Rightarrow> 'w booting" where
  "run_manager rd join_path succeeds fl =
     boot_all (boot_preparation rd join_path succeeds fl @ [attempt succeeds Start_Manager])"

section \<open>Lemmas\<close>

lemma and_boot_True: "and_boot m n b = (True, c) \<longleftrightarrow> (\<exists>d. m b = (True, d) \<and> n d = (True, c))"
  by (auto simp: and_boot_def split: prod.splits bool.splits)

lemma attempt_iff: "attempt succeeds st b = (ok, c) \<longleftrightarrow> ok = succeeds st \<and> c = b\<lparr>bt_steps := bt_steps b @ [st]\<rparr>"
  by (auto simp: attempt_def)

lemma attempt_optional_True:
  "attempt_optional succeeds st w b = (True, c) \<longleftrightarrow>
     (\<forall>x. w = Some x \<longrightarrow> succeeds (st x)) \<and> c = b\<lparr>bt_steps := bt_steps b @ map st (List.map_filter id [w])\<rparr>"
  by (cases w) (auto simp: attempt_optional_def attempt_iff map_filter_simps)

lemma require_True: "require m b = (True, c) \<longleftrightarrow> (\<exists>s. m (bt_sys b) = (Inr (), s) \<and> c = b\<lparr>bt_sys := s\<rparr>)"
  by (auto simp: require_def split: prod.splits)

lemma setup_controller_True:
  "setup_controller succeeds name m b = (True, c) \<longleftrightarrow>
     (\<exists>ws s. m (bt_sys b) = (Inr ws, s) \<and> succeeds (Setup_Controller name ws) \<and>
        c = b\<lparr>bt_sys := s, bt_steps := bt_steps b @ [Setup_Controller name ws]\<rparr>)"
  by (auto simp: setup_controller_def attempt_iff split: prod.splits sum.splits)

text \<open>What a step that succeeded has done, as equations between the states around it.\<close>

lemma attempt_True:
  "attempt succeeds st b = (True, c) \<Longrightarrow> succeeds st \<and> bt_steps c = bt_steps b @ [st] \<and> bt_sys c = bt_sys b"
  by (simp add: attempt_iff)

lemma attempt_optional_TrueD:
  "attempt_optional succeeds st w b = (True, c) \<Longrightarrow> (\<forall>x. w = Some x \<longrightarrow> succeeds (st x)) \<and>
     bt_steps c = bt_steps b @ map st (List.map_filter id [w]) \<and> bt_sys c = bt_sys b"
  by (simp add: attempt_optional_True)

lemma require_TrueD: "require m b = (True, c) \<Longrightarrow> m (bt_sys b) = (Inr (), bt_sys c) \<and> bt_steps c = bt_steps b"
  by (auto simp: require_True)

lemma setup_controller_TrueD:
  "setup_controller succeeds name m b = (True, c) \<Longrightarrow> \<exists>ws. m (bt_sys b) = (Inr ws, bt_sys c) \<and>
     succeeds (Setup_Controller name ws) \<and> bt_steps c = bt_steps b @ [Setup_Controller name ws]"
  by (auto simp: setup_controller_True)

lemma setup_controller_pure:
  "setup_controller succeeds name (return_ok ws) b = (True, c) \<Longrightarrow> bt_sys c = bt_sys b \<and>
     succeeds (Setup_Controller name ws) \<and> bt_steps c = bt_steps b @ [Setup_Controller name ws]"
  by (auto simp: setup_controller_True return_ok_def)

lemma boot_all_snoc: "boot_all (ms @ [m]) b = and_boot (boot_all ms) m b"
proof (induction ms arbitrary: b)
  case (Cons x xs)
  show ?case by (cases "x b") (auto simp: and_boot_def Cons split: bool.splits)
qed (auto simp: and_boot_def split: prod.splits bool.splits)

text \<open>No step before the last one starts the manager.\<close>

definition never_starts :: "'w booting \<Rightarrow> bool" where
  "never_starts m \<longleftrightarrow> (\<forall>b. Start_Manager \<in> set (bt_steps (snd (m b))) \<longrightarrow> Start_Manager \<in> set (bt_steps b))"

lemma never_starts_ops:
  "st \<noteq> Start_Manager \<Longrightarrow> never_starts (attempt succeeds st)"
  "(\<And>x. f x \<noteq> Start_Manager) \<Longrightarrow> never_starts (attempt_optional succeeds f w)"
  "never_starts (require m)" "never_starts (setup_controller succeeds name n)"
  by (auto simp: never_starts_def attempt_def attempt_optional_def require_def setup_controller_def
      split: option.splits prod.splits sum.splits) metis

lemma never_starts_all: "list_all never_starts ms \<Longrightarrow> never_starts (boot_all ms)"
proof (induction ms)
  case (Cons m ms)
  then have m: "never_starts m" and ms: "never_starts (boot_all ms)" by simp_all
  show ?case
    unfolding never_starts_def
  proof (intro allI impI)
    fix b assume started: "Start_Manager \<in> set (bt_steps (snd (boot_all (m # ms) b)))"
    obtain ok c where c: "m b = (ok, c)" by fastforce
    from started c ms have "Start_Manager \<in> set (bt_steps c)"
      by (cases ok) (simp_all add: and_boot_def never_starts_def)
    with m c show "Start_Manager \<in> set (bt_steps b)" unfolding never_starts_def by (metis snd_conv)
  qed
qed (simp add: never_starts_def)

text \<open>A CRD that was read as established.\<close>

definition crd_established :: "string \<Rightarrow> call \<Rightarrow> bool" where
  "crd_established name q \<longleftrightarrow> (\<exists>d. q = CGet KCrd ([], name) (Inr (ObjCrd d)) \<and>
     list_ex (\<lambda>(ty, st). ty = ''Established'' \<and> st = ConditionTrue) (crd_conditions d))"

lemma check_crd_established:
  assumes "check_crd_exists rd name s = (Inr (), t)"
  shows "\<exists>q. calls t = calls s @ [q] \<and> crd_established name q"
  using assms
  by (auto simp: check_crd_exists_def call_eq_Inr_iff crd_established_def as_crd_def return_ok_def return_err_def
      split: obj.splits if_splits elim!: do_get_found)

lemma check_crds_established:
  "for_each (check_crd_exists rd) names s = (Inr (), t) \<Longrightarrow>
   \<exists>cs. calls t = calls s @ cs \<and> list_all2 crd_established names cs"
proof (induction names arbitrary: s)
  case (Cons name names)
  from Cons.prems obtain u where first: "check_crd_exists rd name s = (Inr (), u)"
    and rest: "for_each (check_crd_exists rd) names u = (Inr (), t)" by (auto simp: call_eq_Inr_iff)
  from check_crd_established [OF first] Cons.IH [OF rest] obtain q cs where
    "calls u = calls s @ [q]" "crd_established name q" "calls t = calls u @ cs" "list_all2 crd_established names cs" by blast
  then show ?case by (intro exI [of _ "q # cs"]) simp
qed (simp add: return_ok_def)

lemma makes_check_crd: "makes is_read (check_crd_exists rd name)"
  unfolding check_crd_exists_def by (intro makes_only only_calls_intros) simp

lemma makes_check_crd_watched: "check_crd_exists rd name s = (q, t) \<Longrightarrow> watched t = watched s"
proof -
  have "only_calls (\<lambda>_. True) (check_crd_exists rd name)"
    unfolding check_crd_exists_def by (intro only_calls_intros) simp
  then show "check_crd_exists rd name s = (q, t) \<Longrightarrow> watched t = watched s" unfolding only_calls_def by blast
qed

lemma setup_group_reads: "makes is_read (setup_group_controller rd)"
  unfolding setup_group_controller_def Let_def
  by (intro makes_callI makes_handle makes_check_crd) (auto split: sum.splits intro!: makes_callI)

text \<open>The steps before the start, in the order of \<open>main\<close>.\<close>

definition certificate_steps :: "(string \<times> string \<Rightarrow> boot_step) \<Rightarrow> (string \<times> string) option list \<Rightarrow> boot_step list" where
  "certificate_steps f ws = map f (List.map_filter id ws)"

definition boot_plan ::
  "(string \<Rightarrow> string \<Rightarrow> string) \<Rightarrow> flags \<Rightarrow> watch list \<Rightarrow> boot_step list" where
  "boot_plan join_path fl ws =
     (let webhook = cert_watcher join_path (fl_webhook_cert fl); metrics = cert_watcher join_path (fl_metrics_cert fl) in
      certificate_steps Load_Certificates [webhook, metrics] @
      [New_Manager (manager_options_of join_path fl), Setup_Controller ''workloads-rolebasedgroup'' ws,
       Setup_Controller ''pod-controller'' setup_pod_controller,
       Setup_Controller ''workloads-rolebasedgroup-scalingadapter'' setup_adapter_controller,
       Setup_Controller ''workloads-rolebasedgroupset'' setup_set_controller] @
      certificate_steps Add_Runnable [metrics, webhook] @ [Add_Healthz, Add_Readyz, Start_Manager])"

definition required_crds :: "string list" where
  "required_crds = group_crds @ [''rolebasedgroupscalingadapters.workloads.x-k8s.io'',
     ''rolebasedgroupsets.workloads.x-k8s.io'']"

lemma run_manager_started:
  assumes "run_manager rd join_path succeeds fl b = (ok, c)" and "Start_Manager \<in> set (bt_steps c)"
    and "bt_steps b = []"
  obtains s ws t where "setup_group_controller rd s = (Inr ws, t)" and "bt_steps c = boot_plan join_path fl ws"
    and "ok = succeeds Start_Manager" and "\<forall>st \<in> set (butlast (bt_steps c)). succeeds st"
    and "\<exists>cs. calls (bt_sys c) = calls (bt_sys b) @ cs \<and> (\<forall>n \<in> set required_crds. \<exists>q \<in> set cs. crd_established n q)"
proof -
  let ?ms = "boot_preparation rd join_path succeeds fl"
  have run: "and_boot (boot_all ?ms) (attempt succeeds Start_Manager) b = (ok, c)"
    using assms(1) unfolding run_manager_def boot_all_snoc .
  obtain ok' d where d: "boot_all ?ms b = (ok', d)" by fastforce
  have "never_starts (boot_all ?ms)"
    by (rule never_starts_all) (simp add: boot_preparation_def never_starts_ops)
  then have "Start_Manager \<notin> set (bt_steps d)" using d assms(3) unfolding never_starts_def by (metis empty_iff empty_set snd_conv)
  with run d assms(2) have ok': "ok'" and c: "attempt succeeds Start_Manager d = (ok, c)"
    by (auto simp: and_boot_def split: if_splits bool.splits)
  from d have "boot_all ?ms b = (True, d)" unfolding eqTrueI [OF ok'] .
  then obtain d1 d2 d3 d4 d5 d6 d7 d8 d9 d10 d11 d12 d13 where
    1: "attempt_optional succeeds Load_Certificates (cert_watcher join_path (fl_webhook_cert fl)) b = (True, d1)"
    and 2: "attempt_optional succeeds Load_Certificates (cert_watcher join_path (fl_metrics_cert fl)) d1 = (True, d2)"
    and 3: "attempt succeeds (New_Manager (manager_options_of join_path fl)) d2 = (True, d3)"
    and 4: "require (check_group_crds rd) d3 = (True, d4)"
    and 5: "setup_controller succeeds ''workloads-rolebasedgroup'' (setup_group_controller rd) d4 = (True, d5)"
    and 6: "setup_controller succeeds ''pod-controller'' (return_ok setup_pod_controller) d5 = (True, d6)"
    and 7: "require (check_adapter_crds rd) d6 = (True, d7)"
    and 8: "setup_controller succeeds ''workloads-rolebasedgroup-scalingadapter'' (return_ok setup_adapter_controller) d7 = (True, d8)"
    and 9: "require (check_set_crds rd) d8 = (True, d9)"
    and 10: "setup_controller succeeds ''workloads-rolebasedgroupset'' (return_ok setup_set_controller) d9 = (True, d10)"
    and 11: "attempt_optional succeeds Add_Runnable (cert_watcher join_path (fl_metrics_cert fl)) d10 = (True, d11)"
    and 12: "attempt_optional succeeds Add_Runnable (cert_watcher join_path (fl_webhook_cert fl)) d11 = (True, d12)"
    and 13: "attempt succeeds Add_Healthz d12 = (True, d13)"
    and 14: "attempt succeeds Add_Readyz d13 = (True, d)"
    by (simp only: boot_preparation_def boot_all.simps and_boot_True prod.inject simp_thms) blast
  note eqs = attempt_True [OF 3] attempt_True [OF 13] attempt_True [OF 14] attempt_optional_TrueD [OF 1]
    attempt_optional_TrueD [OF 2] attempt_optional_TrueD [OF 11] attempt_optional_TrueD [OF 12]
  from require_TrueD [OF 4] eqs have crds: "check_group_crds rd (bt_sys b) = (Inr (), bt_sys d4)"
    and s4: "bt_steps d4 = bt_steps d3" by simp_all
  from setup_controller_TrueD [OF 5] obtain ws where group: "setup_group_controller rd (bt_sys d4) = (Inr ws, bt_sys d5)"
    and s5: "bt_steps d5 = bt_steps d4 @ [Setup_Controller ''workloads-rolebasedgroup'' ws]"
    and g5: "succeeds (Setup_Controller ''workloads-rolebasedgroup'' ws)" by blast
  note pure = setup_controller_pure [OF 6] setup_controller_pure [OF 8] setup_controller_pure [OF 10]
  from require_TrueD [OF 7] pure have adapter: "check_adapter_crds rd (bt_sys d5) = (Inr (), bt_sys d7)"
    and s7: "bt_steps d7 = bt_steps d6" by simp_all
  from require_TrueD [OF 9] pure have set: "check_set_crds rd (bt_sys d7) = (Inr (), bt_sys d9)"
    and s9: "bt_steps d9 = bt_steps d8" by simp_all
  have sys: "bt_sys d = bt_sys d9" using eqs pure by simp
  have steps: "bt_steps d @ [Start_Manager] = boot_plan join_path fl ws"
    using eqs pure s4 s5 s7 s9 assms(3) by (simp add: boot_plan_def certificate_steps_def map_filter_simps Let_def split: option.splits)
  have good: "\<forall>st \<in> set (bt_steps d). succeeds st"
    using eqs pure s4 s5 s7 s9 g5 assms(3) by (auto simp: map_filter_simps split: option.splits)
  from crds check_crds_established obtain cs1 where 1: "calls (bt_sys d4) = calls (bt_sys b) @ cs1" "list_all2 crd_established group_crds cs1"
    unfolding check_group_crds_def by blast
  from makesD [OF setup_group_reads group] obtain cs2 where 2: "calls (bt_sys d5) = calls (bt_sys d4) @ cs2" .
  from adapter check_crds_established obtain cs3 where 3: "calls (bt_sys d7) = calls (bt_sys d5) @ cs3"
    "list_all2 crd_established [''rolebasedgroupscalingadapters.workloads.x-k8s.io''] cs3"
    unfolding check_adapter_crds_def by blast
  from set check_crd_established obtain q where 4: "calls (bt_sys d9) = calls (bt_sys d7) @ [q]"
    "crd_established ''rolebasedgroupsets.workloads.x-k8s.io'' q" unfolding check_set_crds_def by blast
  have read: "\<exists>q \<in> set cs. crd_established n q" if "list_all2 crd_established ns cs" and "n \<in> set ns" for n ns cs
    using that by (metis in_set_conv_nth list_all2_conv_all_nth)
  have "\<exists>q' \<in> set (cs1 @ cs2 @ cs3 @ [q]). crd_established n q'" if "n \<in> set required_crds" for n
    using that read [OF 1(2)] read [OF 3(2)] 4(2) unfolding required_crds_def by auto
  moreover have "calls (bt_sys c) = calls (bt_sys b) @ (cs1 @ cs2 @ cs3 @ [q])"
    using c sys 1(1) 2 3(1) 4(1) by (simp add: attempt_iff)
  moreover have "butlast (boot_plan join_path fl ws) = bt_steps d" unfolding steps [symmetric] by simp
  ultimately show ?thesis using c steps good group by (intro that [of "bt_sys d4" ws "bt_sys d5"]) (auto simp: attempt_iff)
qed

lemma run_manager_not_started:
  assumes "run_manager rd join_path succeeds fl b = (ok, c)" and "Start_Manager \<notin> set (bt_steps c)"
  shows "\<not> ok"
  using assms by (cases ok) (auto simp: run_manager_def boot_all_snoc and_boot_True attempt_iff)

lemma with_entries_has:
  "gm_get (sm_entries es) k \<noteq> None \<Longrightarrow> gm_get (sm_entries (with_entries es m)) k \<noteq> None"
  by (auto simp: with_entries_get map_add_None map_of_eq_None_iff)

lemma with_entries_label:
  "gm_get (sm_entries es) k = Some v \<Longrightarrow> \<exists>y. gm_get (sm_entries (with_entries es m)) k = Some y"
  using with_entries_has [of es k m] by auto

lemma setup_group_watches:
  assumes "setup_group_controller rd s = (Inr ws, t)"
  shows "\<lparr>wa_kind = KSts, wa_maps = OwnsObject, wa_filter = WorkloadPredicate\<rparr> \<in> set ws"
    and "\<lparr>wa_kind = KDeploy, wa_maps = OwnsObject, wa_filter = WorkloadPredicate\<rparr> \<in> set ws"
    and "LwsCrdName \<in> set (watched t) \<Longrightarrow> LwsCrdName \<notin> set (watched s) \<Longrightarrow>
      \<lparr>wa_kind = KLws, wa_maps = OwnsObject, wa_filter = WorkloadPredicate\<rparr> \<in> set ws"
proof -
  obtain q u where crd: "check_crd_exists rd LwsCrdName s = (q, u)" by fastforce
  have keep: "watched v = watched w" if "check_crd_exists rd n w = (p, v)" for n w p v
    using that makes_check_crd_watched by blast
  show "\<lparr>wa_kind = KSts, wa_maps = OwnsObject, wa_filter = WorkloadPredicate\<rparr> \<in> set ws"
    and "\<lparr>wa_kind = KDeploy, wa_maps = OwnsObject, wa_filter = WorkloadPredicate\<rparr> \<in> set ws"
    using assms by (auto simp: setup_group_controller_def call_eq_Inr_iff Let_def)
  assume lws: "LwsCrdName \<in> set (watched t)" "LwsCrdName \<notin> set (watched s)"
  have other: "LwsCrdName \<noteq> PodGroupCrdName" by (simp add: LwsCrdName_def PodGroupCrdName_def)
  show "\<lparr>wa_kind = KLws, wa_maps = OwnsObject, wa_filter = WorkloadPredicate\<rparr> \<in> set ws"
  proof (cases q)
    case (Inr x)
    with assms crd show ?thesis
      by (auto simp: setup_group_controller_def call_eq_Inr_iff Let_def handle_def store_watched_def split: prod.splits)
  next
    case (Inl e)
    obtain q' v where crd': "check_crd_exists rd PodGroupCrdName u = (q', v)" by fastforce
    from Inl assms crd crd' have "watched t = watched v \<or> watched t = watched v @ [PodGroupCrdName]"
      by (cases q') (auto simp: setup_group_controller_def call_eq_Inr_iff Let_def handle_def store_watched_def
          split: if_splits)
    with lws other keep [OF crd] keep [OF crd'] show ?thesis by auto
  qed
qed

section \<open>Properties\<close>

text \<open>C25: The manager starts only when everything is in place: if it starts at all, the steps before were
  exactly those of \<open>main\<close> in their order, each one succeeded, the four controllers are set up, and every
  CRD they need was read as established in this run. If it does not start, the process ends with an
  error, and it also does when the running manager fails.\<close>

theorem manager_starts_last:
  assumes "run_manager rd join_path succeeds fl b = (ok, c)" and "bt_steps b = []"
  shows "if Start_Manager \<in> set (bt_steps c)
    then (\<exists>ws. bt_steps c = boot_plan join_path fl ws) \<and> (\<forall>st \<in> set (butlast (bt_steps c)). succeeds st) \<and>
      ok = succeeds Start_Manager \<and>
      (\<exists>cs. calls (bt_sys c) = calls (bt_sys b) @ cs \<and> (\<forall>n \<in> set required_crds. \<exists>q \<in> set cs. crd_established n q))
    else \<not> ok"
proof (cases "Start_Manager \<in> set (bt_steps c)")
  case True
  from run_manager_started [OF assms(1) True assms(2)] obtain s ws t where
    "bt_steps c = boot_plan join_path fl ws" "ok = succeeds Start_Manager" "\<forall>st \<in> set (butlast (bt_steps c)). succeeds st"
    "\<exists>cs. calls (bt_sys c) = calls (bt_sys b) @ cs \<and> (\<forall>n \<in> set required_crds. \<exists>q \<in> set cs. crd_established n q)" .
  with True show ?thesis by auto
next
  case False
  with run_manager_not_started [OF assms(1)] show ?thesis by simp
qed

definition fresh_boot :: "obj list \<Rightarrow> cluster boot" where
  "fresh_boot objs = \<lparr>bt_sys = run_on objs, bt_steps = []\<rparr>"

definition established_crds :: "obj list" where
  "established_crds = map (\<lambda>n. ObjCrd \<lparr>crd_name = n, crd_conditions = [(''Established'', ConditionTrue)]\<rparr>) required_crds"

theorem manager_starts_last_witness:
  "bt_steps (snd (run_manager store_client (\<lambda>dir file. dir @ ''/'' @ file) (\<lambda>_. True) default_flags
     (fresh_boot established_crds))) \<noteq> [] \<and>
   (\<exists>cs. calls (bt_sys (snd (run_manager store_client (\<lambda>dir file. dir @ ''/'' @ file) (\<lambda>_. True) default_flags
     (fresh_boot established_crds)))) = cs \<and> (\<forall>n \<in> set required_crds. \<exists>q \<in> set cs. crd_established n q))"
proof -
  let ?b = "fresh_boot established_crds"
  let ?run = "run_manager store_client (\<lambda>dir file. dir @ ''/'' @ file) (\<lambda>_. True) default_flags ?b"
  have start: "Start_Manager \<in> set (bt_steps (snd ?run))" by code_simp
  have none: "bt_steps ?b = []" "calls (bt_sys ?b) = []" by (simp_all add: fresh_boot_def run_on_def)
  have "?run = (fst ?run, snd ?run)" by simp
  from manager_starts_last [OF this none(1)] start none(2) show ?thesis by auto
qed

text \<open>C26: The controllers can see what they create: the manager's cache, through which they read, holds only
  workloads and services with the group name label, and every StatefulSet, Deployment and headless
  service that is constructed carries it, unless it takes the selector of an existing workload that
  lacks it.\<close>

theorem created_workloads_cached:
  assumes "om_uid (ss_meta old) = [] \<or> (\<exists>l. ss_selector old = Some l \<and> gm_get (sm_entries (ls_match_labels l)) SetNameLabelKey \<noteq> None)"
    and "om_uid (dp_meta old') = [] \<or> (\<exists>l. dp_selector old' = Some l \<and> gm_get (sm_entries (ls_match_labels l)) SetNameLabelKey \<noteq> None)"
  shows "(construct_sts lib c g r old s = (Inr x, t) \<longrightarrow> cache_selects KSts (ObjSts x)) \<and>
    (construct_deployment lib c g r old' s = (Inr y, u) \<longrightarrow> cache_selects KDeploy (ObjDeploy y)) \<and>
    (construct_service g r x = Inr z \<longrightarrow> cache_selects KService (ObjService z))"
proof -
  have common: "\<exists>v. gm_get (sm_entries (with_entries (Some (get_common_labels g r)) None)) SetNameLabelKey = Some v"
    by (rule with_entries_label [where v = "g_name g"]) (simp add: get_common_labels_def)
  show ?thesis
  proof (intro conjI impI)
    assume "construct_sts lib c g r old s = (Inr x, t)"
    with assms(1) show "cache_selects KSts (ObjSts x)"
      by (cases "om_uid (ss_meta old) = []")
        (use common in \<open>auto simp: construct_sts_def call_eq_Inr_iff cache_selects_def cache_options_def
          match_labels_of_def intro: with_entries_label\<close>)
  next
    assume "construct_deployment lib c g r old' s = (Inr y, u)"
    with assms(2) show "cache_selects KDeploy (ObjDeploy y)"
      by (cases "om_uid (dp_meta old') = []")
        (use common in \<open>auto simp: construct_deployment_def call_eq_Inr_iff cache_selects_def cache_options_def
          intro: with_entries_label\<close>)
  next
    assume "construct_service g r x = Inr z"
    then show "cache_selects KService (ObjService z)"
      by (auto simp: construct_service_def cache_selects_def cache_options_def get_common_labels_def split: sum.splits)
  qed
qed

theorem created_workloads_cached_witness:
  "cache_selects KService (ObjService (projr (construct_service (sample_rbg []) (sample_role ''a'' [] 1) (sample_sts 1 0 1))))"
proof -
  have "construct_service (sample_rbg []) (sample_role ''a'' [] 1) (sample_sts 1 0 1) =
      Inr (projr (construct_service (sample_rbg []) (sample_role ''a'' [] 1) (sample_sts 1 0 1)))"
    by (simp add: construct_service_def get_common_annotations_def sample_role_def)
  moreover have "om_uid (ss_meta zero_sts) = []" "om_uid (dp_meta zero_deployment) = []"
    by (simp_all add: zero_sts_def zero_deployment_def empty_meta_def)
  ultimately show ?thesis using created_workloads_cached [of zero_sts zero_deployment] by blast
qed

text \<open>The number of ready replicas a workload reports.\<close>

fun ready_count :: "obj \<Rightarrow> int option" where
  "ready_count (ObjSts x) = Some (ss_ready_replicas x)"
| "ready_count (ObjDeploy x) = Some (dp_ready_replicas x)"
| "ready_count (ObjLws x) = Some (lw_ready_replicas x)"
| "ready_count _ = None"

text \<open>C24: Progress of a workload reaches its group: with the watches of the group controller, every update of
  a StatefulSet or Deployment that a group owns, and of a LeaderWorkerSet when its CRD was there at the
  start, in which the number of ready replicas changed asks for a reconcile of the group, so a role
  that waits for it is looked at again.\<close>

theorem ready_change_wakes_group:
  assumes "setup_group_controller rd s = (Inr ws, t)"
    and "obj_kind old = Some k" and "obj_kind new = Some k"
    and "k \<in> {KSts, KDeploy} \<or> k = KLws \<and> LwsCrdName \<in> set (watched t) \<and> LwsCrdName \<notin> set (watched s)"
    and "ready_count old \<noteq> ready_count new"
    and "has_valid_owner_ref lib old get_rbg_gvk" and "has_valid_owner_ref lib new get_rbg_gvk"
    and "\<not> (\<exists>p. workload_equal old new = Inl (Panic p))"
  shows "\<exists>w \<in> set ws. wa_kind w = k \<and> wa_maps w = OwnsObject \<and>
    filter_accepts lib (wa_filter w) (Update_Event (Some old) (Some new)) = Inr True"
proof -
  have "workload_equal old new \<noteq> Inr ()"
    using assms(2-5) by (cases old; cases new) (auto simp: workload_equal_def)
  then obtain e where e: "workload_equal old new = Inl e" by (cases "workload_equal old new") auto
  with assms(8) have "\<not> is_panic e" by (cases e) auto
  with e assms(6,7) have "filter_accepts lib WorkloadPredicate (Update_Event (Some old) (Some new)) = Inr True" by simp
  moreover have "\<lparr>wa_kind = k, wa_maps = OwnsObject, wa_filter = WorkloadPredicate\<rparr> \<in> set ws"
    using setup_group_watches [OF assms(1)] assms(4) by auto
  ultimately show ?thesis by force
qed

theorem ready_change_wakes_group_witness:
  "\<exists>w \<in> set (projr (fst (setup_group_controller store_client (run_on [])))). wa_kind w = KSts \<and>
     filter_accepts sample_lib (wa_filter w) (Update_Event (Some (ObjSts (owned_sts 2))) (Some (ObjSts (owned_sts 3)))) = Inr True"
proof -
  have "fst (setup_group_controller store_client (run_on [])) =
      Inr (projr (fst (setup_group_controller store_client (run_on []))))" by code_simp
  then obtain t where run: "setup_group_controller store_client (run_on []) =
      (Inr (projr (fst (setup_group_controller store_client (run_on [])))), t)" by (metis prod.collapse)
  have "obj_kind (ObjSts (owned_sts 2)) = Some KSts" "obj_kind (ObjSts (owned_sts 3)) = Some KSts"
    and "KSts \<in> {KSts, KDeploy} \<or> KSts = KLws \<and> LwsCrdName \<in> set (watched t) \<and>
      LwsCrdName \<notin> set (watched (run_on [] :: cluster sys))"
    and "ready_count (ObjSts (owned_sts 2)) \<noteq> ready_count (ObjSts (owned_sts 3))" by (simp_all, code_simp)
  moreover have "has_valid_owner_ref sample_lib (ObjSts (owned_sts 2)) get_rbg_gvk"
    and "has_valid_owner_ref sample_lib (ObjSts (owned_sts 3)) get_rbg_gvk" by code_simp+
  moreover have "\<not> (\<exists>p. workload_equal (ObjSts (owned_sts 2)) (ObjSts (owned_sts 3)) = Inl (Panic p))"
  proof -
    have "\<not> is_panic (projl (workload_equal (ObjSts (owned_sts 2)) (ObjSts (owned_sts 3))))" by code_simp
    then show ?thesis by (metis is_panic.simps(1) sum.sel(1))
  qed
  ultimately show ?thesis using ready_change_wakes_group [OF run] by blast
qed

text \<open>A LeaderWorkerSet is compared without the size its status reports, on which its readiness depends too:
  a change of the size alone goes unseen.\<close>

lemma lws_size_change_unseen:
  assumes "semantically_equal_lws (Some x) (Some (x\<lparr>lw_status_replicas := n\<rparr>)) = Inr ()"
  shows "filter_accepts lib WorkloadPredicate
    (Update_Event (Some (ObjLws x)) (Some (ObjLws (x\<lparr>lw_status_replicas := n\<rparr>)))) = Inr False"
proof -
  have "workload_equal (ObjLws x) (ObjLws (x\<lparr>lw_status_replicas := n\<rparr>)) = Inr ()"
    using assms by (simp add: workload_equal_def and_then_def check_def)
  then show ?thesis by simp
qed

end
