(* ===== verification/Bring_Up.thy ===== *)
theory Bring_Up
  imports Group_Order
begin

text \<open>
  How a group comes up over several reconciles. Each reconcile goes through the roles in their order
  and stops at the first one whose dependencies are not all ready; the cluster, meanwhile, makes ready
  what was applied. Nothing else is assumed of the cluster: objects may come and go, other clients may
  act, and the status of the group may change from one reconcile to the next.

  Two theorems say that the group comes up. If every workload that a reconcile found is ready by the next
  reconcile, then at most as many reconciles wait as there are roles with dependencies. If it only is
  ready some time later for good, then some reconcile goes through all roles.
\<close>

section \<open>Rounds\<close>

text \<open>One reconcile that ends without an error: the group it read, the delay it asks for, and the requests
  it made after reading the group.\<close>

definition group_round ::
  "klib \<Rightarrow> 'w client \<Rightarrow> 'w client \<Rightarrow> nat \<Rightarrow> nat \<Rightarrow> nsname \<Rightarrow> 'w sys \<Rightarrow> (rbg \<times> nat \<times> call list) option" where
  "group_round lib c rd attempts retries key s =
     (case do_get c KRbg as_rbg key s of
        (Inl _, _) \<Rightarrow> None
      | (Inr g, u) \<Rightarrow>
          (case reconcile_group lib c rd attempts retries key s of
             (Inl _, _) \<Rightarrow> None
           | (Inr z, t) \<Rightarrow> Some (g, z, drop (length (calls u)) (calls t))))"

text \<open>The part of a group that no reconcile and no status patch changes.\<close>

definition same_group :: "rbg \<Rightarrow> rbg \<Rightarrow> bool" where
  "same_group g h \<longleftrightarrow> g_roles h = g_roles g \<and> g_name h = g_name g \<and> g_namespace h = g_namespace g"

text \<open>The first trace found the workload of the role; the second did not read it with replicas missing.\<close>

definition settled_by :: "rbg \<Rightarrow> role_spec \<Rightarrow> call list \<Rightarrow> call list \<Rightarrow> bool" where
  "settled_by g r cs ds \<longleftrightarrow> workload_found g r cs \<longrightarrow> list_all (\<lambda>q. \<not> read_waiting g r q) ds"

definition dependent_roles :: "rbg \<Rightarrow> role_spec list" where
  "dependent_roles g = filter (\<lambda>r. r_dependencies r \<noteq> []) (g_roles g)"

lemma read_found_code [code]:
  "read_found g r q = (case q of CGet k key (Inr ob) \<Rightarrow> key = workload_key g r | _ \<Rightarrow> False)"
  by (auto simp: read_found_def split: call.split sum.split)

lemma read_waiting_code [code]:
  "read_waiting g r q = (case q of CGet k key (Inr ob) \<Rightarrow> key = workload_key g r \<and> workload_waiting_obj ob | _ \<Rightarrow> False)"
  by (auto simp: read_waiting_def split: call.split sum.split)

section \<open>Lemmas\<close>

lemma sort_roles_same: "same_group g h \<Longrightarrow> sort_roles h = sort_roles g"
proof -
  assume "same_group g h"
  then have roles: "g_roles h = g_roles g" by (simp add: same_group_def)
  show "sort_roles h = sort_roles g" unfolding sort_roles_def roles ..
qed

lemma same_group_key [simp]: "same_group g h \<Longrightarrow> workload_key h r = workload_key g r"
  by (simp add: same_group_def workload_key_def get_workload_name_def)

lemma same_group_reads:
  assumes "same_group g h"
  shows "read_found h r q \<longleftrightarrow> read_found g r q" and "read_waiting h r q \<longleftrightarrow> read_waiting g r q"
    and "workload_found h r cs \<longleftrightarrow> workload_found g r cs"
  using assms by (simp_all add: read_found_def read_waiting_def workload_found_def)

lemma reconcile_sorted_delay:
  assumes "reconcile_sorted lib c rd attempts retries g rs s = (Inr z, t)"
  shows "z = 0 \<or> z = 5"
proof -
  from assms obtain finished u where "(case finished of
       None \<Rightarrow> return_ok 5
     | Some (update_status, role_statuses) \<Rightarrow>
         call (if update_status then on_error g FailedUpdateStatus (update_rbg_status c g role_statuses)
               else return_ok ()) (\<lambda>_.
         call (on_error g ''delete role error'' (delete_roles lib c g)) (\<lambda>_.
         call (record_event (g_name g) Succeed) (\<lambda>_.
         return_ok 0)))) u = (Inr z, t)"
    unfolding reconcile_sorted_def call_eq_Inr_iff by blast
  then show ?thesis
    by (cases finished) (auto simp: call_eq_Inr_iff split: prod.splits)
qed

text \<open>A round ends in one of two ways.\<close>

lemma group_round_cases:
  assumes "group_round lib c rd attempts retries key s = Some (g, z, cs)" and "unique_role_names g"
  obtains (finished) "z = 0" and "om_deletion (g_meta g) = None \<Longrightarrow> \<forall>r \<in> set (g_roles g). role_done g r cs"
    | (waiting) pre r post dep q where "z = 5" and "sort_roles g = Inr (pre @ r # post)" and "dep \<in> set pre"
      and "r_name dep \<in> set (r_dependencies r)" and "q \<in> set cs" and "read_waiting g dep q"
      and "\<And>p. p \<in> set pre \<Longrightarrow> role_done g p cs"
proof -
  from assms(1) obtain u t where get: "do_get c KRbg as_rbg key s = (Inr g, u)"
    and run: "reconcile_group lib c rd attempts retries key s = (Inr z, t)"
    and cs: "cs = drop (length (calls u)) (calls t)"
    by (auto simp: group_round_def split: prod.splits sum.splits)
  show ?thesis
  proof (cases "om_deletion (g_meta g) = None")
    case False
    with run get have "z = 0" by (simp add: reconcile_group_def handle_def)
    then show ?thesis by (rule finished) (use False in simp)
  next
    case True
    with run get obtain rs where rs: "sort_roles g = Inr rs"
      and sorted: "reconcile_sorted lib c rd attempts retries g rs u = (Inr z, t)"
      by (auto simp: reconcile_group_def handle_def call_eq_Inr_iff)
    from reconcile_sorted_delay [OF sorted] show ?thesis
    proof
      assume "z = 0"
      with reconcile_sorted_finished [OF _ assms(2) rs, of lib c rd attempts retries u t] sorted obtain ds
        where "calls t = calls u @ ds @ [CEvent (g_name g) Succeed]" "\<forall>r \<in> set (g_roles g). role_done g r ds" by blast
      then have "\<forall>r \<in> set (g_roles g). role_done g r cs" using cs by (auto elim!: role_done_mono)
      then show ?thesis by (rule finished [OF \<open>z = 0\<close>])
    next
      assume "z = 5"
      with run have "reconcile_group lib c rd attempts retries key s = (Inr 5, t)" by simp
      from reconcile_group_waiting [OF get assms(2) this] obtain pre r post dep ds q
        where found: "sort_roles g = Inr (pre @ r # post)" "dep \<in> set pre" "r_name dep \<in> set (r_dependencies r)"
          and trace: "calls t = calls u @ ds @ [q]" and q: "read_waiting g dep q"
          and here: "\<And>p. p \<in> set pre \<Longrightarrow> role_done g p ds" by metis
      from trace cs have "q \<in> set cs" and sub: "set ds \<subseteq> set cs" by auto
      show ?thesis
        by (rule waiting [OF \<open>z = 5\<close> found \<open>q \<in> set cs\<close> q]) (use role_done_mono [OF here sub] in auto)
    qed
  qed
qed


text \<open>A round that waits at position \<open>i\<close> of the order: the roles before \<open>i\<close> were gone through, and one of them
  was read with replicas missing.\<close>

definition waits_at :: "rbg \<Rightarrow> role_spec list \<Rightarrow> nat \<Rightarrow> call list \<Rightarrow> bool" where
  "waits_at g rs i cs \<longleftrightarrow> i < length rs \<and> r_dependencies (rs ! i) \<noteq> [] \<and>
     list_all (\<lambda>p. workload_found g p cs) (take i rs) \<and>
     list_ex (\<lambda>p. list_ex (read_waiting g p) cs) (take i rs)"

lemma group_round_waits:
  assumes "group_round lib c rd attempts retries key s = Some (h, z, cs)" and "unique_role_names g"
    and "same_group g h" and "\<not> (z = 0 \<and> (om_deletion (g_meta h) = None \<longrightarrow> (\<forall>r \<in> set (g_roles h). role_done h r cs)))"
  shows "\<exists>rs i. sort_roles g = Inr rs \<and> waits_at g rs i cs"
proof -
  have "unique_role_names h" using assms(2,3) by (simp add: same_group_def unique_role_names_def)
  with assms(1) show ?thesis
  proof (cases rule: group_round_cases)
    case finished
    with assms(4) show ?thesis by blast
  next
    case (waiting pre r post dep q)
    then have "waits_at h (pre @ r # post) (length pre) cs"
      by (auto simp: waits_at_def list_all_iff list_ex_iff role_done_def)
    moreover have "waits_at h rs i cs = waits_at g rs i cs" for rs i
      using same_group_reads [OF assms(3)] by (simp add: waits_at_def list_all_iff list_ex_iff)
    moreover have "sort_roles g = Inr (pre @ r # post)"
      using waiting(2) sort_roles_same [OF assms(3)] by simp
    ultimately show ?thesis by blast
  qed
qed

text \<open>When what was found is ready by the next round, the next round gets further.\<close>

lemma waits_further:
  assumes "waits_at g rs i cs" and "waits_at g rs j ds"
    and "list_all (\<lambda>r. settled_by g r cs ds) rs"
  shows "i < j"
proof (rule ccontr)
  assume "\<not> i < j"
  then have sub: "set (take j rs) \<subseteq> set (take i rs)" by (simp add: set_take_subset_set_take)
  from assms(2) obtain p q where p: "p \<in> set (take j rs)" and q: "q \<in> set ds" "read_waiting g p q"
    by (auto simp: waits_at_def list_ex_iff)
  from p sub assms(1) have "workload_found g p cs" by (auto simp: waits_at_def list_all_iff)
  moreover have "p \<in> set rs" using p by (rule in_set_takeD)
  ultimately show False using assms(3) q by (auto simp: settled_by_def list_all_iff)
qed

lemma increasing_positions:
  fixes f :: "nat \<Rightarrow> nat"
  assumes "\<And>k. k < n \<Longrightarrow> f k < f (Suc k)" and "\<And>k. k \<le> n \<Longrightarrow> f k \<in> A" and "finite A"
  shows "n < card A"
proof -
  have mono: "j \<le> n \<longrightarrow> f i < f j" if "i < j" for i j
    using that by (induction rule: less_Suc_induct) (auto simp: assms(1) dest: less_trans)
  have "inj_on f {..n}"
    by (rule linorder_inj_onI) (use mono in \<open>auto simp: less_imp_neq\<close>)
  then have "card (f ` {..n}) = Suc n" by (simp add: card_image)
  moreover have "card (f ` {..n}) \<le> card A" by (rule card_mono) (use assms(2,3) in auto)
  ultimately show ?thesis by simp
qed


section \<open>A run\<close>

text \<open>The StatefulSet of a role of \<open>two_roles\<close> as its reconcile applies it, with the identity and the
  readiness the cluster gives it, and three states of the cluster: nothing there, the first role
  running, both running.\<close>

definition running_sts :: "role_spec \<Rightarrow> obj list" where
  "running_sts r =
     (case construct_sts sample_lib store_client two_roles r zero_sts (run_on []) of
        (Inr x, _) \<Rightarrow> [ObjSts (x\<lparr>ss_meta := (ss_meta x)\<lparr>om_uid := ''uid-s''\<rparr>, ss_replicas := Some 1, ss_ready_replicas := 1,
          ss_update_strategy := \<lparr>us_type = RollingUpdateStrategyType, us_rolling_update =
            Some \<lparr>su_partition = Some 0, su_max_unavailable = Some (IntVal 1)\<rparr>\<rparr>\<rparr>)]
      | (Inl _, _) \<Rightarrow> [])"

definition sample_round :: "cluster sys \<Rightarrow> (rbg \<times> nat \<times> call list) option" where
  "sample_round = group_round sample_lib store_client store_client 1 1 (''ns'', ''g'')"

definition sample_state :: "nat \<Rightarrow> cluster sys" where
  "sample_state k = run_on (ObjRbg two_roles # (if k = 0 then [] else if k = 1 then running_sts (sample_role ''a'' [] 1)
     else running_sts (sample_role ''a'' [] 1) @ running_sts (sample_role ''b'' [''a''] 1)))"

text \<open>What a round leaves to wait for.\<close>

definition nothing_waiting :: "call list \<Rightarrow> bool" where
  "nothing_waiting cs \<longleftrightarrow> list_all (\<lambda>q. case q of CGet k key (Inr ob) \<Rightarrow> \<not> workload_waiting_obj ob | _ \<Rightarrow> True) cs"

lemma nothing_waiting_all: "nothing_waiting cs \<Longrightarrow> list_all (\<lambda>q. \<not> read_waiting g r q) cs"
  by (auto simp: nothing_waiting_def list_all_iff read_waiting_def)

definition round_ok :: "(rbg \<times> nat \<times> call list) option \<Rightarrow> (rbg \<Rightarrow> nat \<Rightarrow> call list \<Rightarrow> bool) \<Rightarrow> bool" where
  "round_ok x P = (case x of None \<Rightarrow> False | Some (g, z, cs) \<Rightarrow> P g z cs)"

lemma round_okE:
  assumes "round_ok x P"
  obtains g z cs where "x = Some (g, z, cs)" and "P g z cs"
  using assms by (auto simp: round_ok_def split: option.splits)

lemma sample_round_0:
  obtains cs where "sample_round (sample_state 0) = Some (two_roles, 5, cs)"
    and "\<not> workload_found two_roles (sample_role ''b'' [''a''] 1) cs"
proof -
  have "round_ok (sample_round (sample_state 0)) (\<lambda>g z cs. g = two_roles \<and> z = 5 \<and>
     \<not> workload_found two_roles (sample_role ''b'' [''a''] 1) cs)" by code_simp
  then show ?thesis using that by (auto elim!: round_okE)
qed

lemma sample_round_1:
  obtains z cs where "sample_round (sample_state 1) = Some (two_roles, z, cs)"
    and "list_all (\<lambda>q. \<not> read_waiting two_roles (sample_role ''a'' [] 1) q) cs"
proof -
  have "round_ok (sample_round (sample_state 1)) (\<lambda>g z cs. g = two_roles \<and>
     list_all (\<lambda>q. \<not> read_waiting two_roles (sample_role ''a'' [] 1) q) cs)" by code_simp
  then show ?thesis using that by (auto elim!: round_okE)
qed

lemma sample_round_2:
  obtains z cs where "\<forall>k \<ge> 2. sample_round (sample_state k) = Some (two_roles, z, cs)"
    and "nothing_waiting cs"
proof -
  have "round_ok (sample_round (sample_state 2)) (\<lambda>g z cs. g = two_roles \<and> nothing_waiting cs)" by code_simp
  then obtain z cs where "sample_round (sample_state 2) = Some (two_roles, z, cs)" "nothing_waiting cs"
    by (auto elim!: round_okE)
  moreover have "sample_state k = sample_state 2" if "2 \<le> k" for k using that by (simp add: sample_state_def)
  ultimately show ?thesis using that by metis
qed

lemma two_roles_set: "g_roles two_roles = [sample_role ''b'' [''a''] 1, sample_role ''a'' [] 1]"
  by (simp add: two_roles_def sample_rbg_def)

section \<open>Properties\<close>

text \<open>C5: A group comes up within a known number of reconciles: when every workload that a reconcile found
  has all replicas ready by the next one, the reconciles of a group (whose status may change, but not
  its roles) wait at most as often as the group has roles with dependencies; the next one asks for no
  further run and, unless the group is being deleted, has gone through every role. In particular two
  roles never wait for each other.\<close>

theorem bring_up_bounded:
  fixes s :: "nat \<Rightarrow> 'w sys"
  assumes "\<And>k. k \<le> n \<Longrightarrow> group_round lib c rd attempts retries key (s k) = Some (g k, z k, cs k)"
    and "\<And>k. k \<le> n \<Longrightarrow> same_group (g 0) (g k)" and "unique_role_names (g 0)"
    and "length (dependent_roles (g 0)) \<le> n"
    and "\<And>k. k < n \<Longrightarrow> list_all (\<lambda>r. settled_by (g 0) r (cs k) (cs (Suc k))) (g_roles (g 0))"
  shows "\<exists>k \<le> n. z k = 0 \<and> (om_deletion (g_meta (g k)) = None \<longrightarrow> (\<forall>r \<in> set (g_roles (g k)). role_done (g k) r (cs k)))"
    (is "\<exists>k \<le> n. ?P k")
proof (rule ccontr)
  assume "\<not> (\<exists>k \<le> n. ?P k)"
  then have none: "\<not> ?P k" if "k \<le> n" for k
    using that by (elim contrapos_nn) (rule exI [of _ k], rule conjI)
  have waits: "\<exists>rs i. sort_roles (g 0) = Inr rs \<and> waits_at (g 0) rs i (cs k)" if "k \<le> n" for k
    by (rule group_round_waits [OF assms(1) [OF that] assms(3) assms(2) [OF that] none [OF that]])
  then obtain rs where rs: "sort_roles (g 0) = Inr rs" by blast
  with waits have "\<forall>k. \<exists>i. k \<le> n \<longrightarrow> waits_at (g 0) rs i (cs k)" by (metis sum.inject(2))
  then obtain f where f: "\<And>k. k \<le> n \<Longrightarrow> waits_at (g 0) rs (f k) (cs k)" by metis
  have roles: "set rs = set (g_roles (g 0))" and perm: "mset rs = mset (g_roles (g 0))"
    using sort_roles_perm [OF rs assms(3)] by (auto dest: mset_eq_setD)
  let ?A = "{i. i < length rs \<and> r_dependencies (rs ! i) \<noteq> []}"
  have "n < card ?A"
  proof (rule increasing_positions [of n f])
    fix k assume "k < n"
    with assms(5) roles have "list_all (\<lambda>r. settled_by (g 0) r (cs k) (cs (Suc k))) rs" by (simp add: list_all_iff)
    with f [of k] f [of "Suc k"] \<open>k < n\<close> show "f k < f (Suc k)" by (intro waits_further) auto
  qed (use f in \<open>auto simp: waits_at_def\<close>)
  also have "card ?A = length (filter (\<lambda>r. r_dependencies r \<noteq> []) rs)"
    by (simp add: length_filter_conv_card)
  also have "\<dots> = length (dependent_roles (g 0))"
    unfolding dependent_roles_def using perm by (metis mset_filter size_mset)
  finally show False using assms(4) by simp
qed

theorem bring_up_bounded_witness:
  "\<exists>cs. sample_round (sample_state 1) = Some (two_roles, 0, cs) \<and> (\<forall>r \<in> set (g_roles two_roles). role_done two_roles r cs)"
proof -
  obtain cs0 where r0: "sample_round (sample_state 0) = Some (two_roles, 5, cs0)"
    and b: "\<not> workload_found two_roles (sample_role ''b'' [''a''] 1) cs0" by (rule sample_round_0)
  obtain z1 cs1 where r1: "sample_round (sample_state 1) = Some (two_roles, z1, cs1)"
    and a: "list_all (\<lambda>q. \<not> read_waiting two_roles (sample_role ''a'' [] 1) q) cs1" by (rule sample_round_1)
  let ?z = "\<lambda>k :: nat. if k = 0 then 5 else z1" and ?cs = "\<lambda>k :: nat. if k = 0 then cs0 else cs1"
  have "\<exists>k \<le> 1. ?z k = 0 \<and> (om_deletion (g_meta two_roles) = None \<longrightarrow>
      (\<forall>r \<in> set (g_roles two_roles). role_done two_roles r (?cs k)))"
  proof (rule bring_up_bounded [of 1 sample_lib store_client store_client 1 1 "(''ns'', ''g'')" sample_state "\<lambda>_. two_roles"])
    fix k :: nat
    show "group_round sample_lib store_client store_client 1 1 (''ns'', ''g'') (sample_state k) = Some (two_roles, ?z k, ?cs k)"
      if "k \<le> 1" using that r0 r1 by (cases "k = 0") (auto simp: sample_round_def le_Suc_eq)
    show "list_all (\<lambda>r. settled_by two_roles r (?cs k) (?cs (Suc k))) (g_roles two_roles)" if "k < 1"
      using that a b by (simp add: settled_by_def two_roles_set)
    show "length (dependent_roles two_roles) \<le> 1" by code_simp
  qed (simp_all add: same_group_def two_roles_unique)
  moreover have "om_deletion (g_meta two_roles) = None" by code_simp
  ultimately show ?thesis using r1 by (auto simp: le_Suc_eq)
qed

text \<open>C6: A group comes up in the end, however slow the cluster is: in an infinite sequence of reconciles that
  end without an error, when every workload that was found is from some later reconcile on never read
  with replicas missing, some reconcile asks for no further run and, unless the group is being deleted,
  has gone through every role.\<close>

theorem bring_up_eventually:
  fixes s :: "nat \<Rightarrow> 'w sys"
  assumes "\<And>k. group_round lib c rd attempts retries key (s k) = Some (g k, z k, cs k)"
    and "\<And>k. same_group (g 0) (g k)" and "unique_role_names (g 0)"
    and "\<And>k r. workload_found (g 0) r (cs k) \<Longrightarrow> \<exists>m. \<forall>j \<ge> m. list_all (\<lambda>q. \<not> read_waiting (g 0) r q) (cs j)"
  shows "\<exists>k. z k = 0 \<and> (om_deletion (g_meta (g k)) = None \<longrightarrow> (\<forall>r \<in> set (g_roles (g k)). role_done (g k) r (cs k)))"
proof (rule ccontr)
  assume none: "\<not> ?thesis"
  have waits: "\<exists>rs i. sort_roles (g 0) = Inr rs \<and> waits_at (g 0) rs i (cs k)" for k
    using group_round_waits [OF assms(1) assms(3) assms(2)] none by blast
  then obtain rs where rs: "sort_roles (g 0) = Inr rs" by blast
  with waits have at: "\<exists>i. waits_at (g 0) rs i (cs k)" for k by (metis sum.inject(2))
  have "\<forall>p \<in> set rs. \<exists>m. (\<exists>k. workload_found (g 0) p (cs k)) \<longrightarrow> (\<forall>j \<ge> m. list_all (\<lambda>q. \<not> read_waiting (g 0) p q) (cs j))"
    using assms(4) by blast
  then obtain m where m: "\<And>p k j. p \<in> set rs \<Longrightarrow> workload_found (g 0) p (cs k) \<Longrightarrow> m p \<le> j \<Longrightarrow>
      list_all (\<lambda>q. \<not> read_waiting (g 0) p q) (cs j)" by metis
  define j where "j = Max (insert 0 (m ` set rs))"
  from at [of j] obtain i where i: "waits_at (g 0) rs i (cs j)" by blast
  then obtain p q where p: "p \<in> set (take i rs)" and q: "q \<in> set (cs j)" "read_waiting (g 0) p q"
    by (auto simp: waits_at_def list_ex_iff)
  from p i have "workload_found (g 0) p (cs j)" by (auto simp: waits_at_def list_all_iff)
  moreover have "p \<in> set rs" using p by (rule in_set_takeD)
  moreover from this have "m p \<le> j" by (simp add: j_def)
  ultimately show False using m q by (auto simp: list_all_iff)
qed

theorem bring_up_eventually_witness:
  "\<exists>k cs. sample_round (sample_state k) = Some (two_roles, 0, cs) \<and> (\<forall>r \<in> set (g_roles two_roles). role_done two_roles r cs)"
proof -
  obtain cs0 where r0: "sample_round (sample_state 0) = Some (two_roles, 5, cs0)" by (rule sample_round_0)
  obtain z1 cs1 where r1: "sample_round (sample_state 1) = Some (two_roles, z1, cs1)" by (rule sample_round_1)
  obtain z2 cs2 where r2: "\<forall>k \<ge> 2. sample_round (sample_state k) = Some (two_roles, z2, cs2)"
    and quiet: "nothing_waiting cs2" by (rule sample_round_2)
  let ?z = "\<lambda>k :: nat. if k = 0 then 5 else if k = 1 then z1 else z2"
    and ?cs = "\<lambda>k :: nat. if k = 0 then cs0 else if k = 1 then cs1 else cs2"
  have all: "sample_round (sample_state k) = Some (two_roles, ?z k, ?cs k)" for k
    using r0 r1 r2 by auto
  have "\<exists>k. ?z k = 0 \<and> (om_deletion (g_meta two_roles) = None \<longrightarrow>
      (\<forall>r \<in> set (g_roles two_roles). role_done two_roles r (?cs k)))"
  proof (rule bring_up_eventually [of sample_lib store_client store_client 1 1 "(''ns'', ''g'')" sample_state "\<lambda>_. two_roles"])
    show "group_round sample_lib store_client store_client 1 1 (''ns'', ''g'') (sample_state k) = Some (two_roles, ?z k, ?cs k)"
      for k using all [of k] by (simp only: sample_round_def)
    show "\<exists>m. \<forall>j \<ge> m. list_all (\<lambda>q. \<not> read_waiting two_roles r q) (?cs j)" for r
      by (rule exI [of _ 2]) (simp add: nothing_waiting_all [OF quiet])
  qed (simp_all add: same_group_def two_roles_unique)
  then obtain k where zero: "?z k = 0" and went: "om_deletion (g_meta two_roles) = None \<longrightarrow>
      (\<forall>r \<in> set (g_roles two_roles). role_done two_roles r (?cs k))" by (elim exE conjE)
  have "om_deletion (g_meta two_roles) = None" by code_simp
  with went have "\<forall>r \<in> set (g_roles two_roles). role_done two_roles r (?cs k)" by (rule mp)
  with all [of k] zero show ?thesis by (intro exI [of _ k] exI [of _ "?cs k"]) (simp only: simp_thms)
qed

end
