(* ===== verification/Panic_Freedom.thy ===== *)
theory Panic_Freedom
  imports Group_Set
begin

text \<open>
  No handler panics. The program dereferences some thirty pointers and indexes slices with computed
  indices; whether it panics depends on the objects the API server hands out. \<open>object_ok\<close> collects
  what the program relies on without checking: counts that are set and in range, selectors, the
  partition of a StatefulSet, the templates of a LeaderWorkerSet, the index label of a pod.

  Most of it is what the schemas and the defaulting of the API server promise. Four points are not,
  and each is a panic that a valid object causes: a role with a LeaderWorkerSet whose
  \<open>leaderWorkerSet\<close> is left out (the default of \<open>size\<close> only applies when the struct around it is
  there), an adapter and a group set without \<open>spec\<close>, and a StatefulSet scaled down from outside
  (\<open>Rolling_Update\<close>). The lemmas at the end show them.
\<close>

section \<open>What the program relies on\<close>

definition small_count :: "int \<Rightarrow> bool" where
  "small_count n \<longleftrightarrow> 0 \<le> n \<and> n < 536870912"

definition scaled_ok :: "int res \<Rightarrow> bool" where
  "scaled_ok q = (case q of Inl e \<Rightarrow> \<not> is_panic e | Inr k \<Rightarrow> small_count k)"

definition counts_ok :: "klib \<Rightarrow> int \<Rightarrow> rolling_update \<Rightarrow> bool" where
  "counts_ok lib n ru \<longleftrightarrow> scaled_ok (lib_scaled lib (ru_max_surge ru) n True) \<and>
     scaled_ok (lib_scaled lib (ru_max_unavailable ru) n False)"

definition strategy_ok :: "klib \<Rightarrow> int \<Rightarrow> rollout_strategy option \<Rightarrow> bool" where
  "strategy_ok lib n strategy = (case strategy of None \<Rightarrow> True
     | Some st \<Rightarrow> (case rs_rolling_update st of None \<Rightarrow> True | Some ru \<Rightarrow> counts_ok lib n ru))"

definition role_ok :: "klib \<Rightarrow> role_spec \<Rightarrow> bool" where
  "role_ok lib r \<longleftrightarrow>
     (case r_replicas r of None \<Rightarrow> False | Some n \<Rightarrow> small_count n \<and> strategy_ok lib n (r_rollout_strategy r)) \<and>
     (workload_string (r_workload r) = LeaderWorkerSetWorkloadType \<longrightarrow> lt_size (r_leader_worker_set r) \<noteq> None)"

definition group_ok :: "klib \<Rightarrow> rbg \<Rightarrow> bool" where
  "group_ok lib g \<longleftrightarrow> list_all (role_ok lib) (g_roles g)"

text \<open>A StatefulSet keeps at least the replicas its size annotation names: it is not scaled below its
  role from outside.\<close>

definition served_sts :: "statefulset \<Rightarrow> bool" where
  "served_sts x \<longleftrightarrow> (case ss_replicas x of None \<Rightarrow> False
      | Some m \<Rightarrow> small_count m \<and> (case parse_role_size x of Inl e \<Rightarrow> True | Inr n \<Rightarrow> n \<le> m)) \<and>
     ss_selector x \<noteq> None \<and> (case sts_partition x of Inl e \<Rightarrow> False | Inr p \<Rightarrow> True)"

fun object_ok :: "klib \<Rightarrow> obj \<Rightarrow> bool" where
  "object_ok lib (ObjRbg g) = group_ok lib g"
| "object_ok lib (ObjRbgSet st) = (gss_replicas (set_spec st) \<noteq> None)"
| "object_ok lib (ObjAdapter a) = (as_scale_target_ref (ad_spec a) \<noteq> None)"
| "object_ok lib (ObjSts x) = served_sts x"
| "object_ok lib (ObjDeploy x) = (dp_replicas x \<noteq> None \<and> dp_selector x \<noteq> None)"
| "object_ok lib (ObjLws x) = (lw_leader_template x \<noteq> None \<and> lw_size x \<noteq> None)"
| "object_ok lib (ObjPod p) =
     (case atoi (sm_get (om_labels (pd_meta p)) ''apps.kubernetes.io/pod-index'') of None \<Rightarrow> True | Some i \<Rightarrow> 0 \<le> i)"
| "object_ok lib _ = True"

text \<open>A server that answers gets and lists with such objects only.\<close>

definition serves :: "(obj \<Rightarrow> bool) \<Rightarrow> 'w client \<Rightarrow> bool" where
  "serves P c \<longleftrightarrow> (\<forall>k key w ob. fst (cl_get c k key w) = Inr ob \<longrightarrow> P ob) \<and>
     (\<forall>k ns m w obs. fst (cl_list c k ns m w) = Inr obs \<longrightarrow> list_all P obs)"

definition not_panic :: "'a res \<Rightarrow> bool" where
  "not_panic q = (case q of Inl e \<Rightarrow> \<not> is_panic e | Inr x \<Rightarrow> True)"

text \<open>The library functions return their errors; the converter keeps the templates and the size of a
  LeaderWorkerSet; an absolute number is scaled to itself.\<close>

definition lib_ok :: "klib \<Rightarrow> bool" where
  "lib_ok lib \<longleftrightarrow> (\<forall>v n up. lib_scaled lib (IntVal v) n up = Inr v) \<and>
     (\<forall>ob. not_panic (lib_convert lib ob)) \<and> (\<forall>t. not_panic (lib_convert_template lib t)) \<and>
     (\<forall>t p. not_panic (lib_merge_patch lib t p)) \<and> (\<forall>m. not_panic (lib_selector lib m)) \<and>
     (\<forall>cfg. not_panic (lib_yaml lib cfg)) \<and>
     (\<forall>x y. object_ok lib (ObjLws x) \<longrightarrow> lib_convert lib (ObjLws x) = Inr (ObjLws y) \<longrightarrow> object_ok lib (ObjLws y))"

section \<open>Actions that do not panic\<close>

definition no_panic :: "('w, 'a) act \<Rightarrow> bool" where
  "no_panic m \<longleftrightarrow> (\<forall>s. not_panic (fst (m s)))"

lemma not_panic_simps [simp]: "not_panic (Inr x)" "not_panic (Inl e) \<longleftrightarrow> \<not> is_panic e"
  by (simp_all add: not_panic_def)

lemma scaled_ok_not_panic: "scaled_ok q \<Longrightarrow> not_panic q"
  by (cases q) (simp_all add: scaled_ok_def)

lemma scaled_ok_small: "scaled_ok q \<Longrightarrow> q = Inr k \<Longrightarrow> small_count k"
  by (simp add: scaled_ok_def)

lemma no_panicD: "no_panic m \<Longrightarrow> m s = (q, t) \<Longrightarrow> not_panic q"
  unfolding no_panic_def by (metis fst_conv)

lemma no_panic_run: "no_panic m \<Longrightarrow> not_panic (fst (m s))"
  by (simp add: no_panic_def)

lemma no_panic_return [simp, intro]:
  "no_panic (return_ok x)" "\<not> is_panic e \<Longrightarrow> no_panic (return_err e)" "not_panic q \<Longrightarrow> no_panic (of_res q)"
  by (simp_all add: no_panic_def return_ok_def return_err_def of_res_def)

lemma no_panic_call:
  assumes "no_panic m" and "\<And>x s t. m s = (Inr x, t) \<Longrightarrow> no_panic (f x)"
  shows "no_panic (call m f)"
  unfolding no_panic_def
proof
  fix s
  obtain q t where m: "m s = (q, t)" by fastforce
  then show "not_panic (fst (call m f s))"
    using assms(2) [of s _ t] no_panicD [OF assms(1) m]
    by (cases q) (auto simp: call_def no_panic_def)
qed

lemma no_panic_handle:
  assumes "no_panic m" and "\<And>q s t. m s = (q, t) \<Longrightarrow> not_panic q \<Longrightarrow> no_panic (f q)"
  shows "no_panic (handle m f)"
  unfolding no_panic_def
proof
  fix s
  obtain q t where m: "m s = (q, t)" by fastforce
  then show "not_panic (fst (handle m f s))"
    using assms(2) [OF m] no_panicD [OF assms(1) m]
    by (cases q) (auto simp: handle_def no_panic_def)
qed

lemma no_panic_if: "(b \<Longrightarrow> no_panic m) \<Longrightarrow> (\<not> b \<Longrightarrow> no_panic n) \<Longrightarrow> no_panic (if b then m else n)"
  by simp

lemma no_panic_sum:
  "(\<And>e. q = Inl e \<Longrightarrow> no_panic (f e)) \<Longrightarrow> (\<And>x. q = Inr x \<Longrightarrow> no_panic (g x)) \<Longrightarrow> no_panic (case q of Inl e \<Rightarrow> f e | Inr x \<Rightarrow> g x)"
  by (cases q) simp_all

lemma no_panic_option:
  "(q = None \<Longrightarrow> no_panic m) \<Longrightarrow> (\<And>x. q = Some x \<Longrightarrow> no_panic (g x)) \<Longrightarrow> no_panic (case q of None \<Rightarrow> m | Some x \<Rightarrow> g x)"
  by (cases q) simp_all

lemma no_panic_prod: "(\<And>x y. q = (x, y) \<Longrightarrow> no_panic (f x y)) \<Longrightarrow> no_panic (case q of (x, y) \<Rightarrow> f x y)"
  by (cases q) simp

lemma no_panic_for_each: "(\<And>x. x \<in> set xs \<Longrightarrow> no_panic (f x)) \<Longrightarrow> no_panic (for_each f xs)"
proof (induction xs)
  case (Cons x xs)
  then show ?case by (simp, intro no_panic_call) simp_all
qed simp

lemma no_panic_wrap_err:
  assumes "no_panic m" and "\<And>e. \<not> is_panic (f e)"
  shows "no_panic (wrap_err f m)"
  unfolding wrap_err_def by (intro no_panic_handle assms(1) no_panic_sum no_panic_return assms(2))

lemma not_panic_answers [simp]:
  "not_panic (lift_api a)" "not_panic (map_sum id f q) \<longleftrightarrow> not_panic q" "not_panic (decode sel b)"
  "not_panic (decode_list sel obs)"
  subgoal by (cases a) simp_all
  subgoal by (cases q) simp_all
  subgoal by (simp add: decode_def split: sum.split option.split)
  subgoal by (simp add: decode_list_def)
  done

lemma no_panic_client [simp, intro]:
  "no_panic (do_get c k sel key)" "no_panic (do_list c k sel ns m)" "no_panic (do_create c ob)"
  "no_panic (do_update c sel2 ob)" "no_panic (do_delete c ob)" "no_panic (do_apply c p)"
  "no_panic (do_apply_status c p)" "no_panic (record_event n e)" "no_panic (time_now c)"
  by (auto simp: no_panic_def do_get_def do_list_def do_create_def do_update_def do_delete_def do_apply_def
      do_apply_status_def record_event_def time_now_def split: prod.splits sum.splits)

lemma no_panic_patch [simp, intro]: "no_panic (patch_object_apply_configuration c (Inr p) ty)"
  unfolding patch_object_apply_configuration_def call_of_res
  by (intro no_panic_call no_panic_if no_panic_client no_panic_return)

lemma no_panic_get_if_exists [simp, intro]: "no_panic (get_if_exists c k sel key)"
  unfolding get_if_exists_def by (intro no_panic_handle no_panic_client no_panic_sum no_panic_if no_panic_return) auto

lemma no_panic_convert:
  assumes "lib_ok lib"
  shows "no_panic (convert_to lib sel ob)"
proof -
  have "not_panic (lib_convert lib ob)" using assms by (simp add: lib_ok_def)
  then show ?thesis
    unfolding convert_to_def by (intro no_panic_return) (auto split: sum.splits option.splits)
qed

lemma not_panic_loop:
  assumes "\<And>x u. x \<in> set xs \<Longrightarrow> not_panic (f x u)"
  shows "not_panic (loop f xs s)"
  using assms
proof (induction xs arbitrary: s)
  case (Cons x xs)
  then have "not_panic (f x s)" by simp
  with Cons show ?case by (cases "f x s") auto
qed simp

text \<open>What a get found is an object the server serves.\<close>

lemma get_served:
  assumes "serves P c" and "do_get c k sel key s = (Inr x, t)"
  obtains ob where "P ob" and "sel ob = Some x"
proof -
  from assms(2) obtain ob where "fst (cl_get c k key (world s)) = Inr ob" "sel ob = Some x"
    by (auto simp: do_get_def decode_def split: prod.splits sum.splits option.splits)
  with assms(1) that show ?thesis unfolding serves_def by blast
qed

lemma get_if_exists_served:
  assumes "serves P c" and "get_if_exists c k sel key s = (Inr (Some x), t)"
  obtains ob where "P ob" and "sel ob = Some x"
proof -
  from assms(2) have "do_get c k sel key s = (Inr x, t)"
    by (auto simp: get_if_exists_def handle_def split: prod.splits sum.splits if_splits)
  from get_served [OF assms(1) this] that show ?thesis by blast
qed

lemma list_served:
  assumes "serves P c" and "do_list c k sel ns m s = (Inr xs, t)" and "x \<in> set xs"
  obtains ob where "P ob" and "sel ob = Some x"
proof -
  from assms(2) obtain obs where obs: "fst (cl_list c k ns m (world s)) = Inr obs" "decode_list sel obs = Inr xs"
    by (auto simp: do_list_def split: prod.splits sum.splits)
  then have "list_all P obs" using assms(1) unfolding serves_def by blast
  moreover from obs(2) assms(3) obtain ob where "ob \<in> set obs" "sel ob = Some x"
    by (force simp: decode_list_def list_all_iff split: if_splits)
  ultimately show ?thesis using that by (auto simp: list_all_iff)
qed


section \<open>The parts of a reconcile\<close>

lemma role_okD:
  assumes "role_ok lib r"
  obtains n where "r_replicas r = Some n" and "small_count n" and "strategy_ok lib n (r_rollout_strategy r)"
  using assms by (auto simp: role_ok_def split: option.splits)

lemma group_role_ok: "group_ok lib g \<Longrightarrow> r \<in> set (g_roles g) \<Longrightarrow> role_ok lib r"
  by (simp add: group_ok_def list_all_iff)

lemma not_panic_build_config:
  assumes "lib_ok lib" and "group_ok lib g"
  shows "not_panic (build_config lib g)"
proof -
  have step: "not_panic (roles_info_step g r m)" if "r \<in> set (g_roles g)" for r m
    by (rule role_okD [OF group_role_ok [OF assms(2) that]])
      (simp add: roles_info_step_def build_instances_def small_count_def)
  have "not_panic (build_roles_info g)"
    unfolding build_roles_info_def by (rule not_panic_loop) (rule step)
  then show ?thesis using assms(1) by (auto simp: build_config_def lib_ok_def split: sum.split)
qed

lemma no_panic_inject_config: "lib_ok lib \<Longrightarrow> group_ok lib g \<Longrightarrow> no_panic (inject_config lib c g r t)"
  unfolding inject_config_def Let_def
  by (intro no_panic_call no_panic_return not_panic_build_config no_panic_convert no_panic_get_if_exists no_panic_if
      no_panic_patch)

lemma no_panic_inject_runtimes: "no_panic (inject_runtimes c rts t)"
proof (induction rts arbitrary: t)
  case (Cons rt rts)
  show ?case
    unfolding inject_runtimes.simps inject_runtime_def
    by (intro no_panic_call no_panic_wrap_err no_panic_client no_panic_return Cons.IH) simp_all
qed simp

lemma not_panic_get_role: "not_panic (get_role g name)"
  by (simp add: get_role_def split: option.split)

lemma no_panic_template:
  assumes "lib_ok lib" and "group_ok lib g"
  shows "no_panic (construct_pod_template lib c injs g r labels tmpl)"
proof -
  have "not_panic (lib_convert_template lib t)" for t using assms(1) by (simp add: lib_ok_def)
  then show ?thesis
    unfolding construct_pod_template_def Let_def inject_sidecar_def
    by (intro no_panic_call no_panic_if no_panic_wrap_err no_panic_return no_panic_inject_config assms
        no_panic_inject_runtimes not_panic_get_role) simp_all
qed

lemma no_panic_map: "no_panic (call m (\<lambda>(x, l). return_ok x)) \<Longrightarrow> no_panic m"
  unfolding no_panic_def not_panic_def using call_pair_error by (fastforce split: sum.splits)

lemma no_panic_template_on:
  assumes "lib_ok lib" and "group_ok lib g"
  shows "no_panic (construct_pod_template_on lib c injs g r labels tmpl)"
  by (rule no_panic_map) (simp add: construct_pod_template_on_fst no_panic_template [OF assms])

lemma not_panic_annotations: "role_ok lib r \<Longrightarrow> not_panic (get_common_annotations g r)"
  by (erule role_okD) (simp add: get_common_annotations_def)

lemma not_panic_replicas: "role_ok lib r \<Longrightarrow> not_panic (deref (r_replicas r))"
  by (erule role_okD) simp

subsection \<open>Deployments\<close>

lemma no_panic_construct_deployment:
  assumes "lib_ok lib" and "group_ok lib g" and "role_ok lib r" and "om_uid (dp_meta old) \<noteq> [] \<Longrightarrow> dp_selector old \<noteq> None"
  shows "no_panic (construct_deployment lib c g r old)"
  unfolding construct_deployment_def
  by (intro no_panic_call no_panic_return no_panic_template assms(1-3) not_panic_annotations [OF assms(3)]
      not_panic_replicas [OF assms(3)]) (use assms(4) in \<open>auto split: sum.split option.splits\<close>)

lemma deployment_served:
  assumes "serves (object_ok lib) c" and "do_get c KDeploy as_deployment key s = (Inr x, t)"
  shows "dp_replicas x \<noteq> None \<and> dp_selector x \<noteq> None"
proof -
  from assms obtain ob where "object_ok lib ob" "as_deployment ob = Some x" by (rule get_served)
  then show ?thesis by (cases ob) (auto simp: as_deployment_def)
qed

lemma no_panic_deployment:
  assumes "lib_ok lib" and "group_ok lib g" and "role_ok lib r" and "serves (object_ok lib) c"
  shows "no_panic (reconcile_deployment lib c g r)"
  unfolding reconcile_deployment_def Let_def
proof (intro no_panic_call no_panic_get_if_exists no_panic_if no_panic_return no_panic_patch no_panic_convert assms(1)
    no_panic_construct_deployment assms(2,3))
  fix found s t
  assume get: "get_if_exists c KDeploy as_deployment (workload_key g r) s = (Inr found, t)"
    and "om_uid (dp_meta (case found of None \<Rightarrow> zero_deployment | Some x \<Rightarrow> x)) \<noteq> []"
  then obtain x where x: "found = Some x" by (cases found) (simp_all add: zero_deployment_def empty_meta_def)
  from get_if_exists_served [OF assms(4) get [unfolded x]] obtain ob where "object_ok lib ob" "as_deployment ob = Some x" .
  then show "dp_selector (case found of None \<Rightarrow> zero_deployment | Some x \<Rightarrow> x) \<noteq> None"
    using x by (cases ob) (auto simp: as_deployment_def)
qed


text \<open>The five operations of a reconciler, for the roles it is chosen for.\<close>

definition ops_safe :: "klib \<Rightarrow> 'w workload_ops \<Rightarrow> (role_spec \<Rightarrow> bool) \<Rightarrow> bool" where
  "ops_safe lib ops P \<longleftrightarrow> (\<forall>g r. group_ok lib g \<longrightarrow> role_ok lib r \<longrightarrow> P r \<longrightarrow> no_panic (wo_reconcile ops g r)) \<and>
     (\<forall>g r. no_panic (wo_role_status ops g r)) \<and> (\<forall>g r. no_panic (wo_ready ops g r)) \<and>
     (\<forall>g. no_panic (wo_cleanup ops g)) \<and> (\<forall>g r. no_panic (wo_recreate ops g r))"

lemma no_panic_delete_orphans: "no_panic (delete_orphans lib c g k meta_of to_obj xs)"
  unfolding delete_orphans_def
  by (intro no_panic_for_each no_panic_if no_panic_return no_panic_wrap_err no_panic_client) simp

lemma no_panic_delete_if_exists: "no_panic (delete_if_exists c ob)"
  unfolding delete_if_exists_def
  by (intro no_panic_handle no_panic_client no_panic_sum no_panic_if no_panic_return) auto

lemma no_panic_wait_created: "no_panic (wait_created c k sel key n)"
proof (induction n)
  case 0
  show ?case
    unfolding wait_created.simps by (intro no_panic_handle no_panic_client no_panic_sum no_panic_return) auto
next
  case (Suc n)
  show ?case
    unfolding wait_created.simps
    by (intro no_panic_handle no_panic_client no_panic_sum no_panic_return no_panic_if Suc.IH) auto
qed

lemmas no_panic_intros = no_panic_call no_panic_handle no_panic_client no_panic_sum no_panic_option no_panic_if
  no_panic_return no_panic_patch no_panic_get_if_exists no_panic_delete_orphans no_panic_delete_if_exists
  no_panic_wait_created

lemma deployment_safe:
  assumes "lib_ok lib" and "serves (object_ok lib) c"
  shows "ops_safe lib (deployment_ops lib c attempts) P"
proof -
  have set: "not_panic (deref (dp_replicas x))" if "do_get c KDeploy as_deployment key s = (Inr x, t)" for x key s t
    using deployment_served [OF assms(2) that] by (cases "dp_replicas x") simp_all
  show ?thesis
    unfolding ops_safe_def deployment_ops_def workload_ops.select_convs deployment_role_status_def deployment_ready_def
      deployment_cleanup_def deployment_recreate_def
    by (intro conjI allI impI no_panic_deployment assms no_panic_intros set)
qed

subsection \<open>StatefulSets\<close>

lemma served_stsD:
  assumes "served_sts x"
  obtains m part where "ss_replicas x = Some m" and "small_count m" and "\<And>n. parse_role_size x = Inr n \<Longrightarrow> n \<le> m"
    and "ss_selector x \<noteq> None" and "sts_partition x = Inr part"
  using assms by (auto simp: served_sts_def split: option.splits sum.splits)

lemma sts_served:
  assumes "serves (object_ok lib) c" and "do_get c KSts as_sts key s = (Inr x, t)"
  shows "served_sts x"
proof -
  from assms obtain ob where "object_ok lib ob" "as_sts ob = Some x" by (rule get_served)
  then show ?thesis by (cases ob) (auto simp: as_sts_def)
qed

lemma sts_found_served:
  assumes "serves (object_ok lib) c" and "get_if_exists c KSts as_sts key s = (Inr (Some x), t)"
  shows "served_sts x"
proof -
  from assms obtain ob where "object_ok lib ob" "as_sts ob = Some x" by (rule get_if_exists_served)
  then show ?thesis by (cases ob) (auto simp: as_sts_def)
qed

lemma no_panic_replica_states:
  assumes "lib_ok lib" and "serves (object_ok lib) c" and "served_sts x"
  shows "no_panic (get_replica_states lib c x)"
proof -
  from assms(3) obtain m part where m: "ss_replicas x = Some m" "small_count m" by (rule served_stsD)
  have place: "not_panic (loop (place_pod n) pods ps)"
    if "do_list c KPod as_pod ns sel s = (Inr pods, t)" for n ns sel s pods t ps
  proof (rule not_panic_loop)
    fix p u assume "p \<in> set pods"
    from list_served [OF assms(2) that this] obtain ob where "object_ok lib ob" "as_pod ob = Some p" .
    then have "case atoi (sm_get (om_labels (pd_meta p)) ''apps.kubernetes.io/pod-index'') of None \<Rightarrow> True | Some i \<Rightarrow> 0 \<le> i"
      by (cases ob) (auto simp: as_pod_def)
    then show "not_panic (place_pod n p u)" by (auto simp: place_pod_def split: option.splits)
  qed
  have sel: "not_panic (lib_selector lib l)" for l using assms(1) by (simp add: lib_ok_def)
  have pos: "\<not> m < 0" using m(2) by (simp add: small_count_def)
  show ?thesis
    unfolding get_replica_states_def get_sts_highest_revision_def list_revisions_def m(1) deref.simps call_of_res
    by (intro no_panic_intros place sel) (simp_all add: pos)
qed

text \<open>The one index that is not guarded: it stays inside the slice when the StatefulSet has at least the
  role's replicas.\<close>

lemma not_panic_partition:
  assumes "small_count n" and "small_count m" and "n \<le> m" and "int (length states) = m"
    and "small_count surge" and "small_count unavailable"
  shows "not_panic (rolling_update_partition states m
     (i32 (unavailable + (capped_surge n surge - (burst_replicas n (capped_surge n surge) - m)))) part)"
proof -
  have "unavailable + (capped_surge n surge - (burst_replicas n (capped_surge n surge) - m)) = unavailable + m - n"
    using burst_replicas_eq [of n surge] assms by (simp add: capped_surge_min small_count_def)
  moreover have "i32 (unavailable + m - n) = unavailable + m - n"
    using assms by (auto simp: in_i32_def small_count_def)
  ultimately have step: "i32 (unavailable + (capped_surge n surge - (burst_replicas n (capped_surge n surge) - m)))
      = unavailable + m - n" by metis
  have "rolling_step_partition states m (unavailable + m - n) \<le> m"
    using rolling_step_partition_eq [of m states "unavailable + m - n"] continuous_ready_bounds(1) [of states] assms
    by (simp add: small_count_def)
  with rolling_update_partition_spec [of states "unavailable + m - n" part] assms show ?thesis
    unfolding step by (auto simp: small_count_def)
qed

lemma no_panic_parameters:
  assumes "lib_ok lib" and "serves (object_ok lib) c"
    and "role_rolling_update r = Inr ru" and "r_replicas r = Some n" and "small_count n" and "counts_ok lib n ru"
    and "om_uid (ss_meta x) \<noteq> [] \<Longrightarrow> served_sts x"
  shows "no_panic (rolling_update_parameters lib c r x upd)"
proof (cases "om_uid (ss_meta x) = []")
  case True
  then show ?thesis by (simp add: rolling_update_parameters_def assms(4))
next
  case False
  then obtain m part where m: "ss_replicas x = Some m" "small_count m"
    and size: "\<And>n. parse_role_size x = Inr n \<Longrightarrow> n \<le> m" and part: "sts_partition x = Inr part"
    using assms(7) served_stsD by metis
  have states: "int (length states) = m" if "get_replica_states lib c x s = (Inr states, t)" for states s t
    using get_replica_states_length [OF that] m(1) by simp
  have parse: "not_panic (parse_role_size x)" by (simp add: parse_role_size_def Let_def split: option.split)
  have scaled: "scaled_ok (lib_scaled lib (ru_max_surge ru) n True)" "scaled_ok (lib_scaled lib (ru_max_unavailable ru) n False)"
    using assms(6) by (simp_all add: counts_ok_def)
  have created: "(om_uid (ss_meta x) = []) = False" using False by simp
  show ?thesis
    unfolding rolling_update_parameters_def assms(3,4) m(1) part deref.simps call_of_res Let_def created if_False
  proof (intro no_panic_if no_panic_call no_panic_return no_panic_replica_states assms(1,2) parse not_panic_partition
      assms(5) m(2) scaled [THEN scaled_ok_not_panic])
    show "served_sts x" by (rule assms(7) [OF False])
  qed (use size states scaled in \<open>auto dest: scaled_ok_small\<close>)
qed

text \<open>The strategy that validation lets through.\<close>

lemma validated_strategy:
  assumes "lib_ok lib" and "strategy_ok lib n strategy"
  shows "not_panic (validate_rollout_strategy lib strategy n)"
    and "validate_rollout_strategy lib strategy n = Inr st \<Longrightarrow> \<exists>ru. rs_rolling_update st = Some ru \<and> counts_ok lib n ru"
proof -
  have scaled: "lib_scaled lib (IntVal v) n up = Inr v" for v up using assms(1) by (simp add: lib_ok_def)
  have default: "counts_ok lib n \<lparr>ru_max_unavailable = IntVal 1, ru_max_surge = IntVal 0\<rparr>"
    by (simp add: counts_ok_def scaled scaled_ok_def small_count_def)
  show "not_panic (validate_rollout_strategy lib strategy n)"
    using assms(2)
    by (auto simp: validate_rollout_strategy_def strategy_ok_def counts_ok_def scaled_ok_def split: option.splits sum.splits)
  show "\<exists>ru. rs_rolling_update st = Some ru \<and> counts_ok lib n ru" if "validate_rollout_strategy lib strategy n = Inr st"
    using that assms(2) default
    by (auto simp: validate_rollout_strategy_def strategy_ok_def default_rollout_strategy_def
        split: option.splits sum.splits if_splits)
qed

lemma no_panic_construct_sts:
  assumes "lib_ok lib" and "group_ok lib g" and "r_replicas r = Some n" and "om_uid (ss_meta old) \<noteq> [] \<Longrightarrow> ss_selector old \<noteq> None"
  shows "no_panic (construct_sts lib c g r old)"
  unfolding construct_sts_def
  by (intro no_panic_call no_panic_return no_panic_template assms(1-3))
    (use assms(3,4) in \<open>auto simp: match_labels_of_def get_common_annotations_def split: sum.split option.splits\<close>)

lemma not_panic_up_to_date:
  assumes "r_replicas r = Some n" and "equal \<Longrightarrow> served_sts old"
  shows "not_panic (sts_up_to_date equal part old r)"
proof (cases equal)
  case True
  with assms show ?thesis by (auto elim!: served_stsD simp: sts_up_to_date_def)
qed (simp add: sts_up_to_date_def)

lemma no_panic_reconcile_sts:
  assumes "lib_ok lib" and "group_ok lib g" and "role_ok lib r" and "serves (object_ok lib) c"
  shows "no_panic (reconcile_sts lib c g r)"
proof -
  from assms(3) obtain n where n: "r_replicas r = Some n" "small_count n" and strategy: "strategy_ok lib n (r_rollout_strategy r)"
    by (rule role_okD)
  have equal_found: "om_uid (ss_meta x) \<noteq> []" if "semantically_equal_sts (Some x) y = Inr ()" for x y
    using that by (simp add: semantically_equal_sts_def split: if_splits)
  have found_ok: "served_sts (case found of None \<Rightarrow> zero_sts | Some x \<Rightarrow> x)"
    if "get_if_exists c KSts as_sts key s = (Inr found, t)" "om_uid (ss_meta (case found of None \<Rightarrow> zero_sts | Some x \<Rightarrow> x)) \<noteq> []"
    for found key s t
    using that sts_found_served [OF assms(4)] by (cases found) (auto simp: zero_sts_def empty_meta_def)
  have selector: "served_sts x \<Longrightarrow> ss_selector x \<noteq> None" for x by (rule served_stsD)
  show ?thesis
  proof (cases "validate_rollout_strategy lib (r_rollout_strategy r) n")
    case (Inl e)
    with validated_strategy(1) [OF assms(1) strategy] show ?thesis by (simp add: reconcile_sts_def n)
  next
    case (Inr st)
    then obtain ru where ru: "rs_rolling_update st = Some ru" "counts_ok lib n ru"
      using validated_strategy(2) [OF assms(1) strategy] by blast
    let ?role = "r\<lparr>r_rollout_strategy := Some st\<rparr>"
    have role: "r_replicas ?role = Some n" "role_rolling_update ?role = Inr ru"
      using n ru by (simp_all add: role_rolling_update_def)
    then have strategy_set: "not_panic (role_rolling_update ?role)" by simp
    show ?thesis
      unfolding reconcile_sts_def n(1) deref.simps call_of_res Inr Let_def
    proof (intro no_panic_call no_panic_get_if_exists no_panic_construct_sts [OF assms(1,2) role(1)] no_panic_convert
        no_panic_return no_panic_patch no_panic_if no_panic_prod assms(1) not_panic_up_to_date [OF role(1)] strategy_set
        no_panic_parameters [OF assms(1,4) role(2,1) n(2) ru(2)])
    qed (use found_ok equal_found selector in blast)+
  qed
qed

lemma no_panic_headless_service:
  assumes "lib_ok lib" and "role_ok lib r"
  shows "no_panic (reconcile_headless_service lib c g r)"
proof -
  have "not_panic (construct_service g r x)" for x
    using not_panic_annotations [OF assms(2), of g] by (cases "get_common_annotations g r") (simp_all add: construct_service_def)
  then show ?thesis
    unfolding reconcile_headless_service_def Let_def
    by (intro no_panic_intros no_panic_wrap_err no_panic_convert assms(1)) simp_all
qed

lemma sts_safe:
  assumes "lib_ok lib" and "serves (object_ok lib) c"
  shows "ops_safe lib (sts_ops lib c attempts) P"
proof -
  have set: "not_panic (deref (ss_replicas x))" if "do_get c KSts as_sts key s = (Inr x, t)" for x key s t
    using sts_served [OF assms(2) that] by (auto elim: served_stsD)
  show ?thesis
    unfolding ops_safe_def sts_ops_def workload_ops.select_convs sts_reconciler_def sts_role_status_def
      sts_workload_ready_def sts_cleanup_def sts_recreate_def
    by (intro conjI allI impI no_panic_reconcile_sts no_panic_headless_service assms no_panic_intros set) auto
qed

subsection \<open>LeaderWorkerSets\<close>

lemma construct_lws_ok:
  assumes "construct_lws lib c g r s = (Inr x, t)"
  shows "object_ok lib (ObjLws x)"
  using assms by (auto simp: construct_lws_def call_eq_Inr_iff Let_def split: prod.splits)

lemma no_panic_construct_lws:
  assumes "lib_ok lib" and "group_ok lib g" and "role_ok lib r" and "lt_size (r_leader_worker_set r) \<noteq> None"
  shows "no_panic (construct_lws lib c g r)"
proof -
  have patch: "not_panic (patch_pod_template lib t p)" for t p
    using assms(1) by (simp add: patch_pod_template_def lib_ok_def split: option.split)
  obtain n where n: "r_replicas r = Some n" using assms(3) by (rule role_okD)
  show ?thesis
    unfolding construct_lws_def Let_def case_prod_beta
    by (intro no_panic_call no_panic_return no_panic_template no_panic_template_on assms(1,2) patch)
      (use assms(4) in \<open>auto simp: n get_common_annotations_def\<close>)
qed

lemma not_panic_check [simp]: "not_panic (check b msg)"
  by (simp add: check_def)

lemma not_panic_and_then: "not_panic q \<Longrightarrow> not_panic p \<Longrightarrow> not_panic (and_then q p)"
  by (cases q) (simp_all add: and_then_def)

lemma not_panic_wrap [simp]: "not_panic (wrap msg q) \<longleftrightarrow> not_panic q"
  by (cases "(msg, q)" rule: wrap.cases) simp_all

lemma not_panic_each_pair: "(\<And>x y. not_panic (f x y)) \<Longrightarrow> not_panic (each_pair f xs ys)"
  unfolding each_pair_def by (rule not_panic_loop) (auto split: prod.split)

lemma not_panic_template_equal: "not_panic (pod_template_spec_equal t1 t2)"
proof -
  have env: "not_panic (env_vars_equal e1 e2)" for e1 e2
    unfolding env_vars_equal_def Let_def by (intro not_panic_and_then not_panic_each_pair) simp_all
  have mounts: "not_panic (volume_mounts_equal m1 m2)" for m1 m2
    unfolding volume_mounts_equal_def by (intro not_panic_and_then not_panic_each_pair) simp_all
  have container: "not_panic (container_equal c1 c2)" for c1 c2
    unfolding container_equal_def by (intro not_panic_and_then) (simp_all add: env mounts)
  have volumes: "not_panic (volumes_equal v1 v2)" for v1 v2
    unfolding volumes_equal_def by (intro not_panic_and_then not_panic_each_pair) simp_all
  have "not_panic (pod_spec_equal s1 s2)" for s1 s2
    unfolding pod_spec_equal_def by (intro not_panic_and_then not_panic_each_pair) (simp_all add: container volumes)
  moreover have "not_panic (object_meta_equal m1 m2)" for m1 m2
    unfolding object_meta_equal_def by (intro not_panic_and_then) simp_all
  ultimately show ?thesis unfolding pod_template_spec_equal_def by (intro not_panic_and_then) simp_all
qed

lemma not_panic_equal_lws:
  assumes "om_uid (lw_meta x) \<noteq> [] \<Longrightarrow> object_ok lib (ObjLws x)" and "object_ok lib (ObjLws y)"
  shows "not_panic (semantically_equal_lws (Some x) (Some y))"
proof (cases "om_uid (lw_meta x) = []")
  case False
  with assms obtain t1 n1 t2 n2 where "lw_leader_template x = Some t1" "lw_size x = Some n1"
    "lw_leader_template y = Some t2" "lw_size y = Some n2" by auto
  then have "not_panic (leader_worker_template_equal x y)"
    by (auto simp: leader_worker_template_equal_def intro!: not_panic_and_then not_panic_template_equal)
  then have "not_panic (lws_spec_equal x y)"
    unfolding lws_spec_equal_def by (intro not_panic_and_then) simp_all
  moreover have "not_panic (object_meta_equal m1 m2)" for m1 m2
    unfolding object_meta_equal_def by (intro not_panic_and_then) simp_all
  ultimately show ?thesis
    using False by (auto simp: semantically_equal_lws_def intro!: not_panic_and_then)
qed (simp add: semantically_equal_lws_def)

lemma no_panic_reconcile_lws:
  assumes "lib_ok lib" and "group_ok lib g" and "role_ok lib r" and "lt_size (r_leader_worker_set r) \<noteq> None"
    and "serves (object_ok lib) c"
  shows "no_panic (reconcile_lws lib c g r)"
proof -
  have new: "object_ok lib (ObjLws y)"
    if "construct_lws lib c g r s = (Inr x, t)" "convert_to lib as_lws (ObjLws x) s' = (Inr y, t')" for x y s t s' t'
  proof -
    from that(2) have "lib_convert lib (ObjLws x) = Inr (ObjLws y)"
      by (auto simp: convert_to_def as_lws_def split: sum.splits option.splits obj.splits)
    with assms(1) construct_lws_ok [OF that(1)] show ?thesis unfolding lib_ok_def by blast
  qed
  have old: "object_ok lib (ObjLws (case found of None \<Rightarrow> zero_lws | Some x \<Rightarrow> x))"
    if get: "get_if_exists c KLws as_lws key s = (Inr found, t)"
      and created: "om_uid (lw_meta (case found of None \<Rightarrow> zero_lws | Some x \<Rightarrow> x)) \<noteq> []" for found key s t
  proof -
    from created obtain x where x: "found = Some x" by (cases found) (simp_all add: zero_lws_def empty_meta_def)
    from get_if_exists_served [OF assms(5) get [unfolded x]] obtain ob where "object_ok lib ob" "as_lws ob = Some x" .
    with x show ?thesis by (cases ob) (auto simp: as_lws_def)
  qed
  show ?thesis
    unfolding reconcile_lws_def Let_def
  proof (intro no_panic_call no_panic_construct_lws no_panic_convert no_panic_get_if_exists no_panic_sum no_panic_return
      no_panic_if no_panic_patch assms(1-4))
    fix x s t y s' t' found s'' t'' e
    assume cfg: "construct_lws lib c g r s = (Inr x, t)" and conv: "convert_to lib as_lws (ObjLws x) s' = (Inr y, t')"
      and get: "get_if_exists c KLws as_lws (workload_key g r) s'' = (Inr found, t'')"
      and cmp: "semantically_equal_lws (Some (case found of None \<Rightarrow> zero_lws | Some x \<Rightarrow> x)) (Some y) = Inl e"
    have "not_panic (semantically_equal_lws (Some (case found of None \<Rightarrow> zero_lws | Some x \<Rightarrow> x)) (Some y))"
      by (rule not_panic_equal_lws [OF _ new [OF cfg conv]]) (rule old [OF get])
    then show "\<not> is_panic e" unfolding cmp by simp
  qed
qed

lemma no_panic_check_crd: "no_panic (check_crd_exists c name)"
  unfolding check_crd_exists_def by (intro no_panic_intros) simp

lemma lws_safe:
  assumes "lib_ok lib" and "serves (object_ok lib) c"
  shows "ops_safe lib (lws_ops lib c attempts) (\<lambda>r. lt_size (r_leader_worker_set r) \<noteq> None)"
  unfolding ops_safe_def lws_ops_def workload_ops.select_convs lws_role_status_def lws_ready_def lws_cleanup_def
    lws_recreate_def
  by (intro conjI allI impI no_panic_reconcile_lws assms no_panic_intros no_panic_check_crd) auto


section \<open>The handlers\<close>

subsection \<open>The group controller\<close>

lemma dispatch_safe:
  assumes "lib_ok lib" and "serves (object_ok lib) c" and "new_workload_reconciler lib c attempts w = Inr ops"
  shows "ops_safe lib ops (\<lambda>r. r_workload r = w)"
proof -
  have weaken: "ops_safe lib ops' Q" if "ops_safe lib ops' P" "\<And>r. role_ok lib r \<Longrightarrow> Q r \<Longrightarrow> P r" for ops' P Q
    using that unfolding ops_safe_def by blast
  from assms(3) consider "ops = deployment_ops lib c attempts" | "ops = sts_ops lib c attempts"
    | "ops = lws_ops lib c attempts" "workload_string w = LeaderWorkerSetWorkloadType"
    by (auto simp: new_workload_reconciler_def split: if_splits)
  then show ?thesis
    by cases (auto simp: role_ok_def intro: weaken [OF deployment_safe [OF assms(1,2)]] weaken [OF sts_safe [OF assms(1,2)]]
        weaken [OF lws_safe [OF assms(1,2)]])
qed

lemma not_panic_dispatch: "not_panic (new_workload_reconciler lib c attempts w)"
  by (simp add: new_workload_reconciler_def)

lemma not_panic_sort_roles: "not_panic (sort_roles g)"
  using sort_roles_Inl [of g] by (cases "sort_roles g") auto

lemma no_panic_on_error: "no_panic m \<Longrightarrow> no_panic (on_error g reason m)"
  unfolding on_error_def by (intro no_panic_intros) auto

lemma no_panic_dependencies:
  assumes "lib_ok lib" and "serves (object_ok lib) c"
  shows "no_panic (dependencies_ready lib c attempts g ds)"
proof (induction ds)
  case (Cons d ds)
  have ready: "no_panic (wo_ready ops g r)" if "of_res (new_workload_reconciler lib c attempts w) s = (Inr ops, t)"
    for ops r w and s t :: "'a sys"
    using dispatch_safe [OF assms] that by (auto simp: ops_safe_def)
  show ?case
    unfolding dependencies_ready.simps
    by (intro no_panic_call no_panic_return not_panic_get_role not_panic_dispatch no_panic_if Cons.IH ready)
qed simp

lemma no_panic_adapter_of_role: "no_panic (reconcile_scaling_adapter c g r)"
  unfolding reconcile_scaling_adapter_def by (intro no_panic_intros) auto

lemma no_panic_role:
  assumes "lib_ok lib" and "serves (object_ok lib) c" and "group_ok lib g" and "role_ok lib r"
  shows "no_panic (reconcile_role lib c attempts g r)"
proof -
  have ops: "no_panic (wo_reconcile ops g r)" "no_panic (wo_role_status ops g r)"
    if "on_error g e (of_res (new_workload_reconciler lib c attempts (r_workload r))) s = (Inr ops, t)"
    for ops e and s t :: "'a sys"
    using dispatch_safe [OF assms(1,2), of attempts "r_workload r" ops] that assms(3,4) by (auto simp: ops_safe_def)
  show ?thesis
    unfolding reconcile_role_def construct_role_status_def
    by (intro no_panic_call no_panic_on_error no_panic_return not_panic_dispatch ops no_panic_adapter_of_role
        no_panic_handle no_panic_sum no_panic_if no_panic_client) auto
qed

lemma no_panic_watch: "no_panic (is_watched n)" "no_panic (store_watched n)" "no_panic (dynamic_watch_custom_crd k)"
  by (auto simp: no_panic_def is_watched_def store_watched_def dynamic_watch_custom_crd_def call_def return_ok_def)

lemma no_panic_roles:
  assumes "lib_ok lib" and "serves (object_ok lib) c" and "group_ok lib g"
  shows "list_all (role_ok lib) rs \<Longrightarrow> no_panic (reconcile_roles lib c attempts g rs upd sts)"
proof (induction rs arbitrary: upd sts)
  case (Cons r rs)
  then have r: "role_ok lib r" and rs: "list_all (role_ok lib) rs" by simp_all
  show ?case
    unfolding reconcile_roles.simps check_dependency_ready_def
    by (intro no_panic_call no_panic_watch no_panic_on_error no_panic_dependencies assms no_panic_if no_panic_return
        no_panic_role r no_panic_prod Cons.IH rs)
qed simp

lemma not_panic_group_size:
  assumes "group_ok lib g"
  shows "not_panic (get_group_size g)"
  unfolding get_group_size_def
proof (rule not_panic_loop)
  fix r u assume "r \<in> set (g_roles g)"
  with assms have r: "role_ok lib r" by (rule group_role_ok)
  then obtain n where n: "r_replicas r = Some n" by (rule role_okD)
  show "not_panic (group_size_step r u)"
    using r by (cases "lt_size (r_leader_worker_set r)") (simp_all add: group_size_step_def n role_ok_def)
qed

lemma no_panic_pod_group:
  assumes "group_ok lib g"
  shows "no_panic (reconcile_pod_group c retries g)"
proof (cases "enable_gang_scheduling g")
  case True
  have size: "not_panic (min_member g)"
    using not_panic_group_size [OF assms] by (auto simp: min_member_def split: sum.split)
  moreover have "not_panic (schedule_timeout g)"
    using True by (auto simp: schedule_timeout_def enable_gang_scheduling_def split: option.splits)
  ultimately have pg: "not_panic (construct_pod_group g)" by (auto simp: construct_pod_group_def split: sum.split)
  have upd: "no_panic (update_min_member c g)"
    unfolding update_min_member_def by (intro no_panic_intros size)
  have "no_panic (retry_on_conflict n (update_min_member c g))" for n
  proof (induction n)
    case (Suc n)
    show ?case unfolding retry_on_conflict.simps by (intro no_panic_intros upd Suc.IH) auto
  qed (simp add: upd)
  with True show ?thesis
    unfolding reconcile_pod_group_def create_or_update_pod_group_def by (auto intro!: no_panic_intros pg size)
next
  case False
  then show ?thesis
    unfolding reconcile_pod_group_def delete_pod_group_def by (auto intro!: no_panic_intros)
qed


lemma no_panic_delete_roles:
  assumes "lib_ok lib" and "serves (object_ok lib) c"
  shows "no_panic (delete_roles lib c g)"
proof -
  have collect: "no_panic (collect_error m errs)" if "no_panic m" for m :: "('a, unit) act" and errs
    unfolding collect_error_def by (intro no_panic_handle that no_panic_sum no_panic_return)
  have dep: "no_panic (deployment_cleanup lib c g)" and sts: "no_panic (sts_cleanup lib c g)" and lws: "no_panic (lws_cleanup lib c g)"
    using deployment_safe [OF assms, of undefined "\<lambda>_. True"] sts_safe [OF assms, of undefined "\<lambda>_. True"]
      lws_safe [OF assms, of undefined]
    by (simp_all add: ops_safe_def deployment_ops_def sts_ops_def lws_ops_def)
  have adapters: "no_panic (cleanup_orphaned_scaling_adapters c g)"
    unfolding cleanup_orphaned_scaling_adapters_def
    by (intro no_panic_call no_panic_client no_panic_for_each no_panic_if no_panic_wrap_err no_panic_return) simp
  show ?thesis
    unfolding delete_roles_def by (intro no_panic_call collect dep sts lws adapters no_panic_if no_panic_return) simp
qed

lemma no_panic_watch_pod_groups: "no_panic (watch_pod_groups rd g)"
  unfolding watch_pod_groups_def
  by (intro no_panic_call no_panic_watch no_panic_if no_panic_handle no_panic_check_crd no_panic_sum no_panic_return)

lemma no_panic_status: "no_panic (update_rbg_status c g sts)"
  unfolding update_rbg_status_def patch_group_status_def by (intro no_panic_intros)

lemma no_panic_group:
  assumes "lib_ok lib" and "serves (object_ok lib) c"
  shows "no_panic (reconcile_group lib c rd attempts retries key)"
proof -
  have sorted: "no_panic (reconcile_sorted lib c rd attempts retries g rs)"
    if "group_ok lib g" "list_all (role_ok lib) rs" for g rs
    unfolding reconcile_sorted_def
    by (intro no_panic_call no_panic_watch_pod_groups no_panic_if no_panic_on_error no_panic_pod_group [OF that(1)] no_panic_roles
        no_panic_option no_panic_prod no_panic_status no_panic_delete_roles no_panic_return no_panic_client assms that)
  have found: "no_panic (if om_deletion (g_meta g) \<noteq> None then return_ok 0
      else call (on_error g InvalidRoleDependency (of_res (sort_roles g))) (\<lambda>sorted_roles.
        reconcile_sorted lib c rd attempts retries g sorted_roles))" if g: "group_ok lib g" for g
  proof (intro no_panic_if no_panic_call no_panic_on_error no_panic_return not_panic_sort_roles sorted g)
    fix rs and s t :: "'a sys"
    assume "on_error g InvalidRoleDependency (of_res (sort_roles g)) s = (Inr rs, t)"
    then have "sort_roles g = Inr rs" by simp
    from sort_roles_Inr(2) [OF this] g show "list_all (role_ok lib) rs"
      by (auto simp: group_ok_def list_all_iff)
  qed
  have served: "group_ok lib g" if "do_get c KRbg as_rbg key s = (Inr g, t)" for g s t
  proof -
    from get_served [OF assms(2) that] obtain ob where "object_ok lib ob" "as_rbg ob = Some g" .
    then show ?thesis by (cases ob) (auto simp: as_rbg_def)
  qed
  show ?thesis
    unfolding reconcile_group_def
  proof (rule no_panic_handle)
    fix q and s t :: "'a sys"
    assume get: "do_get c KRbg as_rbg key s = (q, t)" and "not_panic q"
    then show "no_panic (case q of Inl e \<Rightarrow> call (record_event [] FailedGetRBG) (\<lambda>_. if is_not_found e then return_ok 0 else return_err e)
     | Inr g \<Rightarrow> if om_deletion (g_meta g) \<noteq> None then return_ok 0
         else call (on_error g InvalidRoleDependency (of_res (sort_roles g))) (\<lambda>sorted_roles.
           reconcile_sorted lib c rd attempts retries g sorted_roles))"
      using found served by (cases q) (auto intro!: no_panic_call no_panic_client)
  qed simp
qed

subsection \<open>The other controllers\<close>

lemma no_panic_pod_reconcile:
  assumes "lib_ok lib" and "serves (object_ok lib) c"
  shows "no_panic (pod_reconcile lib c attempts key)"
proof -
  have condition: "no_panic (set_restart_condition c g b)" for g b
    unfolding set_restart_condition_def Let_def patch_group_status_def by (intro no_panic_intros)
  have recreate: "no_panic (recreate_role lib c attempts g r)" for g r
    unfolding recreate_role_def
  proof (intro no_panic_call no_panic_return not_panic_dispatch)
    fix ops and s t :: "'a sys"
    assume "of_res (new_workload_reconciler lib c attempts (r_workload r)) s = (Inr ops, t)"
    then show "no_panic (wo_recreate ops g r)" using dispatch_safe [OF assms] by (auto simp: ops_safe_def)
  qed
  show ?thesis
    unfolding pod_reconcile_def ignore_not_found_def restart_rbg_def
    by (intro no_panic_handle no_panic_client no_panic_sum no_panic_if no_panic_call no_panic_return condition
        not_panic_sort_roles no_panic_for_each recreate) simp
qed

lemma no_panic_update_replicas: "no_panic (update_role_replicas c retries g name n)"
proof (induction retries arbitrary: g)
  case 0
  show ?case unfolding update_role_replicas.simps by (intro no_panic_intros) auto
next
  case (Suc retries)
  show ?case unfolding update_role_replicas.simps by (intro no_panic_intros Suc.IH) auto
qed

lemma no_panic_adapter:
  assumes "serves (object_ok lib) c"
  shows "no_panic (reconcile_adapter lib c retries key)"
proof -
  have selector: "not_panic (selector_gvk lib w)" for w
    by (auto simp: selector_gvk_def Let_def split: option.split)
  have bound: "no_panic (reconcile_bound_adapter lib c retries a g r name)" for a g r name
    unfolding reconcile_bound_adapter_def bind_adapter_def scale_role_def patch_adapter_status_def
      update_adapter_owner_reference_def extract_label_selector_default_def
    by (intro no_panic_intros no_panic_update_replicas selector no_panic_prod) (auto split: selector_field.split)
  have unbind: "no_panic (unbind_adapter c a)" for a
    unfolding unbind_adapter_def patch_adapter_status_def by (intro no_panic_intros)
  have ref: "not_panic (deref (as_scale_target_ref (ad_spec a)))" if "do_get c KAdapter as_adapter key s = (Inr a, t)" for a s t
  proof -
    from get_served [OF assms that] obtain ob where "object_ok lib ob" "as_adapter ob = Some a" .
    then show ?thesis by (cases ob) (auto simp: as_adapter_def)
  qed
  show ?thesis
    unfolding reconcile_adapter_def get_target_rbg_from_adapter_def Let_def
    by (intro no_panic_intros no_panic_prod bound unbind ref) auto
qed

lemma no_panic_group_set:
  assumes "serves (object_ok lib) c" and "\<And>m ow. not_panic (set_ref m ow)"
  shows "no_panic (reconcile_group_set set_ref c key)"
proof -
  have create: "no_panic (create_groups set_ref c st n)" for st n
  proof (induction n)
    case (Suc n)
    show ?case
      unfolding create_groups.simps create_rbg_def
      by (intro no_panic_handle no_panic_call no_panic_return assms(2) no_panic_wrap_err no_panic_client Suc.IH) simp
  qed simp
  have set: "not_panic (deref (gss_replicas (set_spec st)))" if "do_get c KRbgSet as_rbg_set key s = (Inr st, t)" for st s t
  proof -
    from get_served [OF assms(1) that] obtain ob where "object_ok lib ob" "as_rbg_set ob = Some st" .
    then show ?thesis by (cases ob) (auto simp: as_rbg_set_def)
  qed
  show ?thesis
    unfolding reconcile_group_set_def ignore_not_found_def
    by (intro no_panic_intros create set) auto
qed


section \<open>Properties\<close>

text \<open>C7: No handler panics: when the library functions return their errors and the server hands out only
  objects as the program relies on them (\<open>object_ok\<close>), no reconcile of a group, no restart of a group,
  no reconcile of a scaling adapter and none of a group set ends in a nil dereference or an index
  out of range, whatever else the server answers.\<close>

theorem handlers_never_panic:
  assumes "lib_ok lib" and "serves (object_ok lib) c" and "\<And>m ow. not_panic (set_ref m ow)"
  shows "not_panic (fst (reconcile_group lib c rd attempts retries key s)) \<and>
    not_panic (fst (pod_reconcile lib c attempts key s)) \<and>
    not_panic (fst (reconcile_adapter lib c retries key s)) \<and>
    not_panic (fst (reconcile_group_set set_ref c key s))"
  by (intro conjI no_panic_run no_panic_group no_panic_pod_reconcile no_panic_adapter [OF assms(2)]
      no_panic_group_set [OF assms(2)] assms)

text \<open>The sample server, hiding the objects that are not as the program relies on them.\<close>

definition checked_client :: "cluster client" where
  "checked_client = store_client\<lparr>
     cl_get := (\<lambda>k key w. cl_get store_client k key (filter (object_ok sample_lib) w)),
     cl_list := (\<lambda>k ns m w. cl_list store_client k ns m (filter (object_ok sample_lib) w))\<rparr>"

lemma checked_client_serves: "serves (object_ok sample_lib) checked_client"
  by (auto simp: serves_def checked_client_def store_client_def list_all_iff find_Some_iff split: option.splits)
    (metis (no_types, lifting) mem_Collect_eq nth_mem set_filter)

lemma sample_lib_ok: "lib_ok sample_lib"
  by (auto simp: lib_ok_def sample_lib_def)

theorem handlers_never_panic_witness:
  "not_panic (fst (reconcile_group sample_lib checked_client store_client 1 1 (''ns'', ''g'') (run_on [ObjRbg two_roles]))) \<and>
   not_panic (fst (reconcile_group_set (\<lambda>_ m. Inr m) checked_client (''ns'', ''s'') (run_on [])))"
  using handlers_never_panic [OF sample_lib_ok checked_client_serves, of "\<lambda>_ m. Inr m"] by simp

section \<open>Objects that panic\<close>

text \<open>A role with a LeaderWorkerSet that leaves \<open>leaderWorkerSet\<close> out, as the schema allows.\<close>

definition lws_role :: role_spec where
  "lws_role = (sample_role ''a'' [] 1)\<lparr>r_workload := \<lparr>ws_api_version = ''leaderworkerset.x-k8s.io/v1'', ws_kind = ''LeaderWorkerSet''\<rparr>\<rparr>"

lemma lws_role_without_size_panics:
  "fst (reconcile_group sample_lib store_client store_client 1 1 (''ns'', ''g'') (run_on [ObjRbg (sample_rbg [lws_role])]))
    = Inl (Panic NilDereference)"
  by code_simp

text \<open>An adapter without \<open>spec\<close>, and a group set without \<open>spec\<close>.\<close>

lemma adapter_without_spec_panics:
  assumes "do_get c KAdapter as_adapter key s = (Inr a, t)" and "om_deletion (ad_meta a) = None"
    and "as_scale_target_ref (ad_spec a) = None"
  shows "reconcile_adapter lib c retries key s = (Inl (Panic NilDereference), t)"
  using assms by (simp add: reconcile_adapter_def handle_def call_def of_res_def)

lemma set_without_spec_panics:
  assumes "do_get c KRbgSet as_rbg_set key s = (Inr st, t)" and "gss_replicas (set_spec st) = None"
    and "do_list c KRbg as_rbg (om_namespace (set_meta st)) (Some [(RoleBasedGroupSetKey, om_name (set_meta st))]) t = (Inr gs, u)"
  shows "reconcile_group_set set_ref c key s = (Inl (Panic NilDereference), u)"
  using assms by (simp add: reconcile_group_set_def handle_def call_def of_res_def)

end
