(* ===== verification/Restart_Protocol.thy ===== *)
theory Restart_Protocol
  imports Pod_Controller
begin

text \<open>
  The restart of a group as a protocol between the pod controller, the group controller and the
  cluster. They share one thing, the status the API server stores. Both controllers work on a copy:
  they read the group, compute for a while and then apply their whole copy of the status, so the
  patch of one can undo the patch of the other.

  \<open>restart_step\<close> interleaves the events of pods and the steps of \<open>PodReconciler.Reconcile\<close> (the group is
  read, marked, its workloads are recreated, the mark is cleared; any of it may fail and be retried)
  with the read and the status patch of a group reconcile and with edits of the group. Whether an event
  asks for a restart is what \<open>pod_to_rbg\<close> answers on the stored group. An event is accepted in every
  phase: while a reconcile runs, the work queue keeps its request until the reconcile is done. The group
  patches of \<open>restart_step\<close> are those computed from a copy whose restart mark is still the stored one.
  \<open>race_step\<close> adds the others, which nothing in the code excludes, and a crash of the manager while a
  restart is under way.

  An apply patch of the status replaces the conditions and the role statuses: the controllers share one
  field manager, and the CRD gives neither list a merge type, so both are atomic. \<open>patched\<close> is that effect
  for the requests of a handler, and \<open>restart_refines_protocol\<close> shows that the handler \<open>restart_rbg\<close>
  takes exactly the steps of the protocol.

  The last part is about runs of the handlers themselves, \<open>pod_to_rbg\<close> and \<open>pod_reconcile\<close> one after the
  other: a restart deletes pods, and the events of these pods restart the group again.
\<close>

section \<open>Steps\<close>

abbreviation restart_marked :: "rbg \<Rightarrow> bool" where
  "restart_marked g \<equiv> restart_condition_true (g_status g)"

definition store_status :: "rbg \<Rightarrow> rbg \<Rightarrow> rbg" where
  "store_status copy g = g\<lparr>g_status := (g_status g)\<lparr>gs_conditions := gs_conditions (g_status copy),
     gs_role_statuses := gs_role_statuses (g_status copy)\<rparr>\<rparr>"

text \<open>What a request of a handler does to the stored group.\<close>

fun patched :: "call \<Rightarrow> rbg \<Rightarrow> rbg" where
  "patched (CApplyStatus (PatchRbgStatus key k v conds sts)) g =
     (if key = (g_namespace g, g_name g)
      then g\<lparr>g_status := (g_status g)\<lparr>gs_conditions := conds, gs_role_statuses := sts\<rparr>\<rparr> else g)"
| "patched q g = g"

text \<open>The event of a pod asks for a restart of the group: \<open>podToRBG\<close> answers with a request for it.\<close>

definition asks_restart :: "pod \<Rightarrow> rbg \<Rightarrow> bool" where
  "asks_restart p g \<longleftrightarrow>
     fst (pod_to_rbg store_client (ObjPod p) (run_on [ObjRbg g])) = Inr [(g_namespace g, g_name g)]"

text \<open>The pod controller on one group. The flag of a running reconcile says that another request is queued.\<close>

datatype pod_phase = PodIdle | PodQueued | PodRead rbg bool | PodMarked rbg bool

primrec enqueued :: "pod_phase \<Rightarrow> pod_phase" where
  "enqueued PodIdle = PodQueued"
| "enqueued PodQueued = PodQueued"
| "enqueued (PodRead g again) = PodRead g True"
| "enqueued (PodMarked h again) = PodMarked h True"

datatype group_phase = GroupIdle | GroupRead rbg

record restart_state =
  stored :: rbg
  pod_at :: pod_phase
  group_at :: group_phase
  failures :: nat         \<comment> \<open>container restarts that asked for a restart of the group\<close>
  restarts :: nat         \<comment> \<open>restarts completed\<close>

inductive restart_step :: "restart_state \<Rightarrow> restart_state \<Rightarrow> bool" where
  pod_event: "asks_restart p (stored s) \<Longrightarrow>
    restart_step s (s\<lparr>pod_at := enqueued (pod_at s),
      failures := (if container_restarted p then Suc (failures s) else failures s)\<rparr>)"
| pod_read: "pod_at s = PodQueued \<Longrightarrow> restart_step s (s\<lparr>pod_at := PodRead (stored s) False\<rparr>)"
| pod_mark: "pod_at s = PodRead g again \<Longrightarrow> h = with_condition (restart_condition False now) g \<Longrightarrow>
    restart_step s (s\<lparr>stored := store_status h (stored s), pod_at := PodMarked h again\<rparr>)"
| pod_retry: "pod_at s = PodRead g again \<or> pod_at s = PodMarked g again \<Longrightarrow> restart_step s (s\<lparr>pod_at := PodQueued\<rparr>)"
| pod_clear: "pod_at s = PodMarked h again \<Longrightarrow> k = with_condition (restart_condition True now) h \<Longrightarrow>
    restart_step s (s\<lparr>stored := store_status k (stored s), pod_at := (if again then PodQueued else PodIdle),
      restarts := Suc (restarts s)\<rparr>)"
| group_read: "group_at s = GroupIdle \<Longrightarrow> restart_step s (s\<lparr>group_at := GroupRead (stored s)\<rparr>)"
| group_patch: "group_at s = GroupRead g \<Longrightarrow> restart_marked g = restart_marked (stored s) \<Longrightarrow>
    restart_step s (s\<lparr>stored := store_status (updated_status sts now g) (stored s), group_at := GroupIdle\<rparr>)"
| group_done: "group_at s = GroupRead g \<Longrightarrow> restart_step s (s\<lparr>group_at := GroupIdle\<rparr>)"
| user_edit: "restart_step s (s\<lparr>stored := (stored s)\<lparr>g_spec := spec, g_meta := meta\<rparr>\<rparr>)"

inductive race_step :: "bool \<Rightarrow> restart_state \<Rightarrow> restart_state \<Rightarrow> bool" for crashes :: bool where
  regular: "restart_step s t \<Longrightarrow> race_step crashes s t"
| stale_patch: "group_at s = GroupRead g \<Longrightarrow>
    race_step crashes s (s\<lparr>stored := store_status (updated_status sts now g) (stored s), group_at := GroupIdle\<rparr>)"
| crash: "crashes \<Longrightarrow> race_step crashes s (s\<lparr>pod_at := PodIdle, group_at := GroupIdle\<rparr>)"

inductive_cases restart_stepE: "restart_step s t"
inductive_cases race_stepE: "race_step crashes s t"

section \<open>Lemmas\<close>

lemma store_status_simps [simp]:
  "restart_marked (store_status copy g) = restart_marked copy" "g_spec (store_status copy g) = g_spec g"
  "g_meta (store_status copy g) = g_meta g"
  by (simp_all add: store_status_def restart_condition_true_def)

lemma marked_updated [simp]: "restart_marked (updated_status sts now g) = restart_marked g"
proof (cases "find (\<lambda>cd. cd_type cd = RoleBasedGroupRestartInProgress) (gs_conditions (g_status g))")
  case None
  then show ?thesis
    by (simp add: restart_condition_true_def updated_status_conditions set_condition_lookup ready_condition_def
        RoleBasedGroupRestartInProgress_def RoleBasedGroupReady_def)
next
  case (Some cd)
  then have "cd_type cd = RoleBasedGroupRestartInProgress" by (auto simp: find_Some_iff)
  then have "refreshed (ready_condition (all_ready sts) now) cd = cd"
    by (simp add: refreshed_def ready_condition_def RoleBasedGroupRestartInProgress_def RoleBasedGroupReady_def)
  with Some show ?thesis
    by (simp add: restart_condition_true_def updated_status_conditions set_condition_lookup)
qed

lemma restart_wanted_unmarked: "restart_wanted p g \<Longrightarrow> \<not> restart_marked g"
  by (simp add: restart_wanted_def)

lemma get_role_spec: "g_spec g = g_spec h \<Longrightarrow> get_role g n = get_role h n"
  by (simp add: get_role_def)

lemma restart_wanted_store:
  "\<not> restart_marked copy \<Longrightarrow> restart_wanted p (store_status copy g) \<longleftrightarrow>
     om_deletion (g_meta g) = None \<and>
     (\<exists>role. get_role g (sm_get (om_labels (pd_meta p)) SetRoleLabelKey) = Inr role \<and>
        r_restart_policy role = RecreateRBGOnPodRestart)"
  by (simp add: restart_wanted_def get_role_spec [of "store_status copy g" g])

text \<open>What \<open>podToRBG\<close> answers does not depend on the server beyond the group it reads.\<close>

lemma asks_restart_iff:
  "asks_restart p g \<longleftrightarrow> g_name g \<noteq> [] \<and> sm_get (om_labels (pd_meta p)) SetNameLabelKey = g_name g \<and>
     om_namespace (pd_meta p) = g_namespace g \<and> (container_restarted p \<or> pod_deleted p) \<and> restart_wanted p g"
proof -
  let ?name = "sm_get (om_labels (pd_meta p)) SetNameLabelKey"
  let ?key = "(om_namespace (pd_meta p), ?name)" and ?s = "run_on [ObjRbg g]"
  have get: "fst (do_get store_client KRbg as_rbg ?key ?s) =
      (if ?key = (g_namespace g, g_name g) then Inr g else Inl (Api NotFound))"
    by (auto simp: do_get_def store_client_def run_on_def obj_key_def decode_def as_rbg_def Let_def)
  show ?thesis
  proof (cases "?key = (g_namespace g, g_name g) \<and> ?name \<noteq> [] \<and> (container_restarted p \<or> pod_deleted p)")
    case True
    with get obtain t where "do_get store_client KRbg as_rbg ?key ?s = (Inr g, t)" by (metis prod.collapse)
    from restart_request [OF this] True show ?thesis by (auto simp: asks_restart_def)
  next
    case False
    with get have "do_get store_client KRbg as_rbg ?key ?s \<noteq> (Inr h, t)
      \<or> ?name = [] \<or> \<not> container_restarted p \<and> \<not> pod_deleted p" for h t
      by (auto simp: prod_eq_iff split: if_splits)
    from restart_request_none [of store_client p ?s, OF this] False show ?thesis by (auto simp: asks_restart_def)
  qed
qed

lemma asks_restart_any:
  assumes "asks_restart p g" and "cl_get c KRbg (g_namespace g, g_name g) (world s) = (Inr (ObjRbg g), w)"
  shows "\<exists>t. pod_to_rbg c (ObjPod p) s = (Inr [(g_namespace g, g_name g)], t) \<and> world t = w"
proof -
  have "do_get c KRbg as_rbg (g_namespace g, g_name g) s =
      (Inr g, log_call (CGet KRbg (g_namespace g, g_name g) (Inr (ObjRbg g))) (s\<lparr>world := w\<rparr>))"
    using assms(2) by (simp add: do_get_def decode_def as_rbg_def)
  with restart_request [of c p s g] assms(1) show ?thesis by (simp add: asks_restart_iff log_call_def)
qed

text \<open>The mark is in the store only while a restart is under way.\<close>

definition mark_inv :: "restart_state \<Rightarrow> bool" where
  "mark_inv s \<longleftrightarrow> (restart_marked (stored s) \<longrightarrow> pod_at s \<noteq> PodIdle) \<and>
     (\<forall>h again. pod_at s = PodMarked h again \<longrightarrow> restart_marked (stored s) \<and> restart_marked h)"

lemma mark_inv_event: "asks_restart p (stored s) \<Longrightarrow> mark_inv s \<Longrightarrow> mark_inv (s\<lparr>pod_at := enqueued (pod_at s), failures := n\<rparr>)"
  by (cases "pod_at s") (auto simp: mark_inv_def asks_restart_iff restart_wanted_def)

lemma mark_inv_step: "restart_step s t \<Longrightarrow> mark_inv s \<Longrightarrow> mark_inv t"
  by (induction rule: restart_step.induct)
    (auto simp: mark_inv_event, auto simp: mark_inv_def restart_flag_set)

text \<open>The mark is stuck: it is stored, nobody works on a restart, and nobody holds a copy without it.\<close>

definition mark_stuck :: "nat \<Rightarrow> restart_state \<Rightarrow> bool" where
  "mark_stuck n s \<longleftrightarrow> restart_marked (stored s) \<and> pod_at s = PodIdle \<and> restarts s = n \<and>
     (\<forall>g. group_at s = GroupRead g \<longrightarrow> restart_marked g)"

lemma mark_stuck_restart_step: "restart_step s t \<Longrightarrow> mark_stuck n s \<Longrightarrow> mark_stuck n t"
  by (induction rule: restart_step.induct) (auto simp: mark_stuck_def asks_restart_iff restart_wanted_def)

lemma mark_stuck_step: "race_step crashes s t \<Longrightarrow> mark_stuck n s \<Longrightarrow> mark_stuck n t"
  by (erule race_stepE) (auto simp: mark_stuck_restart_step, auto simp: mark_stuck_def)

lemma mark_stuck_steps: "(race_step crashes)\<^sup>*\<^sup>* s t \<Longrightarrow> mark_stuck n s \<Longrightarrow> mark_stuck n t"
  by (induction rule: rtranclp_induct) (simp_all add: mark_stuck_step)

section \<open>Properties\<close>

text \<open>C10: While group patches are computed from copies that are up to date on the restart mark, the mark
  is released: whatever the interleaving of events, retries, reads, patches and edits, it is stored
  only while the pod controller works on a restart, and while it is recreating workloads the mark is
  stored and no pod event asks for another restart.\<close>

theorem restart_mark_released:
  assumes "restart_step\<^sup>*\<^sup>* s t" and "pod_at s = PodIdle" and "\<not> restart_marked (stored s)"
  shows "(restart_marked (stored t) \<longrightarrow> pod_at t \<noteq> PodIdle) \<and>
    (\<forall>h again p. pod_at t = PodMarked h again \<longrightarrow> restart_marked (stored t) \<and> \<not> restart_wanted p (stored t) \<and>
       \<not> asks_restart p (stored t))"
proof -
  have "mark_inv s" using assms(2,3) by (simp add: mark_inv_def)
  with assms(1) have "mark_inv t" by (induction rule: rtranclp_induct) (auto intro: mark_inv_step)
  then show ?thesis by (auto simp: mark_inv_def asks_restart_iff dest: restart_wanted_unmarked)
qed

definition idle_state :: "rbg \<Rightarrow> restart_state" where
  "idle_state g = \<lparr>stored = g, pod_at = PodIdle, group_at = GroupIdle, failures = 0, restarts = 0\<rparr>"

theorem restart_mark_released_witness:
  "\<exists>t. restart_step\<^sup>*\<^sup>* (idle_state restart_group \<lparr>pod_at := PodIdle\<rparr>) t \<and> restarts t = 0 \<and>
     (restart_marked (stored t) \<longrightarrow> pod_at t \<noteq> PodIdle)"
proof -
  let ?s = "idle_state restart_group \<lparr>pod_at := PodIdle\<rparr>"
  have step: "restart_step\<^sup>*\<^sup>* ?s (?s\<lparr>group_at := GroupRead (stored ?s)\<rparr>)"
    by (rule r_into_rtranclp, rule group_read) (simp add: idle_state_def)
  have "\<not> restart_marked restart_group" by code_simp
  then have "pod_at ?s = PodIdle" "\<not> restart_marked (stored ?s)" by (simp_all add: idle_state_def)
  from restart_mark_released [OF step this] step show ?thesis
    by (intro exI [of _ "?s\<lparr>group_at := GroupRead (stored ?s)\<rparr>"]) (simp add: idle_state_def)
qed

text \<open>C11: The restart mark can be lost for good: a group reconcile that read the group during a restart and
  patches its status after the restart ended stores the mark again. From then on, whatever happens, even
  when the manager is restarted, the mark stays and no pod event restarts the group any more.\<close>

theorem restart_mark_can_stick:
  assumes "pod_at s = PodIdle" and "group_at s = GroupIdle" and "container_restarted p" and "asks_restart p (stored s)"
  shows "\<exists>t. (race_step False)\<^sup>*\<^sup>* s t \<and> restarts t = Suc (restarts s) \<and> failures t = Suc (failures s) \<and>
    (\<forall>u. (race_step True)\<^sup>*\<^sup>* t u \<longrightarrow>
       restart_marked (stored u) \<and> restarts u = restarts t \<and>
       (\<forall>q. \<not> restart_wanted q (stored u) \<and> \<not> asks_restart q (stored u)))"
proof -
  let ?a = "s\<lparr>pod_at := PodQueued, failures := Suc (failures s)\<rparr>"
  let ?b = "?a\<lparr>pod_at := PodRead (stored ?a) False\<rparr>"
  let ?h = "with_condition (restart_condition False 0) (stored s)"
  let ?c = "?b\<lparr>stored := store_status ?h (stored ?b), pod_at := PodMarked ?h False\<rparr>"
  let ?d = "?c\<lparr>group_at := GroupRead (stored ?c)\<rparr>"
  let ?k = "with_condition (restart_condition True 0) ?h"
  let ?e = "?d\<lparr>stored := store_status ?k (stored ?d), pod_at := PodIdle, restarts := Suc (restarts ?d)\<rparr>"
  let ?t = "?e\<lparr>stored := store_status (updated_status [] 0 (stored ?c)) (stored ?e), group_at := GroupIdle\<rparr>"
  have 1: "restart_step s ?a" using pod_event [OF assms(4)] assms(1,3) by simp
  have 2: "restart_step ?a ?b" by (rule pod_read) simp
  have 3: "restart_step ?b ?c" by (rule pod_mark) simp_all
  have 4: "restart_step ?c ?d" by (rule group_read) (simp add: assms(2))
  have 5: "restart_step ?d ?e" using pod_clear [of ?d ?h False ?k 0] by simp
  have 6: "race_step False ?e ?t" by (rule stale_patch) simp
  note then_step = converse_rtranclp_into_rtranclp [of "race_step False", OF regular]
  have run: "(race_step False)\<^sup>*\<^sup>* s ?t"
    by (rule then_step [OF 1 then_step [OF 2 then_step [OF 3 then_step [OF 4 then_step [OF 5
          r_into_rtranclp [of "race_step False", OF 6]]]]]])
  have stuck: "mark_stuck (Suc (restarts s)) ?t" by (simp add: mark_stuck_def restart_flag_set)
  show ?thesis
  proof (intro exI [of _ ?t] conjI allI impI run)
    fix u assume "(race_step True)\<^sup>*\<^sup>* ?t u"
    from mark_stuck_steps [OF this stuck] have u: "mark_stuck (Suc (restarts s)) u" .
    then show "restart_marked (stored u)" and "restarts u = restarts ?t" by (simp_all add: mark_stuck_def)
    with u show "\<not> restart_wanted q (stored u)" and "\<not> asks_restart q (stored u)" for q
      by (simp_all add: asks_restart_iff restart_wanted_def mark_stuck_def)
  qed simp_all
qed

lemma restarted_pod_asks: "asks_restart restarted_pod restart_group"
  unfolding asks_restart_def by code_simp

theorem restart_mark_can_stick_witness:
  "\<exists>t. (race_step False)\<^sup>*\<^sup>* (idle_state restart_group) t \<and> restarts t = 1 \<and>
     (\<forall>u. (race_step True)\<^sup>*\<^sup>* t u \<longrightarrow> restarts u = 1)"
proof -
  let ?s = "idle_state restart_group"
  have idle: "pod_at ?s = PodIdle" "group_at ?s = GroupIdle" and stored: "stored ?s = restart_group"
    and none: "restarts ?s = 0" by (simp_all add: idle_state_def)
  have failed: "container_restarted restarted_pod" by code_simp
  have asks: "asks_restart restarted_pod (stored ?s)" unfolding stored by (rule restarted_pod_asks)
  from restart_mark_can_stick [OF idle failed asks] obtain t where run: "(race_step False)\<^sup>*\<^sup>* ?s t"
    and one: "restarts t = Suc (restarts ?s)"
    and stuck: "\<forall>u. (race_step True)\<^sup>*\<^sup>* t u \<longrightarrow>
       restart_marked (stored u) \<and> restarts u = restarts t \<and>
       (\<forall>q. \<not> restart_wanted q (stored u) \<and> \<not> asks_restart q (stored u))" by blast
  from one none have t: "restarts t = 1" by simp
  show ?thesis by (intro exI [of _ t] conjI run t allI impI) (simp add: stuck t)
qed

text \<open>The requests between the two patches leave the stored group alone.\<close>

lemma patched_quiet: "list_all (\<lambda>q. \<forall>p. q \<noteq> CApplyStatus p) cs \<Longrightarrow> fold patched cs g = g"
proof (induction cs)
  case (Cons q cs)
  then show ?case by (cases q) simp_all
qed simp

lemma patched_status_patch:
  "g_meta h = g_meta g \<Longrightarrow> patched (status_patch h) g = store_status h g"
  by (simp add: status_patch_def store_status_def)

lemma recreated_segments_quiet:
  assumes "list_all2 (role_recreated g) roles segs"
  shows "list_all (\<lambda>q. \<forall>p. q \<noteq> CApplyStatus p) (concat segs)"
  using assms
  by (induction rule: list_all2_induct) (auto simp: role_recreated_def recreate_call_def list_all_iff)

text \<open>C9: The protocol is what the handler does: when \<open>restartRBG\<close> succeeds on the copy it read, the effect of
  all its requests on the stored group is that of a run of the protocol, from the copy being read to the
  restart being completed and counted.\<close>

theorem restart_refines_protocol:
  assumes "fst (restart_rbg lib c attempts g s) = Inr ()" and "pod_at \<sigma> = PodRead g again" and "g_meta g = g_meta (stored \<sigma>)"
    and "calls s = []"
  shows "\<exists>\<sigma>'. restart_step\<^sup>*\<^sup>* \<sigma> \<sigma>' \<and> pod_at \<sigma>' = (if again then PodQueued else PodIdle) \<and>
    restarts \<sigma>' = Suc (restarts \<sigma>) \<and> group_at \<sigma>' = group_at \<sigma> \<and> failures \<sigma>' = failures \<sigma> \<and>
    stored \<sigma>' = fold patched (calls (snd (restart_rbg lib c attempts g s))) (stored \<sigma>)"
proof -
  obtain t where run: "restart_rbg lib c attempts g s = (Inr (), t)" using assms(1) by (metis prod.collapse)
  from restart_rbg_patches [OF run] obtain now later roles segs where
    trace: "calls t = calls s @ status_patch (with_condition (restart_condition False now) g) # concat segs @
      [status_patch (with_condition (restart_condition True later) (with_condition (restart_condition False now) g))]"
    and segs: "list_all2 (role_recreated g) roles segs" .
  let ?h = "with_condition (restart_condition False now) g"
  let ?k = "with_condition (restart_condition True later) ?h"
  let ?b = "\<sigma>\<lparr>stored := store_status ?h (stored \<sigma>), pod_at := PodMarked ?h again\<rparr>"
  let ?d = "?b\<lparr>stored := store_status ?k (stored ?b), pod_at := (if again then PodQueued else PodIdle),
    restarts := Suc (restarts ?b)\<rparr>"
  have 1: "restart_step \<sigma> ?b" by (rule pod_mark [OF assms(2)]) simp
  have 2: "restart_step ?b ?d" by (rule pod_clear) simp_all
  from converse_rtranclp_into_rtranclp [of restart_step, OF 1 r_into_rtranclp [of restart_step, OF 2]]
  have steps: "restart_step\<^sup>*\<^sup>* \<sigma> ?d" .
  have "fold patched (calls t) (stored \<sigma>) = patched (status_patch ?k) (patched (status_patch ?h) (stored \<sigma>))"
    unfolding trace by (simp add: assms(4) patched_quiet [OF recreated_segments_quiet [OF segs]])
  also have "\<dots> = store_status ?k (store_status ?h (stored \<sigma>))"
    using assms(3) by (simp add: patched_status_patch)
  finally show ?thesis unfolding run snd_conv using steps by (intro exI [of _ ?d]) simp
qed

theorem restart_refines_protocol_witness:
  "\<exists>\<sigma>'. restart_step\<^sup>*\<^sup>* ((idle_state restart_group)\<lparr>pod_at := PodRead restart_group False\<rparr>) \<sigma>' \<and> restarts \<sigma>' = 1"
proof -
  let ?c = "store_client\<lparr>cl_delete := (\<lambda>ob w. (Inr (), w))\<rparr>"
  let ?s = "(idle_state restart_group)\<lparr>pod_at := PodRead restart_group False\<rparr>"
  have ok: "fst (restart_rbg sample_lib ?c 2 restart_group (run_on [ObjSts (sample_sts 1 0 1)])) = Inr ()" by code_simp
  have s: "pod_at ?s = PodRead restart_group False" "g_meta restart_group = g_meta (stored ?s)" "restarts ?s = 0"
    by (simp_all add: idle_state_def)
  have none: "calls (run_on [ObjSts (sample_sts 1 0 1)]) = []" by (simp add: run_on_def)
  from restart_refines_protocol [OF ok s(1,2) none] s(3) show ?thesis by auto
qed

section \<open>Restarts that cause restarts\<close>

text \<open>One restart by the handlers, each started on the world the last one left: the last event of the pod
  \<open>p\<close> passes the watch, \<open>podToRBG\<close> asks for a restart of the group and nothing else, and the reconcile of
  that request succeeds and has deleted a workload.\<close>

fun is_delete :: "call \<Rightarrow> bool" where
  "is_delete (CDelete ob) = True"
| "is_delete _ = False"

definition handler_start :: "'w \<Rightarrow> 'w sys" where
  "handler_start w = \<lparr>world = w, calls = [], watched = []\<rparr>"

definition pod_restart :: "klib \<Rightarrow> 'w client \<Rightarrow> nat \<Rightarrow> nsname \<Rightarrow> pod \<Rightarrow> 'w \<Rightarrow> 'w option" where
  "pod_restart lib c attempts key p w =
     (if \<not> pod_predicate (Delete_Event (Some (ObjPod p))) then None
      else (case pod_to_rbg c (ObjPod p) (handler_start w) of
          (Inl e, u) \<Rightarrow> None
        | (Inr reqs, u) \<Rightarrow>
            if reqs \<noteq> [key] then None
            else (case pod_reconcile lib c attempts key (handler_start (world u)) of
                (Inl e, v) \<Rightarrow> None
              | (Inr _, v) \<Rightarrow> if list_ex is_delete (calls v) then Some (world v) else None)))"

text \<open>A row of such restarts, one for each pod: no container of the pods has restarted, every pod is leaving
  when its event comes, and the next one was not leaving before the restart, so this restart
  deleted it. Nothing happens but the requests of the handlers.\<close>

primrec restart_chain ::
  "klib \<Rightarrow> 'w client \<Rightarrow> nat \<Rightarrow> nsname \<Rightarrow> ('w \<Rightarrow> pod list) \<Rightarrow> pod list \<Rightarrow> 'w \<Rightarrow> bool" where
  "restart_chain lib c attempts key leaving [] w = True"
| "restart_chain lib c attempts key leaving (p # ps) w =
     (\<not> container_restarted p \<and> p \<in> set (leaving w) \<and>
      (case pod_restart lib c attempts key p w of
         None \<Rightarrow> False
       | Some w' \<Rightarrow> (case ps of [] \<Rightarrow> True | q # _ \<Rightarrow> q \<notin> set (leaving w)) \<and>
           restart_chain lib c attempts key leaving ps w'))"

text \<open>A pod of the group that is being deleted, of which no container has restarted.\<close>

definition leaving_pod :: "rbg \<Rightarrow> pod \<Rightarrow> bool" where
  "leaving_pod g p \<longleftrightarrow> om_namespace (pd_meta p) = g_namespace g \<and>
     sm_get (om_labels (pd_meta p)) SetNameLabelKey = g_name g \<and>
     sm_get (om_labels (pd_meta p)) SetRoleLabelKey \<in> r_name ` set (g_roles g) \<and>
     pod_deleted p \<and> \<not> container_restarted p"

text \<open>The server: \<open>stored_group\<close> is the group in the store and \<open>leaving\<close> the pods that are being deleted. Reading the
  group returns it, a status patch is stored, the StatefulSet of a role is read (when it was deleted, the
  group controller has applied it again by then), and deleting it starts the deletion of a pod of the group,
  which carries the labels of its role.\<close>

definition pods_follow_workload :: "'w client \<Rightarrow> ('w \<Rightarrow> rbg) \<Rightarrow> ('w \<Rightarrow> pod list) \<Rightarrow> bool" where
  "pods_follow_workload c stored_group leaving \<longleftrightarrow>
     (\<forall>w. cl_get c KRbg (g_namespace (stored_group w), g_name (stored_group w)) w = (Inr (ObjRbg (stored_group w)), w)) \<and>
     (\<forall>w p. \<exists>w'. cl_apply_status c p w = (Inr (), w') \<and> stored_group w' = patched (CApplyStatus p) (stored_group w) \<and>
        leaving w' = leaving w) \<and>
     (\<forall>w r. r \<in> set (g_roles (stored_group w)) \<longrightarrow>
        (\<exists>x. cl_get c KSts (workload_key (stored_group w) r) w = (Inr (ObjSts x), w) \<and>
           (\<exists>w' p. cl_delete c (ObjSts x) w = (Inr (), w') \<and> stored_group w' = stored_group w \<and>
              leaving w' = p # leaving w \<and> p \<notin> set (leaving w) \<and> leaving_pod (stored_group w) p)))"

text \<open>The group: all roles are StatefulSets whose pods restart the group.\<close>

definition pods_restart_group :: "rbg \<Rightarrow> bool" where
  "pods_restart_group g \<longleftrightarrow> g_name g \<noteq> [] \<and> om_deletion (g_meta g) = None \<and> g_roles g \<noteq> [] \<and>
     unique_role_names g \<and> \<not> isl (sort_roles g) \<and>
     list_all (\<lambda>r. r_name r \<noteq> [] \<and> r_restart_policy r = RecreateRBGOnPodRestart \<and>
       workload_string (r_workload r) = StatefulSetWorkloadType) (g_roles g)"

lemma sort_roles_cong: "g_spec h = g_spec g \<Longrightarrow> sort_roles h = sort_roles g"
  unfolding sort_roles_def by (rule arg_cong)

lemma pods_restart_group_cong:
  "g_spec h = g_spec g \<Longrightarrow> g_meta h = g_meta g \<Longrightarrow> pods_restart_group h = pods_restart_group g"
  using sort_roles_cong [of h g] by (simp add: pods_restart_group_def unique_role_names_def)

lemma leaving_pod_cong: "g_spec h = g_spec g \<Longrightarrow> g_meta h = g_meta g \<Longrightarrow> leaving_pod h = leaving_pod g"
  by (simp add: leaving_pod_def fun_eq_iff)

lemma leaving_pod_asks:
  assumes "pods_restart_group g" and "\<not> restart_marked g" and "leaving_pod g p"
  shows "asks_restart p g"
proof -
  from assms(1,3) obtain r where r: "r \<in> set (g_roles g)" "r_name r = sm_get (om_labels (pd_meta p)) SetRoleLabelKey"
    "r_name r \<noteq> []" by (auto simp: leaving_pod_def pods_restart_group_def list_all_iff)
  then obtain q where q: "find (\<lambda>x. r_name x = r_name r) (g_roles g) = Some q"
    by (cases "find (\<lambda>x. r_name x = r_name r) (g_roles g)") (auto simp: find_None_iff)
  with r(3) have "get_role g (r_name r) = Inr q" by (simp add: get_role_Inr_iff)
  moreover from q have "q \<in> set (g_roles g)" by (auto simp: find_Some_iff)
  ultimately show ?thesis using assms r(2)
    by (auto simp: asks_restart_iff restart_wanted_def leaving_pod_def pods_restart_group_def list_all_iff)
qed

lemma set_restart_condition_stored:
  assumes "pods_follow_workload c stored_group leaving" and "g_meta g = g_meta (stored_group (world s))"
  obtains h t now where "set_restart_condition c g completed s = (Inr h, t)"
    and "h = with_condition (restart_condition completed now) g" and "stored_group (world t) = store_status h (stored_group (world s))"
    and "leaving (world t) = leaving (world s)" and "calls t = calls s @ [status_patch h]"
proof -
  let ?h = "with_condition (restart_condition completed (cl_now c (world s))) g"
  let ?p = "PatchRbgStatus (g_namespace g, g_name g) (g_kind g) (g_api_version g)
     (gs_conditions (g_status ?h)) (gs_role_statuses (g_status ?h))"
  obtain w where w: "cl_apply_status c ?p (world s) = (Inr (), w)"
    and g: "stored_group w = patched (CApplyStatus ?p) (stored_group (world s))" and l: "leaving w = leaving (world s)"
    using assms(1) unfolding pods_follow_workload_def by metis
  have "stored_group w = store_status ?h (stored_group (world s))" using g assms(2) by (simp add: store_status_def)
  moreover have "set_restart_condition c g completed s = (Inr ?h, log_call (CApplyStatus ?p) (s\<lparr>world := w\<rparr>))"
    using w by (simp add: set_restart_condition_def call_def time_now_def patch_group_status_def return_ok_def of_res_def Let_def
        patch_object_apply_configuration_def role_based_group_def do_apply_status_def)
  ultimately show thesis using l
    by (intro that [where h = ?h and t = "log_call (CApplyStatus ?p) (s\<lparr>world := w\<rparr>)" and now = "cl_now c (world s)"])
      (simp_all add: log_call_def status_patch_def)
qed

lemma recreate_role_leaves:
  assumes "pods_follow_workload c stored_group leaving" and "r \<in> set (g_roles (stored_group (world s)))"
    and "workload_string (r_workload r) = StatefulSetWorkloadType" and "g_meta h = g_meta (stored_group (world s))"
  obtains t p cs where "recreate_role lib c attempts h r s = (Inr (), t)" and "stored_group (world t) = stored_group (world s)"
    and "leaving (world t) = p # leaving (world s)" and "p \<notin> set (leaving (world s))"
    and "leaving_pod (stored_group (world s)) p" and "calls t = calls s @ cs" and "list_ex is_delete cs"
proof -
  let ?key = "workload_key (stored_group (world s)) r"
  have key: "workload_key h r = ?key" using assms(4) by (simp add: workload_key_def get_workload_name_def)
  from assms(1,2) obtain x w p where x: "cl_get c KSts ?key (world s) = (Inr (ObjSts x), world s)"
    and del: "cl_delete c (ObjSts x) (world s) = (Inr (), w)" and w: "stored_group w = stored_group (world s)"
      "leaving w = p # leaving (world s)" "p \<notin> set (leaving (world s))" "leaving_pod (stored_group (world s)) p"
    unfolding pods_follow_workload_def by metis
  from assms(1,2) w(1) obtain y where y: "cl_get c KSts ?key w = (Inr (ObjSts y), w)"
    unfolding pods_follow_workload_def by metis
  let ?u = "log_call (CDelete (ObjSts x)) (log_call (CGet KSts ?key (Inr (ObjSts x))) (s\<lparr>world := world s\<rparr>)\<lparr>world := w\<rparr>)"
  let ?t = "log_call (CGet KSts ?key (Inr (ObjSts y))) ?u"
  have seen: "wait_created c KSts as_sts ?key n ?u = (Inr (), ?t)" for n
    using y by (cases n) (simp_all add: handle_def do_get_def decode_def as_sts_def return_ok_def log_call_def)
  have "sts_recreate c attempts h r s = (Inr (), ?t)"
    using x del seen by (simp add: sts_recreate_def key handle_def call_def do_get_def decode_def as_sts_def return_ok_def
        delete_if_exists_def do_delete_def log_call_def)
  moreover have "workload_string (r_workload r) \<noteq> DeploymentWorkloadType"
    using assms(3) by (simp add: StatefulSetWorkloadType_def DeploymentWorkloadType_def)
  ultimately have "recreate_role lib c attempts h r s = (Inr (), ?t)"
    using assms(3) by (simp add: recreate_role_def new_workload_reconciler_def call_def of_res_def sts_ops_def)
  with w show thesis
    by (intro that [where t = ?t and p = p and cs = "[CGet KSts ?key (Inr (ObjSts x)), CDelete (ObjSts x), CGet KSts ?key (Inr (ObjSts y))]"])
      (simp_all add: log_call_def)
qed

lemma recreate_roles_leave:
  assumes "pods_follow_workload c stored_group leaving" and "set rs \<subseteq> set (g_roles (stored_group (world s)))"
    and "\<And>r. r \<in> set rs \<Longrightarrow> workload_string (r_workload r) = StatefulSetWorkloadType"
    and "g_meta h = g_meta (stored_group (world s))"
  shows "\<exists>t cs. for_each (recreate_role lib c attempts h) rs s = (Inr (), t) \<and> stored_group (world t) = stored_group (world s) \<and>
    set (leaving (world s)) \<subseteq> set (leaving (world t)) \<and> calls t = calls s @ cs \<and>
    (rs \<noteq> [] \<longrightarrow> list_ex is_delete cs \<and>
      (\<exists>p. p \<in> set (leaving (world t)) \<and> p \<notin> set (leaving (world s)) \<and> leaving_pod (stored_group (world s)) p))"
  using assms(2-4)
proof (induction rs arbitrary: s)
  case Nil
  then show ?case by (simp add: return_ok_def)
next
  case (Cons r rs)
  have "r \<in> set (g_roles (stored_group (world s)))" and "workload_string (r_workload r) = StatefulSetWorkloadType"
    using Cons.prems(1,2) by simp_all
  from recreate_role_leaves [OF assms(1) this Cons.prems(3)] obtain u p cs where u: "recreate_role lib c attempts h r s = (Inr (), u)"
    "stored_group (world u) = stored_group (world s)" "leaving (world u) = p # leaving (world s)" "p \<notin> set (leaving (world s))"
    "leaving_pod (stored_group (world s)) p" "calls u = calls s @ cs" "list_ex is_delete cs" .
  have "\<exists>t ds. for_each (recreate_role lib c attempts h) rs u = (Inr (), t) \<and> stored_group (world t) = stored_group (world u) \<and>
    set (leaving (world u)) \<subseteq> set (leaving (world t)) \<and> calls t = calls u @ ds \<and>
    (rs \<noteq> [] \<longrightarrow> list_ex is_delete ds \<and>
      (\<exists>p. p \<in> set (leaving (world t)) \<and> p \<notin> set (leaving (world u)) \<and> leaving_pod (stored_group (world u)) p))"
    using Cons.prems u(2) by (intro Cons.IH) simp_all
  then obtain t ds where t: "for_each (recreate_role lib c attempts h) rs u = (Inr (), t)"
    "stored_group (world t) = stored_group (world u)" "set (leaving (world u)) \<subseteq> set (leaving (world t))" "calls t = calls u @ ds"
    by blast
  from u(1) t(1) have run: "for_each (recreate_role lib c attempts h) (r # rs) s = (Inr (), t)" by (simp add: call_def)
  from u(3) t(3) have "p \<in> set (leaving (world t))" and "set (leaving (world s)) \<subseteq> set (leaving (world t))" by auto
  with run u t show ?case by (intro exI [of _ t] exI [of _ "cs @ ds"] conjI impI exI [of _ p]) simp_all
qed

text \<open>One restart: it is caused by a leaving pod, it clears its mark, and it makes another pod leave.\<close>

lemma pod_restart_again:
  assumes "pods_follow_workload c stored_group leaving" and "pods_restart_group (stored_group w)" and "\<not> restart_marked (stored_group w)"
    and "leaving_pod (stored_group w) p"
  obtains w' q where "pod_restart lib c attempts (g_namespace (stored_group w), g_name (stored_group w)) p w = Some w'"
    and "g_spec (stored_group w') = g_spec (stored_group w)" and "g_meta (stored_group w') = g_meta (stored_group w)" and "\<not> restart_marked (stored_group w')"
    and "q \<in> set (leaving w')" and "q \<notin> set (leaving w)" and "leaving_pod (stored_group w) q"
proof -
  let ?g = "stored_group w" and ?key = "(g_namespace (stored_group w), g_name (stored_group w))"
  have get: "cl_get c KRbg ?key w = (Inr (ObjRbg ?g), w)" using assms(1) by (simp add: pods_follow_workload_def)
  from leaving_pod_asks [OF assms(2-4)] asks_restart_any [of p ?g c "handler_start w" w] get obtain u
    where asks: "pod_to_rbg c (ObjPod p) (handler_start w) = (Inr [?key], u)" and u: "world u = w"
    by (auto simp: handler_start_def)
  let ?s = "log_call (CGet KRbg ?key (Inr (ObjRbg ?g))) (handler_start w)"
  have read: "do_get c KRbg as_rbg ?key (handler_start w) = (Inr ?g, ?s)"
    using get by (simp add: do_get_def decode_def as_rbg_def handler_start_def)
  have s: "world ?s = w" by (simp add: log_call_def handler_start_def)
  from set_restart_condition_stored [OF assms(1), of ?g ?s False] s obtain h a where
    mark: "set_restart_condition c ?g False ?s = (Inr h, a)" and a: "stored_group (world a) = store_status h ?g"
      "leaving (world a) = leaving w" and h: "g_spec h = g_spec ?g" "g_meta h = g_meta ?g" by (metis with_condition_spec(1,2))
  obtain roles where roles: "sort_roles ?g = Inr roles" using assms(2) by (cases "sort_roles ?g") (auto simp: pods_restart_group_def)
  then have sorted: "sort_roles h = Inr roles" using sort_roles_cong [OF h(1)] by simp
  have set: "set roles = set (g_roles ?g)"
    using sorted_roles.order_set [OF roles] assms(2) by (simp add: pods_restart_group_def)
  have "\<exists>b cs. for_each (recreate_role lib c attempts h) roles a = (Inr (), b) \<and> stored_group (world b) = stored_group (world a) \<and>
    set (leaving (world a)) \<subseteq> set (leaving (world b)) \<and> calls b = calls a @ cs \<and>
    (roles \<noteq> [] \<longrightarrow> list_ex is_delete cs \<and>
      (\<exists>p. p \<in> set (leaving (world b)) \<and> p \<notin> set (leaving (world a)) \<and> leaving_pod (stored_group (world a)) p))"
    using assms(2) set a(1) h by (intro recreate_roles_leave [OF assms(1)]) (auto simp: pods_restart_group_def list_all_iff)
  moreover have "roles \<noteq> []" using set assms(2) by (auto simp: pods_restart_group_def)
  moreover have "leaving_pod (stored_group (world a)) = leaving_pod ?g" using a(1) by (intro leaving_pod_cong) simp_all
  ultimately obtain b cs q where b: "for_each (recreate_role lib c attempts h) roles a = (Inr (), b)"
    "stored_group (world b) = stored_group (world a)" "calls b = calls a @ cs" "list_ex is_delete cs"
    and q: "q \<in> set (leaving (world b))" "q \<notin> set (leaving w)" "leaving_pod ?g q"
    unfolding a(2) by metis
  have "g_meta h = g_meta (stored_group (world b))" using b(2) a(1) h by simp
  from set_restart_condition_stored [OF assms(1) this, of True] obtain k now v where
    clear: "set_restart_condition c h True b = (Inr k, v)" and k: "k = with_condition (restart_condition True now) h"
      "stored_group (world v) = store_status k (stored_group (world b))" "leaving (world v) = leaving (world b)"
      "calls v = calls b @ [status_patch k]" by metis
  have "pod_reconcile lib c attempts ?key (handler_start (world u)) = (Inr (), v)"
    using read mark sorted b(1) clear by (simp add: pod_reconcile_def restart_rbg_def handle_def call_def of_res_def return_ok_def u)
  moreover have "has_set_name p"
    using assms(2,4) by (cases "om_labels (pd_meta p)")
      (auto simp: has_set_name_def leaving_pod_def pods_restart_group_def split: option.splits)
  moreover have "list_ex is_delete (calls v)" using b(3,4) k(4) by simp
  ultimately have "pod_restart lib c attempts ?key p w = Some (world v)"
    using asks by (simp add: pod_restart_def assert_type_def as_pod_def)
  then show thesis using k a b(2) q
    by (intro that [where w' = "world v" and q = q]) (simp_all add: restart_flag_set)
qed

lemma restart_chain_exists:
  assumes "pods_follow_workload c stored_group leaving" and "pods_restart_group (stored_group w)" and "\<not> restart_marked (stored_group w)"
    and "p \<in> set (leaving w)" and "leaving_pod (stored_group w) p"
  shows "\<exists>ps. length ps = n \<and> restart_chain lib c attempts (g_namespace (stored_group w), g_name (stored_group w)) leaving (p # ps) w"
  using assms(2-)
proof (induction n arbitrary: w p)
  case 0
  from pod_restart_again [OF assms(1) 0(1,2,4)] obtain w' where
    "pod_restart lib c attempts (g_namespace (stored_group w), g_name (stored_group w)) p w = Some w'" by metis
  with 0 show ?case by (simp add: leaving_pod_def)
next
  case (Suc n)
  from pod_restart_again [OF assms(1) Suc.prems(1,2,4)] obtain w' q where
    run: "pod_restart lib c attempts (g_namespace (stored_group w), g_name (stored_group w)) p w = Some w'"
    and same: "g_spec (stored_group w') = g_spec (stored_group w)" "g_meta (stored_group w') = g_meta (stored_group w)"
    and next_one: "\<not> restart_marked (stored_group w')" "q \<in> set (leaving w')" "q \<notin> set (leaving w)" "leaving_pod (stored_group w) q" .
  from Suc.IH [of w' q] obtain ps where "length ps = n"
    "restart_chain lib c attempts (g_namespace (stored_group w), g_name (stored_group w)) leaving (q # ps) w'"
    using Suc.prems(1) next_one same pods_restart_group_cong [OF same] leaving_pod_cong [OF same] by auto
  with Suc.prems run next_one show ?case by (intro exI [of _ "q # ps"]) (simp add: leaving_pod_def)
qed

text \<open>C12: One deleted pod can restart its group again and again. Take a server where deleting a workload
  starts the deletion of a pod of it, and a group whose pods restart it. From a state in which one pod of
  the group is being deleted, for every number \<open>n\<close> there is a run of the handlers with \<open>n + 1\<close>
  restarts: the event of the leaving pod makes \<open>podToRBG\<close> request a restart, the reconcile of that request
  marks the group, recreates its workloads, clears the mark and succeeds, and a pod that this
  deleted is the one whose event causes the next restart, because the reconcile waits for the
  workloads and not for the pods. No container of any of these pods has restarted.\<close>

theorem restart_storm:
  assumes "pods_follow_workload c stored_group leaving" and "pods_restart_group (stored_group w)" and "\<not> restart_marked (stored_group w)"
    and "p \<in> set (leaving w)" and "leaving_pod (stored_group w) p"
  shows "\<exists>ps. length ps = n \<and> restart_chain lib c attempts (g_namespace (stored_group w), g_name (stored_group w)) leaving (p # ps) w"
  by (rule restart_chain_exists [OF assms])

text \<open>A cluster that stores a group and counts the workloads that were deleted, with a pod for each.\<close>

definition deleted_pod :: "rbg \<Rightarrow> nat \<Rightarrow> pod" where
  "deleted_pod g k = (sample_pod ''g-a'' 0 ''r1'' ConditionTrue)\<lparr>
     pd_meta := empty_meta\<lparr>om_name := g_name g, om_namespace := g_namespace g, om_uid := replicate k (CHR ''u''),
       om_deletion := Some ''now'',
       om_labels := Some [(SetNameLabelKey, g_name g), (SetRoleLabelKey, r_name (hd (g_roles g)))]\<rparr>\<rparr>"

definition storm_client :: "(rbg \<times> nat) client" where
  "storm_client = \<lparr>
     cl_get = (\<lambda>k key w. (if k = KRbg \<and> key = (g_namespace (fst w), g_name (fst w)) then Inr (ObjRbg (fst w))
        else if k = KSts then Inr (ObjSts (sample_sts 1 0 1)) else Inl NotFound, w)),
     cl_list = (\<lambda>k ns m w. (Inr [], w)),
     cl_create = (\<lambda>ob w. (Inr ob, w)),
     cl_update = (\<lambda>ob w. (Inr ob, w)),
     cl_delete = (\<lambda>ob w. (Inr (), (fst w, Suc (snd w)))),
     cl_apply = (\<lambda>p w. (Inr (), w)),
     cl_apply_status = (\<lambda>p w. (Inr (), (patched (CApplyStatus p) (fst w), snd w))),
     cl_now = (\<lambda>w. 0)\<rparr>"

definition storm_leaving :: "rbg \<times> nat \<Rightarrow> pod list" where
  "storm_leaving w = map (deleted_pod (fst w)) (rev [0..<Suc (snd w)])"

lemma deleted_pod_leaving: "g_roles g \<noteq> [] \<Longrightarrow> leaving_pod g (deleted_pod g k)"
  by (auto simp: leaving_pod_def deleted_pod_def empty_meta_def SetNameLabelKey_def SetRoleLabelKey_def
      pod_deleted_def container_restarted_def sample_pod_def hd_in_set)

lemma storm_client_follows: "pods_follow_workload storm_client fst storm_leaving"
proof -
  have new: "deleted_pod g n \<notin> set (map (deleted_pod g) (rev [0..<n]))" for g n
    by (auto simp: deleted_pod_def dest!: arg_cong [where f = "\<lambda>p. length (om_uid (pd_meta p))"])
  have stored: "deleted_pod (patched (CApplyStatus p) g) = deleted_pod g" for p g
    by (cases p) (simp_all add: deleted_pod_def fun_eq_iff)
  show ?thesis
    unfolding pods_follow_workload_def
  proof (intro conjI allI impI)
    fix w :: "rbg \<times> nat" and p
    show "\<exists>w'. cl_apply_status storm_client p w = (Inr (), w') \<and> fst w' = patched (CApplyStatus p) (fst w) \<and>
        storm_leaving w' = storm_leaving w"
      by (simp add: storm_client_def storm_leaving_def stored)
  next
    fix w :: "rbg \<times> nat" and r assume "r \<in> set (g_roles (fst w))"
    then have "leaving_pod (fst w) (deleted_pod (fst w) (Suc (snd w)))" by (intro deleted_pod_leaving) auto
    with new [of "fst w" "Suc (snd w)"] show "\<exists>x. cl_get storm_client KSts (workload_key (fst w) r) w = (Inr (ObjSts x), w) \<and>
        (\<exists>w' p. cl_delete storm_client (ObjSts x) w = (Inr (), w') \<and> fst w' = fst w \<and>
           storm_leaving w' = p # storm_leaving w \<and> p \<notin> set (storm_leaving w) \<and> leaving_pod (fst w) p)"
      by (simp add: storm_client_def storm_leaving_def)
  qed (simp add: storm_client_def)
qed

theorem restart_storm_witness:
  "\<exists>ps. length ps = 999 \<and>
     restart_chain sample_lib storm_client 3 (''ns'', ''g'') storm_leaving (deleted_pod restart_group 0 # ps) (restart_group, 0)"
proof -
  have ok: "pods_restart_group restart_group" and fresh: "\<not> restart_marked restart_group" and some: "g_roles restart_group \<noteq> []"
    and key: "(g_namespace restart_group, g_name restart_group) = (''ns'', ''g'')" by code_simp+
  have leave: "deleted_pod restart_group 0 \<in> set (storm_leaving (restart_group, 0))" by (simp add: storm_leaving_def)
  from restart_storm [OF storm_client_follows, of "(restart_group, 0)" "deleted_pod restart_group 0" 999 sample_lib 3]
  show ?thesis using ok fresh leave deleted_pod_leaving [OF some, of 0] by (simp add: key)
qed

end
