(* ===== verification/Float64.thy ===== *)
theory Float64
  imports Complex_Main "HOL-Library.Log_Nat"
begin

text \<open>
  The \<open>float64\<close> of Go: IEEE 754 double precision, rounding to nearest, ties to even. A value is the
  rational number it denotes, and each operation rounds its exact result to 53 significant bits. The
  program computes with quotients of 64-bit integers only, so no result is near the ends of the
  exponent range: overflow, subnormal numbers, infinities and NaN are left out, and so is the sign of
  zero, which the conversion to an integer does not see.

  The conversion of a float to an integer truncates. Go leaves the result of a conversion that does
  not fit to the implementation: it is the parameter \<open>arch\<close>.
\<close>

section \<open>Rounding\<close>

text \<open>The exponent \<open>e\<close> with \<open>2 powi e \<le> x < 2 powi (e + 1)\<close>.\<close>

definition binary_exponent :: "rat \<Rightarrow> int" where
  "binary_exponent x = (case quotient_of x of (p, q) \<Rightarrow>
     let e = bitlen p - bitlen q in if 2 powi e \<le> x then e else e - 1)"

definition round_even :: "rat \<Rightarrow> int" where
  "round_even x = (let f = \<lfloor>x\<rfloor>; d = x - of_int f in
     if d < 1 / 2 then f else if 1 / 2 < d then f + 1 else if even f then f else f + 1)"

definition round_pos :: "rat \<Rightarrow> rat" where
  "round_pos x = (let e = binary_exponent x in of_int (round_even (x * 2 powi (52 - e))) * 2 powi (e - 52))"

definition round_rat :: "rat \<Rightarrow> rat" where
  "round_rat x = (if x = 0 then 0 else if x < 0 then - round_pos (- x) else round_pos x)"

section \<open>The type and its operations\<close>

datatype float64 = F64 (val64: rat)

definition float_of_int :: "int \<Rightarrow> float64" where
  "float_of_int n = F64 (round_rat (of_int n))"

instantiation float64 :: "{times, inverse}"
begin

definition times_float64 :: "float64 \<Rightarrow> float64 \<Rightarrow> float64" where
  "times_float64 x y = F64 (round_rat (val64 x * val64 y))"

definition divide_float64 :: "float64 \<Rightarrow> float64 \<Rightarrow> float64" where
  "divide_float64 x y = F64 (round_rat (val64 x / val64 y))"

definition inverse_float64 :: "float64 \<Rightarrow> float64" where
  "inverse_float64 x = F64 (round_rat (1 / val64 x))"

instance ..

end

definition truncate64 :: "float64 \<Rightarrow> int" where
  "truncate64 x = (if 0 \<le> val64 x then \<lfloor>val64 x\<rfloor> else \<lceil>val64 x\<rceil>)"

definition int_of_float :: "(float64 \<Rightarrow> int) \<Rightarrow> float64 \<Rightarrow> int" where
  "int_of_float arch x = (let n = truncate64 x in
     if - 9223372036854775808 \<le> n \<and> n < 9223372036854775808 then n else arch x)"

section \<open>The error of rounding\<close>

lemma binary_exponent_bounds:
  assumes "0 < x"
  shows "2 powi binary_exponent x \<le> x" and "x < 2 powi (binary_exponent x + 1)"
proof -
  obtain p q where pq: "quotient_of x = (p, q)" by fastforce
  then have q: "0 < q" and x: "x = of_int p / of_int q" by (simp_all add: quotient_of_denom_pos quotient_of_div)
  with assms have p: "0 < p" by (simp add: zero_less_divide_iff)
  have bound: "2 powi (bitlen n - 1) \<le> (of_int n :: rat) \<and> (of_int n :: rat) < 2 powi bitlen n" if "0 < n" for n
  proof -
    from bitlen_bounds [OF that] have n: "2 ^ nat (bitlen n - 1) \<le> n" "n < 2 ^ nat (bitlen n)" by simp_all
    have pos: "0 < bitlen n" using that bitlen_eq_zero_iff [of n] bitlen_nonneg [of n] by linarith
    from n have "(of_int (2 ^ nat (bitlen n - 1)) :: rat) \<le> of_int n" "(of_int n :: rat) < of_int (2 ^ nat (bitlen n))"
      by (simp_all only: of_int_le_iff of_int_less_iff)
    with pos show ?thesis by (simp add: power_int_nonneg_exp)
  qed
  let ?e = "bitlen p - bitlen q"
  have "x < 2 powi bitlen p / 2 powi (bitlen q - 1)"
    unfolding x using bound [OF p] bound [OF q] p q by (intro frac_less) simp_all
  also have "\<dots> = 2 powi (?e + 1)" by (simp add: power_int_diff power_int_add)
  finally have upper: "x < 2 powi (?e + 1)" .
  have "2 powi (bitlen p - 1) / 2 powi bitlen q \<le> x"
    unfolding x using bound [OF p] bound [OF q] p q by (intro frac_le) (simp_all add: less_imp_le)
  moreover have "(2::rat) powi (bitlen p - 1) / 2 powi bitlen q = 2 powi (?e - 1)" by (simp add: power_int_diff)
  ultimately have lower: "2 powi (?e - 1) \<le> x" by simp
  have "binary_exponent x = (if 2 powi ?e \<le> x then ?e else ?e - 1)"
    by (simp add: binary_exponent_def pq Let_def)
  with upper lower show "2 powi binary_exponent x \<le> x" and "x < 2 powi (binary_exponent x + 1)" by auto
qed

lemma round_even_error: "\<bar>of_int (round_even x) - x\<bar> \<le> 1 / 2"
proof -
  have "of_int \<lfloor>x\<rfloor> \<le> x" "x < of_int \<lfloor>x\<rfloor> + 1" by linarith+
  then show ?thesis by (auto simp: round_even_def Let_def abs_le_iff)
qed

lemma round_even_of_int [simp]: "round_even (of_int n) = n"
  by (simp add: round_even_def)

text \<open>Rounding is off by at most one part in \<open>2 ^ 53\<close>, and exact on integers of at most 53 bits.\<close>

lemma round_pos_error:
  assumes "0 < x"
  shows "\<bar>round_pos x - x\<bar> \<le> x / 2 ^ 53"
proof -
  let ?e = "binary_exponent x"
  have "round_pos x - x = (of_int (round_even (x * 2 powi (52 - ?e))) - x * 2 powi (52 - ?e)) * 2 powi (?e - 52)"
    by (simp add: round_pos_def Let_def left_diff_distrib mult.assoc flip: power_int_add)
  then have "\<bar>round_pos x - x\<bar> = \<bar>of_int (round_even (x * 2 powi (52 - ?e))) - x * 2 powi (52 - ?e)\<bar> * 2 powi (?e - 52)"
    by (simp add: abs_mult)
  also have "\<dots> \<le> 1 / 2 * 2 powi (?e - 52)" by (intro mult_right_mono round_even_error) simp
  also have "\<dots> = 2 powi ?e / 2 ^ 53" by (simp add: power_int_diff)
  also have "\<dots> \<le> x / 2 ^ 53" using binary_exponent_bounds(1) [OF assms] by (simp add: divide_right_mono)
  finally show ?thesis .
qed

lemma round_pos_exact:
  assumes "0 < n" and "n < 2 ^ 53"
  shows "round_pos (of_int n) = of_int n"
proof -
  let ?e = "binary_exponent (of_int n)"
  have "(2::rat) powi ?e \<le> of_int n" using assms(1) by (intro binary_exponent_bounds) simp
  also have "(of_int n :: rat) < of_int (2 ^ 53)" using assms(2) by (simp only: of_int_less_iff)
  also have "(of_int (2 ^ 53) :: rat) = 2 powi 53" by simp
  finally have less: "(2::rat) powi ?e < 2 powi 53" .
  have "(2::rat) powi 53 \<le> 2 powi ?e" if "53 \<le> ?e" using that by (intro power_int_increasing) simp_all
  with less have e: "0 \<le> 52 - ?e" by (cases "53 \<le> ?e") simp_all
  have "(of_int n :: rat) * 2 powi (52 - ?e) = of_int (n * 2 ^ nat (52 - ?e))"
    using e by (simp add: power_int_nonneg_exp)
  then have "round_pos (of_int n) = of_int n * 2 powi (52 - ?e) * 2 powi (?e - 52)"
    unfolding round_pos_def Let_def by (metis round_even_of_int)
  then show ?thesis by (simp add: mult.assoc flip: power_int_add)
qed

lemma round_rat_exact [simp]:
  assumes "0 \<le> n" and "n < 2 ^ 53"
  shows "round_rat (of_int n) = of_int n"
  using assms round_pos_exact [of n] by (simp add: round_rat_def)

lemma round_rat_bounds:
  assumes "0 \<le> x"
  shows "x * (1 - 1 / 2 ^ 53) \<le> round_rat x" and "round_rat x \<le> x * (1 + 1 / 2 ^ 53)"
proof -
  have "\<bar>round_rat x - x\<bar> \<le> x / 2 ^ 53"
    using assms round_pos_error [of x] by (cases "x = 0") (simp_all add: round_rat_def)
  then have "x - x / 2 ^ 53 \<le> round_rat x" and "round_rat x \<le> x + x / 2 ^ 53" by linarith+
  then show "x * (1 - 1 / 2 ^ 53) \<le> round_rat x" and "round_rat x \<le> x * (1 + 1 / 2 ^ 53)"
    by (simp_all only: right_diff_distrib distrib_left mult_1_right times_divide_eq_right)
qed

lemma round_rat_nonneg: "0 \<le> x \<Longrightarrow> 0 \<le> round_rat x"
  by (rule order_trans [OF _ round_rat_bounds(1)]) simp_all

lemma val64_float_of_int [simp]: "0 \<le> n \<Longrightarrow> n < 2 ^ 53 \<Longrightarrow> val64 (float_of_int n) = of_int n"
  by (simp add: float_of_int_def)

lemma val64_times [simp]: "val64 (x * y) = round_rat (val64 x * val64 y)"
  by (simp add: times_float64_def)

lemma val64_divide [simp]: "val64 (x / y) = round_rat (val64 x / val64 y)"
  by (simp add: divide_float64_def)

lemma int_of_float_floor:
  "0 \<le> val64 x \<Longrightarrow> val64 x < 9223372036854775808 \<Longrightarrow> int_of_float arch x = \<lfloor>val64 x\<rfloor>"
  by (simp add: int_of_float_def truncate64_def Let_def floor_less_iff)

end
