(* ===== verification/Status_Command.thy ===== *)
theory Status_Command
  imports Float64 Api_Types
begin

text \<open>
  The \<open>kubectl rbg-status\<close> command (\<open>cmd/cli/main.go\<close>): it reads one group as an unstructured object,
  takes the role statuses out of it and prints a line with a progress bar per role and the totals.

  The accessors \<open>unstructured.NestedMap\<close> and its siblings, the kubeconfig, the dynamic client, the parser
  of time stamps and \<open>duration.HumanDuration\<close> are parameters. What \<open>fmt.Printf\<close> prints is a string of
  bytes in UTF-8. \<open>None\<close> stands for the panic of \<open>strings.Repeat\<close> with a negative count.
\<close>

section \<open>Unstructured objects\<close>

text \<open>A Go \<open>interface{}\<close> that holds decoded JSON; a map is a list of its entries with distinct keys.\<close>

datatype any =
    AMap "(string \<times> any) list"
  | ASlice "any list"
  | AString string
  | AInt int
  | AOther

type_synonym any_map = "(string \<times> any) list"

record nested_lib =
  nested_map :: "any_map \<Rightarrow> string list \<Rightarrow> string + any_map \<times> bool"
  nested_slice :: "any_map \<Rightarrow> string list \<Rightarrow> string + any list \<times> bool"
  nested_string :: "any_map \<Rightarrow> string list \<Rightarrow> string + string \<times> bool"
  nested_int64 :: "any_map \<Rightarrow> string list \<Rightarrow> string + int \<times> bool"
  object_name :: "any_map \<Rightarrow> string"

datatype status_error =
    KubeconfigError string
  | ClientError string
  | GetError string
  | StatusAccess string
  | StatusMissing
  | RoleStatusesAccess string
  | RoleStatusesMissing
  | ParseError status_error
  | CreationTimeError string

text \<open>\<open>v, found, _ := unstructured.NestedString(m, key)\<close>: with an error \<open>found\<close> is false.\<close>

definition get_string :: "nested_lib \<Rightarrow> any_map \<Rightarrow> string \<Rightarrow> string" where
  "get_string lib m key = (case nested_string lib m [key] of Inr (v, True) \<Rightarrow> v | _ \<Rightarrow> [])"

definition get_int64 :: "nested_lib \<Rightarrow> any_map \<Rightarrow> string \<Rightarrow> int" where
  "get_int64 lib m key = (case nested_int64 lib m [key] of Inr (v, True) \<Rightarrow> v | _ \<Rightarrow> 0)"

fun as_any_map :: "any \<Rightarrow> any_map option" where
  "as_any_map (AMap m) = Some m"
| "as_any_map _ = None"

definition parse_status :: "nested_lib \<Rightarrow> any_map \<Rightarrow> status_error + any_map list" where
  "parse_status lib resource =
     (case nested_map lib resource [''status''] of
        Inl e \<Rightarrow> Inl (StatusAccess e)
      | Inr (status, found) \<Rightarrow>
          if \<not> found then Inl StatusMissing
          else (case nested_slice lib status [''roleStatuses''] of
              Inl e \<Rightarrow> Inl (RoleStatusesAccess e)
            | Inr (role_statuses, found) \<Rightarrow>
                if \<not> found then Inl RoleStatusesMissing
                else Inr (List.map_filter as_any_map role_statuses)))"

section \<open>The report\<close>

definition progress_bar_width :: int where "progress_bar_width = 16"

definition block :: string where "block = [CHR 0xE2, CHR 0x96, CHR 0x88]"

definition repeat_string :: "string \<Rightarrow> int \<Rightarrow> string option" where
  "repeat_string s n = (if n < 0 then None else Some (concat (replicate (nat n) s)))"

definition progress_bar :: "(float64 \<Rightarrow> int) \<Rightarrow> float64 \<Rightarrow> int \<Rightarrow> string option" where
  "progress_bar arch percent width =
     (let cells = int_of_float arch (percent / float_of_int 100 * float_of_int width);
          filled = (if width < cells then width else cells)
      in Option.bind (repeat_string block filled) (\<lambda>full.
         map_option (\<lambda>empty. full @ empty) (repeat_string '' '' (width - filled))))"

definition role_percent :: "int \<Rightarrow> int \<Rightarrow> float64" where
  "role_percent ready replicas =
     (if 0 < replicas then float_of_int ready / float_of_int replicas * float_of_int 100 else float_of_int 0)"

text \<open>\<open>%-12s\<close>: the width counts runes, that is the bytes that do not continue one.\<close>

definition rune_count :: "string \<Rightarrow> nat" where
  "rune_count s = length (filter (\<lambda>c. of_char c < (128::nat) \<or> 192 \<le> (of_char c :: nat)) s)"

definition pad_right :: "nat \<Rightarrow> string \<Rightarrow> string" where
  "pad_right n s = s @ replicate (n - rune_count s) CHR '' ''"

definition role_row :: "(float64 \<Rightarrow> int) \<Rightarrow> string \<Rightarrow> int \<Rightarrow> int \<Rightarrow> string option" where
  "role_row arch name ready replicas =
     (let percent = role_percent ready replicas in
      map_option (\<lambda>bar. pad_right 12 name @ '' '' @ show_int ready @ ''/'' @ show_int replicas @ [CHR 0x09, CHR 0x09] @
          ''(total: '' @ show_int replicas @ '')'' @ [CHR 0x09] @ ''['' @ bar @ ''] '' @
          show_int (int_of_float arch percent) @ ''%'' @ [CHR 0x0A])
        (progress_bar arch percent progress_bar_width))"

text \<open>The loop over the roles: what it printed and the two totals.\<close>

primrec role_rows :: "(float64 \<Rightarrow> int) \<Rightarrow> nested_lib \<Rightarrow> any_map list \<Rightarrow> string \<Rightarrow> int \<Rightarrow> int \<Rightarrow> (string \<times> int \<times> int) option" where
  "role_rows arch lib [] out total_ready total_replicas = Some (out, total_ready, total_replicas)"
| "role_rows arch lib (rs # rss) out total_ready total_replicas =
     (let name = get_string lib rs ''name'';
          ready = get_int64 lib rs ''readyReplicas'';
          replicas = get_int64 lib rs ''replicas''
      in Option.bind (role_row arch name ready replicas) (\<lambda>row.
         role_rows arch lib rss (out @ row) (i64 (total_ready + ready)) (i64 (total_replicas + replicas))))"

definition report_header :: "string \<Rightarrow> string \<Rightarrow> string \<Rightarrow> string" where
  "report_header namespace name age =
     [CHR 0xF0, CHR 0x9F, CHR 0x93, CHR 0x8A] @ '' Resource Overview'' @ [CHR 0x0A] @
     ''  Namespace: '' @ namespace @ [CHR 0x0A] @
     ''  Name:      '' @ name @ [CHR 0x0A, CHR 0x0A] @
     ''  Age:       '' @ age @ [CHR 0x0A, CHR 0x0A] @
     [CHR 0xF0, CHR 0x9F, CHR 0x93, CHR 0xA6] @ '' Role Statuses'' @ [CHR 0x0A]"

definition report_summary :: "int \<Rightarrow> int \<Rightarrow> int \<Rightarrow> string" where
  "report_summary roles total_ready total_replicas =
     [CHR 0x0A, CHR 0xE2, CHR 0x88, CHR 0x91] @ '' Summary: '' @ show_int roles @ '' roles | '' @
     show_int total_ready @ ''/'' @ show_int total_replicas @ '' Ready'' @ [CHR 0x0A]"

definition print_report ::
  "(float64 \<Rightarrow> int) \<Rightarrow> nested_lib \<Rightarrow> string \<Rightarrow> any_map \<Rightarrow> any_map list \<Rightarrow> string \<Rightarrow> string option" where
  "print_report arch lib namespace resource role_statuses age =
     map_option (\<lambda>(rows, total_ready, total_replicas).
         report_header namespace (object_name lib resource) age @ rows @
         report_summary (int (length role_statuses)) total_ready total_replicas)
       (role_rows arch lib role_statuses [] 0 0)"

section \<open>The command\<close>

record 'c status_env =
  se_config :: "string + 'c"
  se_client :: "'c \<Rightarrow> string + (string \<Rightarrow> string \<Rightarrow> string + any_map)"
  se_nested :: nested_lib
  se_parse_time :: "string \<Rightarrow> int option"
  se_human_since :: "int \<Rightarrow> string"
  se_arch :: "float64 \<Rightarrow> int"

definition age_string :: "'c status_env \<Rightarrow> string \<times> bool \<Rightarrow> string" where
  "age_string env stamp =
     (let age = (case stamp of (creation, found) \<Rightarrow>
          if found then (case se_parse_time env creation of Some t \<Rightarrow> se_human_since env t | None \<Rightarrow> []) else [])
      in if age = [] then ''<unknown>'' else age)"

definition run_status :: "'c status_env \<Rightarrow> string \<Rightarrow> string \<Rightarrow> status_error + string option" where
  "run_status env namespace name =
     (case se_config env of
        Inl e \<Rightarrow> Inl (KubeconfigError e)
      | Inr config \<Rightarrow> (case se_client env config of
          Inl e \<Rightarrow> Inl (ClientError e)
        | Inr get \<Rightarrow> (case get namespace name of
            Inl e \<Rightarrow> Inl (GetError e)
          | Inr resource \<Rightarrow> (case parse_status (se_nested env) resource of
              Inl e \<Rightarrow> Inl (ParseError e)
            | Inr role_statuses \<Rightarrow>
                (case nested_string (se_nested env) resource [''metadata'', ''creationTimestamp''] of
                  Inl e \<Rightarrow> Inl (CreationTimeError e)
                | Inr stamp \<Rightarrow> Inr (print_report (se_arch env) (se_nested env) namespace resource role_statuses
                    (age_string env stamp)))))))"

section \<open>The progress bar\<close>

text \<open>Up to four roundings move a value by less than one part in \<open>2 ^ 50\<close>.\<close>

definition near :: "rat \<Rightarrow> rat \<Rightarrow> bool" where
  "near v x \<longleftrightarrow> x * (1 - 1 / 2 ^ 50) \<le> v \<and> v \<le> x * (1 + 1 / 2 ^ 50)"

lemma floor_near:
  assumes "0 \<le> r" and "r \<le> n" and "0 < n" and "n < 2147483648" and "0 \<le> c" and "c \<le> 100"
    and "near v (of_int c * (of_int r / of_int n))"
  shows "c * r div n - 1 \<le> \<lfloor>v\<rfloor>" and "\<lfloor>v\<rfloor> \<le> c * r div n"
proof -
  let ?x = "of_int c * (of_int r / of_int n) :: rat"
  let ?k = "c * r div n"
  have n: "(0::rat) < of_int n" using assms(3) by simp
  have "c * r = n * ?k + c * r mod n" by simp
  moreover have "0 \<le> c * r mod n" "c * r mod n \<le> n - 1" using assms(3) by (simp_all add: zle_diff1_eq)
  ultimately have "n * ?k \<le> c * r" "c * r \<le> n * ?k + (n - 1)" by linarith+
  then have "(of_int (n * ?k) :: rat) \<le> of_int (c * r)" "(of_int (c * r) :: rat) \<le> of_int (n * ?k + (n - 1))"
    by (simp_all only: of_int_le_iff)
  then have lower: "of_int ?k \<le> ?x" and upper: "?x \<le> of_int ?k + 1 - 1 / of_int n"
    using n by (simp_all add: field_simps)
  have "(of_int r / of_int n :: rat) \<le> 1" "0 \<le> (of_int r / of_int n :: rat)" using assms(1-3) by simp_all
  then have "?x \<le> 100 * 1" using assms(5,6) by (intro mult_mono) simp_all
  moreover have "0 \<le> ?x" using assms(1,3,5) by (intro mult_nonneg_nonneg divide_nonneg_pos) simp_all
  moreover have "(1::rat) / 2147483648 < 1 / of_int n" using assms(3,4) by (intro divide_strict_left_mono) simp_all
  moreover have "?x * (1 - 1 / 2 ^ 50) \<le> v" "v \<le> ?x * (1 + 1 / 2 ^ 50)" using assms(7) by (simp_all add: near_def)
  ultimately have "of_int ?k - 1 < v" "v < of_int ?k + 1" using lower upper by (simp_all add: field_simps)
  then show "?k - 1 \<le> \<lfloor>v\<rfloor>" and "\<lfloor>v\<rfloor> \<le> ?k" by linarith+
qed

lemma concat_replicate_single: "concat (replicate n [x]) = replicate n x"
  by (induction n) simp_all

lemma near_chain:
  assumes "0 \<le> x" and "a * x \<le> v" and "v \<le> b * x" and "0 \<le> a" and "0 \<le> c"
  shows "a * (1 - 1 / 2 ^ 53) * (x * c) \<le> round_rat (v * c)" and "round_rat (v * c) \<le> b * (1 + 1 / 2 ^ 53) * (x * c)"
proof -
  have v: "0 \<le> v" using assms by (meson mult_nonneg_nonneg order_trans)
  then have vc: "0 \<le> v * c" using assms(5) by simp
  have scaled: "a * x * c \<le> v * c" "v * c \<le> b * x * c" using assms(2,3,5) by (simp_all add: mult_right_mono)
  have "a * x * c * (1 - 1 / 2 ^ 53) \<le> v * c * (1 - 1 / 2 ^ 53)" by (rule mult_right_mono [OF scaled(1)]) simp
  moreover have "v * c * (1 + 1 / 2 ^ 53) \<le> b * x * c * (1 + 1 / 2 ^ 53)" by (rule mult_right_mono [OF scaled(2)]) simp
  moreover note round_rat_bounds [OF vc]
  ultimately show "a * (1 - 1 / 2 ^ 53) * (x * c) \<le> round_rat (v * c)"
    and "round_rat (v * c) \<le> b * (1 + 1 / 2 ^ 53) * (x * c)" by (simp_all add: mult_ac)
qed

text \<open>The four roundings of a bar: the quotient, the percentage, back to a fraction, the cells.\<close>

lemma percent_near:
  assumes "0 \<le> ready" and "ready \<le> replicas" and "0 < replicas" and "replicas < 2147483648"
  shows "near (val64 (role_percent ready replicas)) (of_int 100 * (of_int ready / of_int replicas))"
    and "near (val64 (role_percent ready replicas / float_of_int 100 * float_of_int 16))
      (of_int 16 * (of_int ready / of_int replicas))"
proof -
  let ?q = "of_int ready / of_int replicas :: rat"
  let ?lo = "1 - 1 / 2 ^ 53 :: rat" and ?hi = "1 + 1 / 2 ^ 53 :: rat"
  have q: "0 \<le> ?q" using assms by simp
  have "val64 (role_percent ready replicas) = round_rat (round_rat (1 * ?q) * 100)"
    using assms by (simp add: role_percent_def)
  have v1: "?lo * ?q \<le> round_rat ?q" "round_rat ?q \<le> ?hi * ?q"
    using round_rat_bounds [OF q] by (simp_all add: mult.commute)
  from near_chain [OF q v1, of 100] have v2: "?lo * ?lo * (?q * 100) \<le> round_rat (round_rat ?q * 100)"
    "round_rat (round_rat ?q * 100) \<le> ?hi * ?hi * (?q * 100)" by simp_all
  have q100: "0 \<le> ?q * 100" and q16: "0 \<le> ?q * 16" by (intro mult_nonneg_nonneg q, simp)+
  from near_chain [OF q100 v2, of "1 / 100"] have v3:
    "?lo * ?lo * ?lo * ?q \<le> round_rat (round_rat (round_rat ?q * 100) / 100)"
    "round_rat (round_rat (round_rat ?q * 100) / 100) \<le> ?hi * ?hi * ?hi * ?q" by simp_all
  from near_chain [OF q v3, of 16] have v4:
    "?lo * ?lo * ?lo * ?lo * (?q * 16) \<le> round_rat (round_rat (round_rat (round_rat ?q * 100) / 100) * 16)"
    "round_rat (round_rat (round_rat (round_rat ?q * 100) / 100) * 16) \<le> ?hi * ?hi * ?hi * ?hi * (?q * 16)" by simp_all
  have percent: "val64 (role_percent ready replicas) = round_rat (round_rat ?q * 100)"
    using assms by (simp add: role_percent_def)
  have lo: "1 - 1 / 2 ^ 50 \<le> ?lo * ?lo" "1 - 1 / 2 ^ 50 \<le> ?lo * ?lo * ?lo * ?lo"
    and hi: "?hi * ?hi \<le> 1 + 1 / 2 ^ 50" "?hi * ?hi * ?hi * ?hi \<le> 1 + 1 / 2 ^ 50" by simp_all
  from mult_right_mono [OF lo(1) q100] mult_right_mono [OF hi(1) q100] v2
  show "near (val64 (role_percent ready replicas)) (of_int 100 * ?q)"
    unfolding percent near_def by (simp add: mult_ac)
  from mult_right_mono [OF lo(2) q16] mult_right_mono [OF hi(2) q16] v4
  show "near (val64 (role_percent ready replicas / float_of_int 100 * float_of_int 16)) (of_int 16 * ?q)"
    using percent unfolding near_def by (simp add: mult_ac)
qed

lemma full_percent:
  assumes "0 < n" and "n < 2147483648"
  shows "val64 (role_percent n n) = 100" and "val64 (role_percent n n / float_of_int 100 * float_of_int 16) = 16"
proof -
  have one: "round_rat 1 = 1" using round_rat_exact [of 1] by simp
  have "round_rat 100 = 100" using round_rat_exact [of 100] by simp
  with one assms show percent: "val64 (role_percent n n) = 100" by (simp add: role_percent_def)
  have "round_rat 16 = 16" using round_rat_exact [of 16] by simp
  with one percent show "val64 (role_percent n n / float_of_int 100 * float_of_int 16) = 16" by simp
qed

text \<open>A conversion of a value near \<open>c * ready / replicas\<close>: at most one below the exact quotient, never
  above it, and \<open>c\<close> only when all replicas are ready.\<close>

lemma int_of_float_near:
  assumes "0 \<le> ready" and "ready \<le> replicas" and "0 < replicas" and "replicas < 2147483648" and "0 \<le> c" and "c \<le> 100"
    and "near (val64 x) (of_int c * (of_int ready / of_int replicas))" and "ready = replicas \<Longrightarrow> val64 x = of_int c"
  shows "int_of_float arch x \<in> {c * ready div replicas - 1, c * ready div replicas}"
    and "0 \<le> int_of_float arch x" and "int_of_float arch x \<le> c" and "0 < c \<Longrightarrow> int_of_float arch x = c \<longleftrightarrow> ready = replicas"
proof -
  note bounds = floor_near [OF assms(1-7)]
  have "(0::rat) \<le> of_int c * (of_int ready / of_int replicas) * (1 - 1 / 2 ^ 50)"
    using assms(1,3,5) by (intro mult_nonneg_nonneg divide_nonneg_pos) simp_all
  then have pos: "0 \<le> val64 x" using assms(7) by (simp add: near_def)
  have "c * ready \<le> c * replicas" using assms(2,5) by (rule mult_left_mono)
  then have top: "c * ready div replicas \<le> c" using assms(3) by (metis nonzero_mult_div_cancel_right order_less_irrefl zdiv_mono1)
  with bounds(2) assms(6) have "val64 x < 9223372036854775808" by linarith
  with pos have conv: "int_of_float arch x = \<lfloor>val64 x\<rfloor>" by (rule int_of_float_floor)
  from bounds show "int_of_float arch x \<in> {c * ready div replicas - 1, c * ready div replicas}" unfolding conv by auto
  from pos show "0 \<le> int_of_float arch x" unfolding conv by simp
  from bounds(2) top show "int_of_float arch x \<le> c" unfolding conv by linarith
  assume c: "0 < c"
  show "int_of_float arch x = c \<longleftrightarrow> ready = replicas"
  proof
    assume "int_of_float arch x = c"
    with bounds(2) have "c \<le> c * ready div replicas" unfolding conv by simp
    then have "c * replicas \<le> c * ready div replicas * replicas" using assms(3) by (intro mult_right_mono) simp_all
    also have "\<dots> \<le> c * ready" using assms(3) by (simp add: minus_mod_eq_div_mult [symmetric])
    finally have "c * replicas \<le> c * ready" .
    with c assms(2) show "ready = replicas" by simp
  qed (use assms(8) in \<open>simp add: conv\<close>)
qed

section \<open>The report of a group\<close>

text \<open>What the documentation says of the accessors for a field that is there and has the right type.\<close>

definition nested_laws :: "nested_lib \<Rightarrow> bool" where
  "nested_laws lib \<longleftrightarrow>
     (\<forall>m k v. map_of m k = Some (AMap v) \<longrightarrow> nested_map lib m [k] = Inr (v, True)) \<and>
     (\<forall>m k v. map_of m k = Some (ASlice v) \<longrightarrow> nested_slice lib m [k] = Inr (v, True)) \<and>
     (\<forall>m k v. map_of m k = Some (AString v) \<longrightarrow> nested_string lib m [k] = Inr (v, True)) \<and>
     (\<forall>m k v. map_of m k = Some (AInt v) \<longrightarrow> nested_int64 lib m [k] = Inr (v, True))"

text \<open>How a role status looks in an unstructured group.\<close>

definition role_fields :: "role_status \<Rightarrow> any_map" where
  "role_fields st = [(''name'', AString (st_name st)), (''readyReplicas'', AInt (st_ready_replicas st)),
     (''replicas'', AInt (st_replicas st))]"

definition counts_ok :: "role_status \<Rightarrow> bool" where
  "counts_ok st \<longleftrightarrow> 0 \<le> st_ready_replicas st \<and> st_ready_replicas st \<le> st_replicas st \<and> st_replicas st < 2147483648"

lemma role_fields_read:
  assumes "nested_laws lib"
  shows "get_string lib (role_fields st) ''name'' = st_name st"
    and "get_int64 lib (role_fields st) ''readyReplicas'' = st_ready_replicas st"
    and "get_int64 lib (role_fields st) ''replicas'' = st_replicas st"
proof -
  have "map_of (role_fields st) ''name'' = Some (AString (st_name st))"
    and "map_of (role_fields st) ''readyReplicas'' = Some (AInt (st_ready_replicas st))"
    and "map_of (role_fields st) ''replicas'' = Some (AInt (st_replicas st))" by (simp_all add: role_fields_def)
  with assms show "get_string lib (role_fields st) ''name'' = st_name st"
    and "get_int64 lib (role_fields st) ''readyReplicas'' = st_ready_replicas st"
    and "get_int64 lib (role_fields st) ''replicas'' = st_replicas st"
    by (simp_all add: nested_laws_def get_string_def get_int64_def)
qed

lemma role_row_defined:
  assumes "0 \<le> ready" and "ready \<le> replicas" and "replicas < 2147483648"
  shows "\<exists>row. role_row arch name ready replicas = Some row"
proof -
  let ?x = "role_percent ready replicas / float_of_int 100 * float_of_int 16"
  have cells: "0 \<le> int_of_float arch ?x"
  proof (cases "0 < replicas")
    case True
    note near = percent_near(2) [OF assms(1,2) True assms(3)]
    have "ready = replicas \<Longrightarrow> val64 ?x = of_int 16" using full_percent(2) [OF True assms(3)] by simp
    from int_of_float_near(2) [OF assms(1,2) True assms(3) _ _ near this] show ?thesis by simp
  next
    case False
    then have "val64 ?x = 0" by (simp add: role_percent_def round_rat_def float_of_int_def)
    then show ?thesis by (simp add: int_of_float_floor)
  qed
  then have "\<exists>bar. progress_bar arch (role_percent ready replicas) progress_bar_width = Some bar"
    by (simp add: progress_bar_def progress_bar_width_def repeat_string_def Let_def)
  then show ?thesis by (auto simp: role_row_def Let_def)
qed

lemma role_rows_exact:
  assumes "nested_laws lib" and "list_all counts_ok sts"
    and "0 \<le> tr" and "tr \<le> tp" and "tp + int (length sts) * 2147483648 < 9223372036854775808"
  shows "\<exists>rows. list_all2 (\<lambda>st row. role_row arch (st_name st) (st_ready_replicas st) (st_replicas st) = Some row) sts rows \<and>
    role_rows arch lib (map role_fields sts) out tr tp =
      Some (out @ concat rows, tr + sum_list (map st_ready_replicas sts), tp + sum_list (map st_replicas sts))"
  using assms(2-)
proof (induction sts arbitrary: out tr tp)
  case (Cons st sts)
  from Cons.prems(1) have "counts_ok st" and rest: "list_all counts_ok sts" by simp_all
  then have st: "0 \<le> st_ready_replicas st" "st_ready_replicas st \<le> st_replicas st"
    "st_replicas st < 2147483648" by (simp_all add: counts_ok_def)
  obtain row where row: "role_row arch (st_name st) (st_ready_replicas st) (st_replicas st) = Some row"
    using role_row_defined [OF st] by blast
  let ?tr = "tr + st_ready_replicas st" and ?tp = "tp + st_replicas st"
  have "int (length (st # sts)) * 2147483648 = 2147483648 + int (length sts) * 2147483648" by simp
  with Cons.prems(4) st(3) have small: "?tp + int (length sts) * 2147483648 < 9223372036854775808" by linarith
  moreover have "0 \<le> int (length sts) * 2147483648" by simp
  ultimately have wrap: "i64 ?tr = ?tr" "i64 ?tp = ?tp"
    using Cons.prems(2,3) st by (intro i64_id; linarith)+
  from Cons.IH [OF rest _ _ small, of ?tr "out @ row"] Cons.prems(2,3) st obtain rows where
    "list_all2 (\<lambda>st row. role_row arch (st_name st) (st_ready_replicas st) (st_replicas st) = Some row) sts rows"
    "role_rows arch lib (map role_fields sts) (out @ row) ?tr ?tp =
      Some ((out @ row) @ concat rows, ?tr + sum_list (map st_ready_replicas sts), ?tp + sum_list (map st_replicas sts))"
    by auto
  then show ?case
    by (intro exI [of _ "row # rows"]) (simp add: role_fields_read [OF assms(1)] row wrap add.assoc)
qed simp

section \<open>Properties\<close>

text \<open>C27: The bar and the percentage of a role with at most \<open>2 ^ 31\<close> replicas, computed in floating point, never
  promise more than is there: the bar has sixteen cells, it is full exactly when all replicas are
  ready, the percentage is 100 exactly then, and both numbers are the exact quotient rounded down or
  one less.\<close>

theorem status_bar_exact:
  assumes "0 \<le> ready" and "ready \<le> replicas" and "0 < replicas" and "replicas < 2147483648"
  shows "(\<exists>k \<le> 16. progress_bar arch (role_percent ready replicas) progress_bar_width =
        Some (concat (replicate k block) @ replicate (16 - k) CHR '' '') \<and>
      (k = 16 \<longleftrightarrow> ready = replicas) \<and> int k \<in> {16 * ready div replicas - 1, 16 * ready div replicas}) \<and>
    int_of_float arch (role_percent ready replicas) \<in> {100 * ready div replicas - 1, 100 * ready div replicas} \<and>
    (int_of_float arch (role_percent ready replicas) = 100 \<longleftrightarrow> ready = replicas)"
proof (intro conjI)
  let ?p = "role_percent ready replicas"
  let ?cells = "int_of_float arch (?p / float_of_int 100 * float_of_int 16)"
  note near = percent_near [OF assms]
  have full: "ready = replicas \<Longrightarrow> val64 ?p = of_int 100"
    "ready = replicas \<Longrightarrow> val64 (?p / float_of_int 100 * float_of_int 16) = of_int 16"
    using full_percent [OF assms(3,4)] by simp_all
  note percent = int_of_float_near [where arch = arch, OF assms _ _ near(1) full(1), simplified]
  note cells = int_of_float_near [where arch = arch, OF assms _ _ near(2) full(2), simplified]
  show "int_of_float arch ?p \<in> {100 * ready div replicas - 1, 100 * ready div replicas}" using percent(1) by simp
  show "int_of_float arch ?p = 100 \<longleftrightarrow> ready = replicas" by (rule percent(4))
  have "progress_bar arch ?p progress_bar_width =
      Some (concat (replicate (nat ?cells) block) @ replicate (16 - nat ?cells) CHR '' '')"
    using cells(2,3) by (simp add: progress_bar_def progress_bar_width_def repeat_string_def Let_def nat_diff_distrib
        concat_replicate_single)
  moreover have "nat ?cells \<le> 16" "int (nat ?cells) = ?cells" using cells(2,3) by simp_all
  moreover have "nat ?cells = 16 \<longleftrightarrow> ready = replicas" using cells(2,4) by linarith
  ultimately show "\<exists>k \<le> 16. progress_bar arch ?p progress_bar_width =
        Some (concat (replicate k block) @ replicate (16 - k) CHR '' '') \<and>
      (k = 16 \<longleftrightarrow> ready = replicas) \<and> int k \<in> {16 * ready div replicas - 1, 16 * ready div replicas}"
    using cells(1) by (intro exI [of _ "nat ?cells"]) simp
qed

theorem status_bar_exact_witness:
  "\<exists>k \<le> 16. progress_bar undefined (role_percent 29 100) progress_bar_width =
     Some (concat (replicate k block) @ replicate (16 - k) CHR '' '') \<and> k \<noteq> 16"
  using status_bar_exact [of 29 100 undefined] by fastforce

text \<open>The percentage is not always the exact quotient: 29 of 100 replicas show as 28 percent.\<close>

lemma percent_one_less: "int_of_float arch (role_percent 29 100) = 28"
proof -
  have "\<lfloor>val64 (role_percent 29 100)\<rfloor> = 28" and "0 \<le> val64 (role_percent 29 100)"
    and "val64 (role_percent 29 100) < 9223372036854775808" by code_simp+
  then show ?thesis by (simp add: int_of_float_floor)
qed

text \<open>C28: The report of a group says what its status says: read back from the unstructured object, each role
  status gives one row with its name and counts, in order, and the summary counts the roles and adds
  up the ready and the wanted replicas exactly; nothing panics.\<close>

theorem status_report_exact:
  assumes "nested_laws lib" and "map_of resource ''status'' = Some (AMap status)"
    and "map_of status ''roleStatuses'' = Some (ASlice (map (AMap \<circ> role_fields) sts))"
    and "list_all counts_ok sts" and "length sts < 2147483648"
  shows "\<exists>rows ms. parse_status lib resource = Inr ms \<and>
    list_all2 (\<lambda>st row. role_row arch (st_name st) (st_ready_replicas st) (st_replicas st) = Some row) sts rows \<and>
    print_report arch lib namespace resource ms age =
      Some (report_header namespace (object_name lib resource) age @ concat rows @
        report_summary (int (length sts)) (sum_list (map st_ready_replicas sts)) (sum_list (map st_replicas sts)))"
proof -
  have "List.map_filter as_any_map (map (AMap \<circ> role_fields) sts) = map role_fields sts"
    by (induction sts) (simp_all add: map_filter_simps)
  with assms(1-3) have parsed: "parse_status lib resource = Inr (map role_fields sts)"
    by (simp add: parse_status_def nested_laws_def)
  have "int (length sts) * 2147483648 < 2147483648 * 2147483648" using assms(5) by (intro mult_strict_right_mono) simp_all
  then have "0 + int (length sts) * 2147483648 < 9223372036854775808" by simp
  from role_rows_exact [OF assms(1,4) _ _ this, of 0 arch "[]"] obtain rows where
    "list_all2 (\<lambda>st row. role_row arch (st_name st) (st_ready_replicas st) (st_replicas st) = Some row) sts rows"
    "role_rows arch lib (map role_fields sts) [] 0 0 =
      Some (concat rows, sum_list (map st_ready_replicas sts), sum_list (map st_replicas sts))" by auto
  with parsed show ?thesis by (intro exI [of _ rows] exI [of _ "map role_fields sts"]) (simp add: print_report_def)
qed

text \<open>Accessors that walk a path of fields, as the library's do.\<close>

fun field_at :: "any_map \<Rightarrow> string list \<Rightarrow> any option" where
  "field_at m [] = Some (AMap m)"
| "field_at m [k] = map_of m k"
| "field_at m (k # ks) = (case map_of m k of Some (AMap n) \<Rightarrow> field_at n ks | _ \<Rightarrow> None)"

definition walking_lib :: nested_lib where
  "walking_lib = \<lparr>
     nested_map = (\<lambda>m ks. case field_at m ks of None \<Rightarrow> Inr ([], False) | Some (AMap v) \<Rightarrow> Inr (v, True) | _ \<Rightarrow> Inl ''type''),
     nested_slice = (\<lambda>m ks. case field_at m ks of None \<Rightarrow> Inr ([], False) | Some (ASlice v) \<Rightarrow> Inr (v, True) | _ \<Rightarrow> Inl ''type''),
     nested_string = (\<lambda>m ks. case field_at m ks of None \<Rightarrow> Inr ([], False) | Some (AString v) \<Rightarrow> Inr (v, True) | _ \<Rightarrow> Inl ''type''),
     nested_int64 = (\<lambda>m ks. case field_at m ks of None \<Rightarrow> Inr (0, False) | Some (AInt v) \<Rightarrow> Inr (v, True) | _ \<Rightarrow> Inl ''type''),
     object_name = (\<lambda>m. case field_at m [''metadata'', ''name''] of Some (AString v) \<Rightarrow> v | _ \<Rightarrow> [])\<rparr>"

lemma walking_lib_laws: "nested_laws walking_lib"
  by (simp add: nested_laws_def walking_lib_def)

theorem status_report_exact_witness:
  "\<exists>ms rows. parse_status walking_lib [(''status'', AMap [(''roleStatuses'', ASlice [AMap (role_fields
       \<lparr>st_name = ''a'', st_ready_replicas = 1, st_replicas = 2\<rparr>)])])] = Inr ms \<and>
     print_report undefined walking_lib ''ns'' [(''status'', AMap [(''roleStatuses'', ASlice [AMap (role_fields
       \<lparr>st_name = ''a'', st_ready_replicas = 1, st_replicas = 2\<rparr>)])])] ms ''5m'' =
       Some (report_header ''ns'' [] ''5m'' @ rows @ report_summary 1 1 2)"
proof -
  let ?sts = "[\<lparr>st_name = ''a'', st_ready_replicas = 1, st_replicas = 2\<rparr>]"
  let ?status = "[(''roleStatuses'', ASlice (map (AMap \<circ> role_fields) ?sts))]"
  let ?obj = "[(''status'', AMap ?status)]"
  have "map_of ?obj ''status'' = Some (AMap ?status)"
    and "map_of ?status ''roleStatuses'' = Some (ASlice (map (AMap \<circ> role_fields) ?sts))"
    and "list_all counts_ok ?sts" and "length ?sts < 2147483648" by (simp_all add: counts_ok_def)
  from status_report_exact [OF walking_lib_laws this, of undefined "''ns''" "''5m''"] obtain rows ms where
    "parse_status walking_lib ?obj = Inr ms"
    and "print_report undefined walking_lib ''ns'' ?obj ms ''5m'' =
      Some (report_header ''ns'' (object_name walking_lib ?obj) ''5m'' @ concat rows @
        report_summary (int (length ?sts)) (sum_list (map st_ready_replicas ?sts)) (sum_list (map st_replicas ?sts)))"
    by blast
  moreover have "object_name walking_lib ?obj = []" by (simp add: walking_lib_def)
  ultimately show ?thesis by (intro exI [of _ ms] exI [of _ "concat rows"]) simp
qed

end
