(* ===== verification/Deep_Copy.thy ===== *)
theory Deep_Copy
  imports Prelude
begin

text \<open>
  The generated deep copies of \<open>zz_generated.deepcopy.go\<close> over an explicit store, where sharing is
  visible. A struct, string or number is a value; a pointer or a slice names a cell of the store, and
  an assignment copies the name and not the cell. A map is a slice of entries, because the only maps
  of the API types are in library types. The copies that library types bring along
  are parameters (\<open>copy_lib\<close>), of which the theorems assume what Kubernetes documents: the copy equals the
  original and shares nothing with it.

  Every method of the file is one definition, a list of its statements in their order: \<open>into\<close> stands
  for \<open>*out = *in\<close>, \<open>new_copy\<close> for a pointer that is not nil, \<open>make_copy\<close> for a slice that is not nil,
  \<open>assign\<close> for \<open>=\<close> and for the elements of the builtin \<open>copy\<close>.
\<close>

section \<open>Go values and the store\<close>

datatype go_scalar = GoInt int | GoString string | GoBool bool

text \<open>A slice is a window into an array: the cell, the first index and the length. A pointer names a
  variable, a cell with one element.\<close>

datatype go_val =
    Scalar go_scalar
  | NilRef
  | Pointer nat
  | Slice nat nat nat
  | Struct "(string \<times> go_val) list"

text \<open>A scalar type is given by its zero value.\<close>

datatype go_type =
    ScalarT go_scalar
  | PointerT go_type
  | SliceT go_type
  | StructT "(string \<times> go_type) list"

abbreviation "IntT \<equiv> ScalarT (GoInt 0)"
abbreviation "StringT \<equiv> ScalarT (GoString [])"
abbreviation "BoolT \<equiv> ScalarT (GoBool False)"

type_synonym store = "go_val list list"

type_synonym copier = "go_val \<Rightarrow> store \<Rightarrow> (go_val \<times> store) option"

fun zero_value :: "go_type \<Rightarrow> go_val" where
  "zero_value (ScalarT z) = Scalar z"
| "zero_value (PointerT T) = NilRef"
| "zero_value (SliceT T) = NilRef"
| "zero_value (StructT fs) = Struct (map (\<lambda>(n, T). (n, zero_value T)) fs)"

definition allocate :: "go_val list \<Rightarrow> store \<Rightarrow> nat \<times> store" where
  "allocate xs h = (length h, h @ [xs])"

definition read_cell :: "nat \<Rightarrow> nat \<Rightarrow> store \<Rightarrow> go_val option" where
  "read_cell a i h = (if a < length h \<and> i < length (h ! a) then Some (h ! a ! i) else None)"

definition write_cell :: "nat \<Rightarrow> nat \<Rightarrow> go_val \<Rightarrow> store \<Rightarrow> store option" where
  "write_cell a i x h =
     (if a < length h \<and> i < length (h ! a) then Some (h[a := (h ! a)[i := x]]) else None)"

fun get_field :: "string \<Rightarrow> go_val \<Rightarrow> go_val option" where
  "get_field n (Struct xs) = map_of xs n"
| "get_field n v = None"

fun set_field :: "string \<Rightarrow> go_val \<Rightarrow> go_val \<Rightarrow> go_val option" where
  "set_field n x (Struct xs) =
     (if n \<in> fst ` set xs then Some (Struct (map (\<lambda>(m, y). (m, if m = n then x else y)) xs)) else None)"
| "set_field n x v = None"

section \<open>The statements of the generated code\<close>

definition assign :: copier where
  "assign v h = Some (v, h)"

definition new_copy :: "go_type \<Rightarrow> copier \<Rightarrow> copier" where
  "new_copy T f v h = (case v of
       NilRef \<Rightarrow> Some (NilRef, h)
     | Pointer a \<Rightarrow> (let (b, h1) = allocate [zero_value T] h in
         Option.bind (read_cell a 0 h1) (\<lambda>x.
         Option.bind (f x h1) (\<lambda>(y, h2).
         Option.bind (write_cell b 0 y h2) (\<lambda>h3. Some (Pointer b, h3)))))
     | _ \<Rightarrow> None)"

primrec copy_elements :: "copier \<Rightarrow> nat \<Rightarrow> nat \<Rightarrow> nat \<Rightarrow> nat list \<Rightarrow> store \<Rightarrow> store option" where
  "copy_elements f a off b [] h = Some h"
| "copy_elements f a off b (i # is) h =
     Option.bind (read_cell a (off + i) h) (\<lambda>x.
     Option.bind (f x h) (\<lambda>(y, g).
     Option.bind (write_cell b i y g) (copy_elements f a off b is)))"

definition make_copy :: "go_type \<Rightarrow> copier \<Rightarrow> copier" where
  "make_copy T f v h = (case v of
       NilRef \<Rightarrow> Some (NilRef, h)
     | Slice a off n \<Rightarrow> (let (b, h1) = allocate (replicate n (zero_value T)) h in
         map_option (\<lambda>h2. (Slice b 0 n, h2)) (copy_elements f a off b [0..<n] h1))
     | _ \<Rightarrow> None)"

primrec copy_fields :: "(string \<times> copier) list \<Rightarrow> go_val \<Rightarrow> copier" where
  "copy_fields [] v out h = Some (out, h)"
| "copy_fields (s # ss) v out h =
     Option.bind (get_field (fst s) v) (\<lambda>x.
     Option.bind (snd s x h) (\<lambda>(y, g).
     Option.bind (set_field (fst s) y out) (\<lambda>out. copy_fields ss v out g)))"

definition into :: "(string \<times> copier) list \<Rightarrow> copier" where
  "into ss v h = copy_fields ss v v h"

section \<open>What a value stands for\<close>

text \<open>The tree behind a value of a type, \<open>None\<close> when the value is not one of the type, and the cells it
  is made of.\<close>

datatype go_tree =
    TScalar go_scalar
  | TNil
  | TPointer go_tree
  | TSlice "go_tree list"
  | TStruct "(string \<times> go_tree) list"

fun same_kind :: "go_scalar \<Rightarrow> go_scalar \<Rightarrow> bool" where
  "same_kind (GoInt m) (GoInt n) = True"
| "same_kind (GoString x) (GoString y) = True"
| "same_kind (GoBool p) (GoBool q) = True"
| "same_kind x y = False"

definition window :: "store \<Rightarrow> nat \<Rightarrow> nat \<Rightarrow> nat \<Rightarrow> go_val list" where
  "window h a off n = take n (drop off (h ! a))"

fun denote :: "go_type \<Rightarrow> store \<Rightarrow> go_val \<Rightarrow> go_tree option"
  and denote_fields :: "(string \<times> go_type) list \<Rightarrow> store \<Rightarrow> (string \<times> go_val) list \<Rightarrow> (string \<times> go_tree) list option"
where
  "denote (ScalarT z) h v = (case v of Scalar x \<Rightarrow> if same_kind z x then Some (TScalar x) else None | _ \<Rightarrow> None)"
| "denote (PointerT T) h v = (case v of
       NilRef \<Rightarrow> Some TNil
     | Pointer a \<Rightarrow> if a < length h \<and> length (h ! a) = 1 then map_option TPointer (denote T h (h ! a ! 0)) else None
     | _ \<Rightarrow> None)"
| "denote (SliceT T) h v = (case v of
       NilRef \<Rightarrow> Some TNil
     | Slice a off n \<Rightarrow> if a < length h \<and> off + n \<le> length (h ! a)
         then map_option TSlice (those (map (denote T h) (window h a off n))) else None
     | _ \<Rightarrow> None)"
| "denote (StructT fs) h v = (case v of Struct xs \<Rightarrow> map_option TStruct (denote_fields fs h xs) | _ \<Rightarrow> None)"
| "denote_fields [] h xs = (if xs = [] then Some [] else None)"
| "denote_fields (f # fs) h xs = (case xs of
       [] \<Rightarrow> None
     | x # xs \<Rightarrow> if fst x = fst f
         then (case denote (snd f) h (snd x) of None \<Rightarrow> None
            | Some t \<Rightarrow> map_option ((#) (fst f, t)) (denote_fields fs h xs)) else None)"

fun reach :: "go_type \<Rightarrow> store \<Rightarrow> go_val \<Rightarrow> nat set"
  and reach_fields :: "(string \<times> go_type) list \<Rightarrow> store \<Rightarrow> (string \<times> go_val) list \<Rightarrow> nat set"
where
  "reach (ScalarT z) h v = {}"
| "reach (PointerT T) h v = (case v of Pointer a \<Rightarrow> insert a (reach T h (h ! a ! 0)) | _ \<Rightarrow> {})"
| "reach (SliceT T) h v = (case v of Slice a off n \<Rightarrow> insert a (\<Union> (set (map (reach T h) (window h a off n)))) | _ \<Rightarrow> {})"
| "reach (StructT fs) h v = (case v of Struct xs \<Rightarrow> reach_fields fs h xs | _ \<Rightarrow> {})"
| "reach_fields [] h xs = {}"
| "reach_fields (f # fs) h xs = (case xs of [] \<Rightarrow> {} | x # xs \<Rightarrow> reach (snd f) h (snd x) \<union> reach_fields fs h xs)"

text \<open>A type without pointers or slices, whose values an assignment copies completely.\<close>

fun plain :: "go_type \<Rightarrow> bool" where
  "plain (ScalarT z) = True"
| "plain (PointerT T) = False"
| "plain (SliceT T) = False"
| "plain (StructT fs) = list_all (\<lambda>(n, T). plain T) fs"

definition deep :: "go_type \<Rightarrow> copier \<Rightarrow> bool" where
  "deep T f \<longleftrightarrow> (\<forall>v h t. denote T h v = Some t \<longrightarrow>
     (\<exists>w g. f v h = Some (w, h @ g) \<and> denote T (h @ g) w = Some t \<and>
        reach T (h @ g) w \<subseteq> {length h..<length (h @ g)}))"

section \<open>Frame\<close>

lemma those_map: "those (map f xs) = Some ts \<longleftrightarrow> list_all2 (\<lambda>x t. f x = Some t) xs ts"
  by (induction xs arbitrary: ts) (auto simp: list_all2_Cons1 split: option.splits)

lemma denote_fields_index:
  "denote_fields fs h xs = Some ts \<longleftrightarrow> length xs = length fs \<and> length ts = length fs \<and>
     (\<forall>i<length fs. fst (xs ! i) = fst (fs ! i) \<and> fst (ts ! i) = fst (fs ! i) \<and>
        denote (snd (fs ! i)) h (snd (xs ! i)) = Some (snd (ts ! i)))"
proof (induction fs arbitrary: xs ts)
  case (Cons f fs)
  show ?case
    by (cases xs; cases ts; cases "hd ts")
      (auto simp: Cons.IH All_less_Suc2 less_Suc_eq_0_disj split: option.splits)
qed auto

lemma reach_fields_index:
  "length xs = length fs \<Longrightarrow> reach_fields fs h xs = (\<Union>i<length fs. reach (snd (fs ! i)) h (snd (xs ! i)))"
proof (induction fs arbitrary: xs)
  case (Cons f fs)
  then obtain x ys where xs: "xs = x # ys" and "length ys = length fs" by (cases xs) auto
  with Cons.IH [of ys] show ?case by (simp add: lessThan_Suc_eq_insert_0 image_image)
qed simp

lemma denote_pointer:
  "denote (PointerT T) h v = Some t \<longleftrightarrow> v = NilRef \<and> t = TNil \<or>
     (\<exists>a x u. v = Pointer a \<and> a < length h \<and> h ! a = [x] \<and> denote T h x = Some u \<and> t = TPointer u)"
  by (auto simp: length_Suc_conv split: go_val.splits)

lemma denote_slice:
  "denote (SliceT T) h v = Some t \<longleftrightarrow> v = NilRef \<and> t = TNil \<or>
     (\<exists>a off n ts. v = Slice a off n \<and> a < length h \<and> off + n \<le> length (h ! a) \<and> t = TSlice ts \<and>
        list_all2 (\<lambda>x t. denote T h x = Some t) (window h a off n) ts)"
  by (auto simp: those_map split: go_val.splits)

lemma denote_struct:
  "denote (StructT fs) h v = Some t \<longleftrightarrow> (\<exists>xs ts. v = Struct xs \<and> t = TStruct ts \<and>
     length xs = length fs \<and> length ts = length fs \<and>
     (\<forall>i<length fs. fst (xs ! i) = fst (fs ! i) \<and> fst (ts ! i) = fst (fs ! i) \<and>
        denote (snd (fs ! i)) h (snd (xs ! i)) = Some (snd (ts ! i))))"
  by (auto simp: denote_fields_index split: go_val.splits)

lemma denoted_element: "list_all2 (\<lambda>x t. f x = Some t) xs ts \<Longrightarrow> x \<in> set xs \<Longrightarrow> \<exists>t. f x = Some t"
  by (induction xs ts rule: list_all2_induct) auto

declare denote.simps(2-4) [simp del]
declare denote_fields.simps [simp del]

lemma struct_cases:
  assumes "denote (StructT fs) h v = Some t"
  obtains xs ts where "v = Struct xs" and "t = TStruct ts" and "length xs = length fs" and "length ts = length fs"
    and "\<And>i. i < length fs \<Longrightarrow> fst (xs ! i) = fst (fs ! i)"
    and "\<And>i. i < length fs \<Longrightarrow> fst (ts ! i) = fst (fs ! i)"
    and "\<And>i. i < length fs \<Longrightarrow> denote (snd (fs ! i)) h (snd (xs ! i)) = Some (snd (ts ! i))"
    and "\<And>g. reach (StructT fs) g v = (\<Union>i<length fs. reach (snd (fs ! i)) g (snd (xs ! i)))"
proof -
  from assms obtain xs ts where v: "v = Struct xs" "t = TStruct ts" and len: "length xs = length fs" "length ts = length fs"
    and fields: "\<forall>i<length fs. fst (xs ! i) = fst (fs ! i) \<and> fst (ts ! i) = fst (fs ! i) \<and>
        denote (snd (fs ! i)) h (snd (xs ! i)) = Some (snd (ts ! i))" unfolding denote_struct by blast
  have "reach (StructT fs) g v = (\<Union>i<length fs. reach (snd (fs ! i)) g (snd (xs ! i)))" for g
    by (simp add: v reach_fields_index len)
  with v len fields show thesis by (intro that) simp_all
qed

lemma struct_parts:
  assumes "denote (StructT fs) h v = Some t"
  obtains ys us where "\<forall>i<length fs. denote (snd (fs ! i)) h (ys i) = Some (us i)"
    and "\<forall>g. reach (StructT fs) g v = (\<Union>i<length fs. reach (snd (fs ! i)) g (ys i))"
proof (rule struct_cases [OF assms])
  fix xs ts
  assume "\<And>i. i < length fs \<Longrightarrow> denote (snd (fs ! i)) h (snd (xs ! i)) = Some (snd (ts ! i))"
    and "\<And>g. reach (StructT fs) g v = (\<Union>i<length fs. reach (snd (fs ! i)) g (snd (xs ! i)))"
  then show thesis by (intro that) auto
qed

lemma field_type: "i < length fs \<Longrightarrow> snd (fs ! i) \<in> Basic_BNFs.snds (fs ! i)"
  by (simp add: snds.simps)

declare reach.simps(4) [simp del]


lemma denote_frame:
  "denote T h v = Some t \<Longrightarrow> (\<And>a. a \<in> reach T h v \<Longrightarrow> a < length g \<and> g ! a = h ! a) \<Longrightarrow>
     denote T g v = Some t \<and> reach T g v = reach T h v"
proof (induction T arbitrary: v t)
  case (ScalarT z)
  then show ?case by simp
next
  case (PointerT T)
  then show ?case by (auto simp: denote_pointer)
next
  case (SliceT T)
  from SliceT.prems(1) consider "v = NilRef" "t = TNil"
    | a off n ts where "v = Slice a off n" "a < length h" "off + n \<le> length (h ! a)" "t = TSlice ts"
      "list_all2 (\<lambda>x t. denote T h x = Some t) (window h a off n) ts" by (auto simp: denote_slice)
  then show ?case
  proof cases
    case 2
    with SliceT.prems(2) have g: "a < length g" "g ! a = h ! a" by auto
    then have w: "window g a off n = window h a off n" by (simp add: window_def)
    have same: "denote T g x = Some u \<and> reach T g x = reach T h x"
      if "x \<in> set (window h a off n)" and "denote T h x = Some u" for x u
      by (rule SliceT.IH [OF that(2)]) (use that 2(1) SliceT.prems(2) in auto)
    have "list_all2 (\<lambda>x t. denote T g x = Some t) (window h a off n) ts"
      using 2(5) by (rule list.rel_mono_strong) (use same in auto)
    moreover have "reach T g x = reach T h x" if "x \<in> set (window h a off n)" for x
      using denoted_element [OF 2(5) that] same that by blast
    ultimately show ?thesis using 2 g w by (simp add: denote_slice)
  qed (simp add: denote_slice)
next
  case (StructT fs)
  from StructT.prems(1) obtain xs ts where v: "v = Struct xs" "t = TStruct ts" "length xs = length fs" "length ts = length fs"
    and names: "\<And>i. i < length fs \<Longrightarrow> fst (xs ! i) = fst (fs ! i)" "\<And>i. i < length fs \<Longrightarrow> fst (ts ! i) = fst (fs ! i)"
    and fields: "\<And>i. i < length fs \<Longrightarrow> denote (snd (fs ! i)) h (snd (xs ! i)) = Some (snd (ts ! i))"
    and r: "\<And>g. reach (StructT fs) g v = (\<Union>i<length fs. reach (snd (fs ! i)) g (snd (xs ! i)))"
    by (rule struct_cases) blast
  have "denote (snd (fs ! i)) g (snd (xs ! i)) = Some (snd (ts ! i)) \<and>
      reach (snd (fs ! i)) g (snd (xs ! i)) = reach (snd (fs ! i)) h (snd (xs ! i))" if "i < length fs" for i
    by (rule StructT.IH [OF nth_mem [OF that] _ fields [OF that]])
      (use that StructT.prems(2) in \<open>auto simp: r snds.simps\<close>)
  with v names have "denote (StructT fs) g v = Some t"
    and "reach (StructT fs) g v = reach (StructT fs) h v" unfolding r [rule_format] by (simp_all add: denote_struct)
  then show ?case ..
qed

lemma reach_bound: "denote T h v = Some t \<Longrightarrow> a \<in> reach T h v \<Longrightarrow> a < length h"
proof (induction T arbitrary: v t)
  case (PointerT T)
  then show ?case by (auto simp: denote_pointer)
next
  case (SliceT T)
  from SliceT.prems(2) obtain b off n where v: "v = Slice b off n" by (auto split: go_val.splits)
  with SliceT.prems(1) obtain ts where b: "b < length h"
    and ts: "list_all2 (\<lambda>x t. denote T h x = Some t) (window h b off n) ts" by (auto simp: denote_slice)
  from SliceT.prems(2) v consider "a = b" | x where "x \<in> set (window h b off n)" "a \<in> reach T h x" by auto
  then show ?case
  proof cases
    case 2
    with denoted_element [OF ts 2(1)] show ?thesis by (blast intro: SliceT.IH)
  qed (simp add: b)
next
  case (StructT fs)
  from StructT.prems(1) obtain ys us where
    fields: "\<forall>i<length fs. denote (snd (fs ! i)) h (ys i) = Some (us i)"
    and r: "\<forall>g. reach (StructT fs) g v = (\<Union>i<length fs. reach (snd (fs ! i)) g (ys i))" by (rule struct_parts)
  from StructT.prems(2) obtain i where i: "i < length fs" and a: "a \<in> reach (snd (fs ! i)) h (ys i)" unfolding r [rule_format] by blast
  show ?case by (rule StructT.IH [OF nth_mem [OF i] field_type [OF i] fields [rule_format, OF i] a])
qed simp

text \<open>What was there before an allocation keeps its meaning.\<close>

lemma denote_append:
  assumes "denote T h v = Some t"
  shows "denote T (h @ g) v = Some t" and "reach T (h @ g) v = reach T h v"
proof -
  have "a < length (h @ g) \<and> (h @ g) ! a = h ! a" if "a \<in> reach T h v" for a
    using reach_bound [OF assms that] by (simp add: nth_append)
  from denote_frame [OF assms this] show "denote T (h @ g) v = Some t" and "reach T (h @ g) v = reach T h v"
    by simp_all
qed

lemma plain_reach: "plain T \<Longrightarrow> denote T h v = Some t \<Longrightarrow> reach T h v = {}"
proof (induction T arbitrary: v t)
  case (StructT fs)
  from StructT.prems(2) obtain ys us where
    fields: "\<forall>i<length fs. denote (snd (fs ! i)) h (ys i) = Some (us i)"
    and r: "\<forall>g. reach (StructT fs) g v = (\<Union>i<length fs. reach (snd (fs ! i)) g (ys i))" by (rule struct_parts)
  have "reach (snd (fs ! i)) h (ys i) = {}" if i: "i < length fs" for i
    by (rule StructT.IH [OF nth_mem [OF i] field_type [OF i] _ fields [rule_format, OF i]])
      (use StructT.prems(1) i in \<open>auto simp: list_all_length case_prod_beta\<close>)
  then show ?case unfolding r [rule_format] by simp
qed simp_all

section \<open>The statements copy deeply\<close>

lemma deepI:
  assumes "\<And>v h t. denote T h v = Some t \<Longrightarrow> \<exists>w g. f v h = Some (w, h @ g) \<and> denote T (h @ g) w = Some t \<and>
    reach T (h @ g) w \<subseteq> {length h..<length (h @ g)}"
  shows "deep T f"
  using assms by (simp add: deep_def)

lemma deepE:
  assumes "deep T f" and "denote T h v = Some t"
  obtains w g where "f v h = Some (w, h @ g)" and "denote T (h @ g) w = Some t"
    and "reach T (h @ g) w \<subseteq> {length h..<length h + length g}"
proof -
  from assms obtain w g where "f v h = Some (w, h @ g)" "denote T (h @ g) w = Some t"
    "reach T (h @ g) w \<subseteq> {length h..<length (h @ g)}" unfolding deep_def by blast
  then show thesis by (intro that [of w g]) simp_all
qed

lemma deep_assign:
  assumes "plain T"
  shows "deep T assign"
proof (rule deepI)
  fix v h t assume "denote T h v = Some t"
  with assms show "\<exists>w g. assign v h = Some (w, h @ g) \<and> denote T (h @ g) w = Some t \<and>
      reach T (h @ g) w \<subseteq> {length h..<length (h @ g)}"
    by (intro exI [of _ v] exI [of _ "[]"]) (simp add: assign_def plain_reach)
qed

lemma write_new_cell:
  "i < length xs \<Longrightarrow> write_cell (length h) i y (h @ xs # g) = Some (h @ xs[i := y] # g)"
  by (simp add: write_cell_def nth_append)

lemma denote_update_new:
  assumes "denote T (h @ xs # g) w = Some u" and "length h \<notin> reach T (h @ xs # g) w"
  shows "denote T (h @ ys # g) w = Some u" and "reach T (h @ ys # g) w = reach T (h @ xs # g) w"
proof -
  have "a < length (h @ ys # g) \<and> (h @ ys # g) ! a = (h @ xs # g) ! a" if "a \<in> reach T (h @ xs # g) w" for a
    using that assms(2) reach_bound [OF assms(1) that] by (auto simp: nth_append nth_Cons')
  from denote_frame [OF assms(1) this] show "denote T (h @ ys # g) w = Some u"
    and "reach T (h @ ys # g) w = reach T (h @ xs # g) w" by simp_all
qed

lemma deep_new_copy:
  assumes "deep T f"
  shows "deep (PointerT T) (new_copy T f)"
proof (rule deepI)
  fix v h t assume v: "denote (PointerT T) h v = Some t"
  then consider "v = NilRef" "t = TNil"
    | a x u where "v = Pointer a" "a < length h" "h ! a = [x]" "denote T h x = Some u" "t = TPointer u"
    by (auto simp: denote_pointer)
  then show "\<exists>w g. new_copy T f v h = Some (w, h @ g) \<and> denote (PointerT T) (h @ g) w = Some t \<and>
    reach (PointerT T) (h @ g) w \<subseteq> {length h..<length (h @ g)}"
  proof cases
    case 1
    then show ?thesis
      by (intro exI [of _ NilRef] exI [of _ "[]"]) (simp add: new_copy_def denote_pointer)
  next
    case 2
    let ?h = "h @ [[zero_value T]]"
    from assms denote_append(1) [OF 2(4)] obtain w g where f: "f x ?h = Some (w, ?h @ g)"
      and w: "denote T (?h @ g) w = Some u" and r: "reach T (?h @ g) w \<subseteq> {length ?h..<length ?h + length g}" by (rule deepE)
    have run: "new_copy T f v h = Some (Pointer (length h), h @ [w] # g)"
      using 2 f write_new_cell [of 0 "[zero_value T]" h w g]
      by (simp add: new_copy_def allocate_def read_cell_def nth_append)
    have "denote T (h @ [w] # g) w = Some u" and "reach T (h @ [w] # g) w = reach T (?h @ g) w"
      using denote_update_new [of T h "[zero_value T]" g w u "[w]"] w r by fastforce+
    with r run 2(5) show ?thesis
      by (intro exI [of _ "Pointer (length h)"] exI [of _ "[w] # g"]) (auto simp: denote_pointer)
  qed
qed

text \<open>A copied value: it stands for the tree in the store and lies behind a point of it.\<close>

definition copied :: "go_type \<Rightarrow> nat \<Rightarrow> store \<Rightarrow> go_val \<Rightarrow> go_tree \<Rightarrow> bool" where
  "copied T k h v t \<longleftrightarrow> denote T h v = Some t \<and> reach T h v \<subseteq> {k..<length h}"

lemma copied_append: "copied T k h v t \<Longrightarrow> copied T k (h @ g) v t"
  using denote_append [of T h v t g] by (auto simp: copied_def)

lemma copied_le: "copied T k h v t \<Longrightarrow> j \<le> k \<Longrightarrow> copied T j h v t"
  by (auto simp: copied_def)

lemma copied_update:
  assumes "copied T (Suc (length h)) (h @ xs # g) v t"
  shows "copied T (Suc (length h)) (h @ ys # g) v t"
proof -
  from assms have v: "denote T (h @ xs # g) v = Some t" and "length h \<notin> reach T (h @ xs # g) v"
    by (auto simp: copied_def)
  from denote_update_new [OF this, of ys] assms show ?thesis by (simp add: copied_def)
qed

lemma deep_run:
  assumes "deep T f" and "denote T h v = Some t"
  obtains w g where "f v h = Some (w, h @ g)" and "copied T (length h) (h @ g) w t"
  using assms by (auto simp: copied_def elim: deepE)

lemma copy_elements_copies:
  assumes "deep T f" and "a < length h" and "off + n \<le> length (h ! a)"
    and "\<And>k. k < n \<Longrightarrow> denote T h (h ! a ! (off + k)) = Some (ts ! k)"
    and "i \<le> n" and "length ws = n" and "\<forall>k<i. copied T (Suc (length h)) (h @ ws # g) (ws ! k) (ts ! k)"
  shows "\<exists>us g'. copy_elements f a off (length h) [i..<n] (h @ ws # g) = Some (h @ us # g') \<and> length us = n \<and>
    (\<forall>k<n. copied T (Suc (length h)) (h @ us # g') (us ! k) (ts ! k))"
  using assms(5-7)
proof (induction i arbitrary: ws g rule: inc_induct)
  case base
  then show ?case by (intro exI [of _ ws] exI [of _ g]) simp
next
  case (step i)
  let ?h = "h @ ws # g" and ?x = "h ! a ! (off + i)"
  from denote_append(1) [OF assms(4) [OF step.hyps(2)]] have "denote T ?h ?x = Some (ts ! i)" .
  with assms(1) obtain y e where f: "f ?x ?h = Some (y, ?h @ e)" and y: "copied T (length ?h) (?h @ e) y (ts ! i)"
    by (rule deep_run)
  have "copied T (Suc (length h)) (h @ ws[i := y] # (g @ e)) (ws[i := y] ! k) (ts ! k)" if k: "k < Suc i" for k
  proof (rule copied_update [of _ _ ws])
    show "copied T (Suc (length h)) (h @ ws # g @ e) (ws[i := y] ! k) (ts ! k)"
    proof (cases "k = i")
      case True
      then show ?thesis using copied_le [OF y, of "Suc (length h)"] step.hyps(2) step.prems(1) by simp
    next
      case False
      with k have "k < i" by simp
      with step.prems(2) have "copied T (Suc (length h)) ?h (ws ! k) (ts ! k)" by blast
      from copied_append [OF this, of e] False show ?thesis by simp
    qed
  qed
  with step.IH [of "ws[i := y]" "g @ e"] step.prems(1) obtain us g' where
    run: "copy_elements f a off (length h) [Suc i..<n] (h @ ws[i := y] # g @ e) = Some (h @ us # g')"
    and us: "length us = n" "\<forall>k<n. copied T (Suc (length h)) (h @ us # g') (us ! k) (ts ! k)" by auto
  have "read_cell a (off + i) ?h = Some ?x"
    using assms(2,3) step.hyps(2) by (simp add: read_cell_def nth_append)
  with f run step.hyps(2) step.prems(1)
  have "copy_elements f a off (length h) [i..<n] ?h = Some (h @ us # g')"
    by (simp add: upt_conv_Cons write_new_cell)
  with us show ?case by blast
qed

lemma deep_make_copy:
  assumes "deep T f"
  shows "deep (SliceT T) (make_copy T f)"
proof (rule deepI)
  fix v h t assume "denote (SliceT T) h v = Some t"
  then consider "v = NilRef" "t = TNil"
    | a off n ts where "v = Slice a off n" "a < length h" "off + n \<le> length (h ! a)" "t = TSlice ts"
      "list_all2 (\<lambda>x t. denote T h x = Some t) (window h a off n) ts" by (auto simp: denote_slice)
  then show "\<exists>w g. make_copy T f v h = Some (w, h @ g) \<and> denote (SliceT T) (h @ g) w = Some t \<and>
    reach (SliceT T) (h @ g) w \<subseteq> {length h..<length (h @ g)}"
  proof cases
    case 1
    then show ?thesis by (intro exI [of _ NilRef] exI [of _ "[]"]) (simp add: make_copy_def denote_slice)
  next
    case 2
    from 2(3,5) have ts: "length ts = n" and elem: "\<And>k. k < n \<Longrightarrow> denote T h (h ! a ! (off + k)) = Some (ts ! k)"
      by (auto simp: window_def list_all2_conv_all_nth)
    from copy_elements_copies [OF assms 2(2,3) elem, of 0 "replicate n (zero_value T)" "[]"]
    obtain us g where run: "copy_elements f a off (length h) [0..<n] (h @ [replicate n (zero_value T)]) = Some (h @ us # g)"
      and us: "length us = n" "\<forall>k<n. copied T (Suc (length h)) (h @ us # g) (us ! k) (ts ! k)" by auto
    have "window (h @ us # g) (length h) 0 n = us" using us(1) by (simp add: window_def)
    with run 2(1,4) us ts show ?thesis
      by (intro exI [of _ "Slice (length h) 0 n"] exI [of _ "us # g"])
  (force simp: make_copy_def allocate_def denote_slice list_all2_conv_all_nth copied_def in_set_conv_nth)
  qed
qed

lemma map_of_index:
  assumes "distinct (map fst xs)" and "i < length xs"
  shows "map_of xs (fst (xs ! i)) = Some (snd (xs ! i))"
  using assms by (simp add: map_of_eq_Some_iff)

lemma copy_fields_copies:
  assumes "distinct (map fst fs)" and "length xs = length fs"
    and "\<forall>i<length fs. fst (xs ! i) = fst (fs ! i) \<and> denote (snd (fs ! i)) h (snd (xs ! i)) = Some (us i)"
    and "\<forall>(n, f)\<in>set ss. \<exists>T. (n, T) \<in> set fs \<and> deep T f"
    and "length ys = length fs"
    and "\<forall>i<length fs. fst (ys ! i) = fst (fs ! i) \<and>
      (if fst (fs ! i) \<in> D then copied (snd (fs ! i)) (length h) (h @ g) (snd (ys ! i)) (us i) else ys ! i = xs ! i)"
  shows "\<exists>zs e. copy_fields ss (Struct xs) (Struct ys) (h @ g) = Some (Struct zs, h @ e) \<and> length zs = length fs \<and>
    (\<forall>i<length fs. fst (zs ! i) = fst (fs ! i) \<and>
      (if fst (fs ! i) \<in> D \<union> fst ` set ss then copied (snd (fs ! i)) (length h) (h @ e) (snd (zs ! i)) (us i)
       else zs ! i = xs ! i))"
  using assms(4-6)
proof (induction ss arbitrary: ys g D)
  case Nil
  then show ?case by (intro exI [of _ ys] exI [of _ g]) simp
next
  case (Cons s ss)
  from Cons.prems(1) obtain T where "(fst s, T) \<in> set fs" and f: "deep T (snd s)" by (cases s) auto
  then obtain j where j: "j < length fs" and fj: "fs ! j = (fst s, T)" by (auto simp: in_set_conv_nth)
  let ?x = "snd (xs ! j)"
  have names: "map fst xs = map fst fs" "map fst ys = map fst fs"
    using assms(2,3) Cons.prems(2,3) by (auto intro: nth_equalityI)
  have get: "get_field (fst s) (Struct xs) = Some ?x"
    using map_of_index [of xs j] assms(1-3) j fj names by simp
  from assms(3) j fj have "denote T h ?x = Some (us j)" by auto
  from denote_append(1) [OF this] have "denote T (h @ g) ?x = Some (us j)" .
  with f obtain y e where run: "snd s ?x (h @ g) = Some (y, (h @ g) @ e)"
    and y: "copied T (length (h @ g)) ((h @ g) @ e) y (us j)" by (rule deep_run)
  let ?ys = "map (\<lambda>(m, z). (m, if m = fst s then y else z)) ys"
  have "fst s \<in> fst ` set ys" using names j fj by (metis fst_conv image_set nth_mem length_map nth_map)
  then have set_f: "set_field (fst s) y (Struct ys) = Some (Struct ?ys)" by simp
  have "\<forall>i<length fs. fst (?ys ! i) = fst (fs ! i) \<and>
      (if fst (fs ! i) \<in> insert (fst s) D then copied (snd (fs ! i)) (length h) (h @ g @ e) (snd (?ys ! i)) (us i)
       else ?ys ! i = xs ! i)"
  proof (intro allI impI)
    fix i assume i: "i < length fs"
    with Cons.prems(2,3) have yi: "i < length ys" "fst (ys ! i) = fst (fs ! i)" by auto
    show "fst (?ys ! i) = fst (fs ! i) \<and>
      (if fst (fs ! i) \<in> insert (fst s) D then copied (snd (fs ! i)) (length h) (h @ g @ e) (snd (?ys ! i)) (us i)
       else ?ys ! i = xs ! i)"
    proof (cases "fst (fs ! i) = fst s")
      case True
      with assms(1) i j fj have "i = j" by (metis distinct_conv_nth fst_conv length_map nth_map)
      with yi fj copied_le [OF y, of "length h"] show ?thesis by (simp add: case_prod_beta)
    next
      case False
      with Cons.prems(3) i have old: "if fst (fs ! i) \<in> D then copied (snd (fs ! i)) (length h) (h @ g) (snd (ys ! i)) (us i) else ys ! i = xs ! i"
        by blast
      have "copied (snd (fs ! i)) (length h) (h @ g) (snd (ys ! i)) (us i) \<Longrightarrow>
          copied (snd (fs ! i)) (length h) (h @ g @ e) (snd (ys ! i)) (us i)"
        using copied_append [of _ _ "h @ g" _ _ e] by simp
      moreover have "?ys ! i = ys ! i" using yi False by (cases "ys ! i") simp
      ultimately show ?thesis using old False yi by (auto simp del: nth_map)
    qed
  qed
  with Cons.IH [of ?ys "insert (fst s) D" "g @ e"] Cons.prems(1,2) obtain zs e' where
    "copy_fields ss (Struct xs) (Struct ?ys) (h @ g @ e) = Some (Struct zs, h @ e')" and "length zs = length fs"
    and "\<forall>i<length fs. fst (zs ! i) = fst (fs ! i) \<and>
      (if fst (fs ! i) \<in> insert (fst s) D \<union> fst ` set ss then copied (snd (fs ! i)) (length h) (h @ e') (snd (zs ! i)) (us i)
       else zs ! i = xs ! i)" by auto
  with get run set_f show ?case by (intro exI [of _ zs] exI [of _ e']) simp
qed

lemma deep_into:
  assumes "distinct (map fst fs)"
    and "list_all (\<lambda>(n, f). case map_of fs n of None \<Rightarrow> False | Some T \<Rightarrow> deep T f) ss"
    and "list_all (\<lambda>(n, T). n \<in> set (map fst ss) \<or> plain T) fs"
  shows "deep (StructT fs) (into ss)"
proof (rule deepI)
  fix v h t assume v: "denote (StructT fs) h v = Some t"
  then obtain xs ts where xs: "v = Struct xs" "t = TStruct ts" "length xs = length fs" "length ts = length fs"
    and fields: "\<forall>i<length fs. fst (xs ! i) = fst (fs ! i) \<and> fst (ts ! i) = fst (fs ! i) \<and>
        denote (snd (fs ! i)) h (snd (xs ! i)) = Some (snd (ts ! i))" unfolding denote_struct by blast
  have "\<forall>(n, f)\<in>set ss. \<exists>T. (n, T) \<in> set fs \<and> deep T f"
    using assms(2) by (fastforce simp: list_all_iff split: option.splits dest: map_of_SomeD)
  from copy_fields_copies [where h = h and g = "[]" and D = "{}" and ys = xs and us = "\<lambda>i. snd (ts ! i)", OF assms(1) xs(3) _ this]
  obtain zs e where run: "copy_fields ss (Struct xs) (Struct xs) h = Some (Struct zs, h @ e)" and len: "length zs = length fs"
    and finished: "\<forall>i<length fs. fst (zs ! i) = fst (fs ! i) \<and>
      (if fst (fs ! i) \<in> fst ` set ss then copied (snd (fs ! i)) (length h) (h @ e) (snd (zs ! i)) (snd (ts ! i)) else zs ! i = xs ! i)"
    using fields xs(3) by auto
  have "fst (zs ! i) = fst (fs ! i) \<and> copied (snd (fs ! i)) (length h) (h @ e) (snd (zs ! i)) (snd (ts ! i))"
    if i: "i < length fs" for i
  proof (cases "fst (fs ! i) \<in> fst ` set ss")
    case True
    with finished i show ?thesis by auto
  next
    case False
    with assms(3) i have "plain (snd (fs ! i))" by (auto simp: list_all_length case_prod_beta)
    moreover from fields i have "denote (snd (fs ! i)) h (snd (xs ! i)) = Some (snd (ts ! i))" by blast
    ultimately have "copied (snd (fs ! i)) (length h) (h @ e) (snd (xs ! i)) (snd (ts ! i))"
      by (simp add: copied_def denote_append plain_reach)
    with finished False i show ?thesis by auto
  qed
  with run xs len fields show "\<exists>w g. into ss v h = Some (w, h @ g) \<and> denote (StructT fs) (h @ g) w = Some t \<and>
    reach (StructT fs) (h @ g) w \<subseteq> {length h..<length (h @ g)}"
    by (intro exI [of _ "Struct zs"] exI [of _ e])
      (auto simp: into_def copied_def denote_struct reach.simps(4) reach_fields_index)
qed

section \<open>The API types\<close>

text \<open>The library structs that occur in the API types. A time counts as plain: the location it points to is
  never written.\<close>

datatype lib_struct =
    LTypeMeta | LObjectMeta | LListMeta | LContainer | LVolume | LRawExtension | LCondition
  | LPodTemplateSpec | LServicePort | LIntOrString | LTime

record copy_lib =
  lib_type :: "lib_struct \<Rightarrow> go_type"
  lib_copy :: "lib_struct \<Rightarrow> copier"
  time_copy :: copier

text \<open>What Kubernetes documents of its copies: they are deep, and the two structs the generated code
  assigns hold no references.\<close>

definition copy_lib_ok :: "copy_lib \<Rightarrow> bool" where
  "copy_lib_ok lib \<longleftrightarrow> plain (lib_type lib LTypeMeta) \<and> plain (lib_type lib LIntOrString) \<and>
     (\<forall>x. deep (lib_type lib x) (lib_copy lib x)) \<and> deep (PointerT (lib_type lib LTime)) (time_copy lib)"

text \<open>A value of the interface \<open>runtime.Object\<close>: nil, or a pointer with its dynamic type. A nil pointer
  with a type is not a nil interface, which is why \<open>DeepCopyObject\<close> looks at the pointer first.\<close>

datatype runtime_object = NilObject | TypedObject string go_val

definition copy_object :: "string \<Rightarrow> copier \<Rightarrow> go_val \<Rightarrow> store \<Rightarrow> (runtime_object \<times> store) option" where
  "copy_object name f v h = Option.bind (f v h) (\<lambda>(c, g).
     if c \<noteq> NilRef then Some (TypedObject name c, g) else Some (NilObject, g))"

definition AdapterScaleTargetRef_type :: "go_type" where
  "AdapterScaleTargetRef_type = StructT
     [(''Name'', StringT), (''Role'', StringT)]"

definition AdapterScaleTargetRef_DeepCopyInto :: "copier" where
  "AdapterScaleTargetRef_DeepCopyInto = into []"

definition AdapterScaleTargetRef_DeepCopy :: "copier" where
  "AdapterScaleTargetRef_DeepCopy = new_copy AdapterScaleTargetRef_type AdapterScaleTargetRef_DeepCopyInto"

definition ClusterEngineRuntimeProfileSpec_type :: "copy_lib \<Rightarrow> go_type" where
  "ClusterEngineRuntimeProfileSpec_type lib = StructT
     [(''InitContainers'', SliceT (lib_type lib LContainer)),
      (''Containers'', SliceT (lib_type lib LContainer)), (''Volumes'', SliceT (lib_type lib LVolume)),
      (''UpdateStrategy'', StringT)]"

definition ClusterEngineRuntimeProfileSpec_DeepCopyInto :: "copy_lib \<Rightarrow> copier" where
  "ClusterEngineRuntimeProfileSpec_DeepCopyInto lib = into
     [(''InitContainers'', make_copy (lib_type lib LContainer) (lib_copy lib LContainer)),
      (''Containers'', make_copy (lib_type lib LContainer) (lib_copy lib LContainer)),
      (''Volumes'', make_copy (lib_type lib LVolume) (lib_copy lib LVolume))]"

definition ClusterEngineRuntimeProfileSpec_DeepCopy :: "copy_lib \<Rightarrow> copier" where
  "ClusterEngineRuntimeProfileSpec_DeepCopy lib =
     new_copy (ClusterEngineRuntimeProfileSpec_type lib) (ClusterEngineRuntimeProfileSpec_DeepCopyInto lib)"

definition ClusterEngineRuntimeProfileStatus_type :: "go_type" where
  "ClusterEngineRuntimeProfileStatus_type = StructT []"

definition ClusterEngineRuntimeProfileStatus_DeepCopyInto :: "copier" where
  "ClusterEngineRuntimeProfileStatus_DeepCopyInto = into []"

definition ClusterEngineRuntimeProfileStatus_DeepCopy :: "copier" where
  "ClusterEngineRuntimeProfileStatus_DeepCopy =
     new_copy ClusterEngineRuntimeProfileStatus_type ClusterEngineRuntimeProfileStatus_DeepCopyInto"

definition ClusterEngineRuntimeProfile_type :: "copy_lib \<Rightarrow> go_type" where
  "ClusterEngineRuntimeProfile_type lib = StructT
     [(''TypeMeta'', lib_type lib LTypeMeta), (''ObjectMeta'', lib_type lib LObjectMeta),
      (''Spec'', ClusterEngineRuntimeProfileSpec_type lib),
      (''Status'', ClusterEngineRuntimeProfileStatus_type)]"

definition ClusterEngineRuntimeProfile_DeepCopyInto :: "copy_lib \<Rightarrow> copier" where
  "ClusterEngineRuntimeProfile_DeepCopyInto lib = into
     [(''TypeMeta'', assign), (''ObjectMeta'', lib_copy lib LObjectMeta),
      (''Spec'', ClusterEngineRuntimeProfileSpec_DeepCopyInto lib), (''Status'', assign)]"

definition ClusterEngineRuntimeProfile_DeepCopy :: "copy_lib \<Rightarrow> copier" where
  "ClusterEngineRuntimeProfile_DeepCopy lib =
     new_copy (ClusterEngineRuntimeProfile_type lib) (ClusterEngineRuntimeProfile_DeepCopyInto lib)"

definition ClusterEngineRuntimeProfile_DeepCopyObject ::
  "copy_lib \<Rightarrow> go_val \<Rightarrow> store \<Rightarrow> (runtime_object \<times> store) option" where
  "ClusterEngineRuntimeProfile_DeepCopyObject lib =
     copy_object ''ClusterEngineRuntimeProfile'' (ClusterEngineRuntimeProfile_DeepCopy lib)"

definition ClusterEngineRuntimeProfileList_type :: "copy_lib \<Rightarrow> go_type" where
  "ClusterEngineRuntimeProfileList_type lib = StructT
     [(''TypeMeta'', lib_type lib LTypeMeta), (''ListMeta'', lib_type lib LListMeta),
      (''Items'', SliceT (ClusterEngineRuntimeProfile_type lib))]"

definition ClusterEngineRuntimeProfileList_DeepCopyInto :: "copy_lib \<Rightarrow> copier" where
  "ClusterEngineRuntimeProfileList_DeepCopyInto lib = into
     [(''TypeMeta'', assign), (''ListMeta'', lib_copy lib LListMeta),
      (''Items'', make_copy (ClusterEngineRuntimeProfile_type lib) (ClusterEngineRuntimeProfile_DeepCopyInto lib))]"

definition ClusterEngineRuntimeProfileList_DeepCopy :: "copy_lib \<Rightarrow> copier" where
  "ClusterEngineRuntimeProfileList_DeepCopy lib =
     new_copy (ClusterEngineRuntimeProfileList_type lib) (ClusterEngineRuntimeProfileList_DeepCopyInto lib)"

definition ClusterEngineRuntimeProfileList_DeepCopyObject ::
  "copy_lib \<Rightarrow> go_val \<Rightarrow> store \<Rightarrow> (runtime_object \<times> store) option" where
  "ClusterEngineRuntimeProfileList_DeepCopyObject lib =
     copy_object ''ClusterEngineRuntimeProfileList'' (ClusterEngineRuntimeProfileList_DeepCopy lib)"

definition EngineRuntime_type :: "copy_lib \<Rightarrow> go_type" where
  "EngineRuntime_type lib = StructT
     [(''ProfileName'', StringT), (''InjectContainers'', SliceT StringT),
      (''Containers'', SliceT (lib_type lib LContainer))]"

definition EngineRuntime_DeepCopyInto :: "copy_lib \<Rightarrow> copier" where
  "EngineRuntime_DeepCopyInto lib = into
     [(''InjectContainers'', make_copy StringT assign),
      (''Containers'', make_copy (lib_type lib LContainer) (lib_copy lib LContainer))]"

definition EngineRuntime_DeepCopy :: "copy_lib \<Rightarrow> copier" where
  "EngineRuntime_DeepCopy lib = new_copy (EngineRuntime_type lib) (EngineRuntime_DeepCopyInto lib)"

definition KubeSchedulingPodGroupPolicySource_type :: "go_type" where
  "KubeSchedulingPodGroupPolicySource_type = StructT
     [(''ScheduleTimeoutSeconds'', PointerT IntT)]"

definition KubeSchedulingPodGroupPolicySource_DeepCopyInto :: "copier" where
  "KubeSchedulingPodGroupPolicySource_DeepCopyInto = into
     [(''ScheduleTimeoutSeconds'', new_copy IntT assign)]"

definition KubeSchedulingPodGroupPolicySource_DeepCopy :: "copier" where
  "KubeSchedulingPodGroupPolicySource_DeepCopy =
     new_copy KubeSchedulingPodGroupPolicySource_type KubeSchedulingPodGroupPolicySource_DeepCopyInto"

definition LeaderWorkerTemplate_type :: "copy_lib \<Rightarrow> go_type" where
  "LeaderWorkerTemplate_type lib = StructT
     [(''Size'', PointerT IntT), (''PatchLeaderTemplate'', lib_type lib LRawExtension),
      (''PatchWorkerTemplate'', lib_type lib LRawExtension)]"

definition LeaderWorkerTemplate_DeepCopyInto :: "copy_lib \<Rightarrow> copier" where
  "LeaderWorkerTemplate_DeepCopyInto lib = into
     [(''Size'', new_copy IntT assign), (''PatchLeaderTemplate'', lib_copy lib LRawExtension),
      (''PatchWorkerTemplate'', lib_copy lib LRawExtension)]"

definition LeaderWorkerTemplate_DeepCopy :: "copy_lib \<Rightarrow> copier" where
  "LeaderWorkerTemplate_DeepCopy lib =
     new_copy (LeaderWorkerTemplate_type lib) (LeaderWorkerTemplate_DeepCopyInto lib)"

definition PodGroupPolicySource_type :: "go_type" where
  "PodGroupPolicySource_type = StructT
     [(''KubeScheduling'', PointerT KubeSchedulingPodGroupPolicySource_type)]"

definition PodGroupPolicySource_DeepCopyInto :: "copier" where
  "PodGroupPolicySource_DeepCopyInto = into
     [(''KubeScheduling'', new_copy KubeSchedulingPodGroupPolicySource_type KubeSchedulingPodGroupPolicySource_DeepCopyInto)]"

definition PodGroupPolicySource_DeepCopy :: "copier" where
  "PodGroupPolicySource_DeepCopy = new_copy PodGroupPolicySource_type PodGroupPolicySource_DeepCopyInto"

definition PodGroupPolicy_type :: "go_type" where
  "PodGroupPolicy_type = StructT
     [(''PodGroupPolicySource'', PodGroupPolicySource_type)]"

definition PodGroupPolicy_DeepCopyInto :: "copier" where
  "PodGroupPolicy_DeepCopyInto = into
     [(''PodGroupPolicySource'', PodGroupPolicySource_DeepCopyInto)]"

definition PodGroupPolicy_DeepCopy :: "copier" where
  "PodGroupPolicy_DeepCopy = new_copy PodGroupPolicy_type PodGroupPolicy_DeepCopyInto"

definition RollingUpdate_type :: "copy_lib \<Rightarrow> go_type" where
  "RollingUpdate_type lib = StructT
     [(''MaxUnavailable'', lib_type lib LIntOrString), (''MaxSurge'', lib_type lib LIntOrString)]"

definition RollingUpdate_DeepCopyInto :: "copier" where
  "RollingUpdate_DeepCopyInto = into
     [(''MaxUnavailable'', assign), (''MaxSurge'', assign)]"

definition RollingUpdate_DeepCopy :: "copy_lib \<Rightarrow> copier" where
  "RollingUpdate_DeepCopy lib = new_copy (RollingUpdate_type lib) RollingUpdate_DeepCopyInto"

definition RolloutStrategy_type :: "copy_lib \<Rightarrow> go_type" where
  "RolloutStrategy_type lib = StructT
     [(''Type'', StringT), (''RollingUpdate'', PointerT (RollingUpdate_type lib))]"

definition RolloutStrategy_DeepCopyInto :: "copy_lib \<Rightarrow> copier" where
  "RolloutStrategy_DeepCopyInto lib = into
     [(''RollingUpdate'', new_copy (RollingUpdate_type lib) assign)]"

definition RolloutStrategy_DeepCopy :: "copy_lib \<Rightarrow> copier" where
  "RolloutStrategy_DeepCopy lib = new_copy (RolloutStrategy_type lib) (RolloutStrategy_DeepCopyInto lib)"

definition WorkloadSpec_type :: "go_type" where
  "WorkloadSpec_type = StructT
     [(''APIVersion'', StringT), (''Kind'', StringT)]"

definition WorkloadSpec_DeepCopyInto :: "copier" where
  "WorkloadSpec_DeepCopyInto = into []"

definition WorkloadSpec_DeepCopy :: "copier" where
  "WorkloadSpec_DeepCopy = new_copy WorkloadSpec_type WorkloadSpec_DeepCopyInto"

definition ScalingAdapter_type :: "go_type" where
  "ScalingAdapter_type = StructT
     [(''Enable'', BoolT)]"

definition ScalingAdapter_DeepCopyInto :: "copier" where
  "ScalingAdapter_DeepCopyInto = into []"

definition ScalingAdapter_DeepCopy :: "copier" where
  "ScalingAdapter_DeepCopy = new_copy ScalingAdapter_type ScalingAdapter_DeepCopyInto"

definition RoleSpec_type :: "copy_lib \<Rightarrow> go_type" where
  "RoleSpec_type lib = StructT
     [(''Name'', StringT), (''Replicas'', PointerT IntT),
      (''RolloutStrategy'', PointerT (RolloutStrategy_type lib)), (''RestartPolicy'', StringT),
      (''Dependencies'', SliceT StringT), (''Workload'', WorkloadSpec_type),
      (''Template'', lib_type lib LPodTemplateSpec), (''LeaderWorkerSet'', LeaderWorkerTemplate_type lib),
      (''ServicePorts'', SliceT (lib_type lib LServicePort)),
      (''EngineRuntimes'', SliceT (EngineRuntime_type lib)),
      (''ScalingAdapter'', PointerT ScalingAdapter_type)]"

definition RoleSpec_DeepCopyInto :: "copy_lib \<Rightarrow> copier" where
  "RoleSpec_DeepCopyInto lib = into
     [(''Replicas'', new_copy IntT assign),
      (''RolloutStrategy'', new_copy (RolloutStrategy_type lib) (RolloutStrategy_DeepCopyInto lib)),
      (''Dependencies'', make_copy StringT assign), (''Workload'', assign),
      (''Template'', lib_copy lib LPodTemplateSpec),
      (''LeaderWorkerSet'', LeaderWorkerTemplate_DeepCopyInto lib),
      (''ServicePorts'', make_copy (lib_type lib LServicePort) (lib_copy lib LServicePort)),
      (''EngineRuntimes'', make_copy (EngineRuntime_type lib) (EngineRuntime_DeepCopyInto lib)),
      (''ScalingAdapter'', new_copy ScalingAdapter_type assign)]"

definition RoleSpec_DeepCopy :: "copy_lib \<Rightarrow> copier" where
  "RoleSpec_DeepCopy lib = new_copy (RoleSpec_type lib) (RoleSpec_DeepCopyInto lib)"

definition RoleBasedGroupSpec_type :: "copy_lib \<Rightarrow> go_type" where
  "RoleBasedGroupSpec_type lib = StructT
     [(''Roles'', SliceT (RoleSpec_type lib)), (''PodGroupPolicy'', PointerT PodGroupPolicy_type)]"

definition RoleBasedGroupSpec_DeepCopyInto :: "copy_lib \<Rightarrow> copier" where
  "RoleBasedGroupSpec_DeepCopyInto lib = into
     [(''Roles'', make_copy (RoleSpec_type lib) (RoleSpec_DeepCopyInto lib)),
      (''PodGroupPolicy'', new_copy PodGroupPolicy_type PodGroupPolicy_DeepCopyInto)]"

definition RoleBasedGroupSpec_DeepCopy :: "copy_lib \<Rightarrow> copier" where
  "RoleBasedGroupSpec_DeepCopy lib =
     new_copy (RoleBasedGroupSpec_type lib) (RoleBasedGroupSpec_DeepCopyInto lib)"

definition RoleStatus_type :: "go_type" where
  "RoleStatus_type = StructT
     [(''Name'', StringT), (''ReadyReplicas'', IntT), (''Replicas'', IntT)]"

definition RoleStatus_DeepCopyInto :: "copier" where
  "RoleStatus_DeepCopyInto = into []"

definition RoleStatus_DeepCopy :: "copier" where
  "RoleStatus_DeepCopy = new_copy RoleStatus_type RoleStatus_DeepCopyInto"

definition RoleBasedGroupStatus_type :: "copy_lib \<Rightarrow> go_type" where
  "RoleBasedGroupStatus_type lib = StructT
     [(''ObservedGeneration'', IntT), (''Conditions'', SliceT (lib_type lib LCondition)),
      (''RoleStatuses'', SliceT RoleStatus_type)]"

definition RoleBasedGroupStatus_DeepCopyInto :: "copy_lib \<Rightarrow> copier" where
  "RoleBasedGroupStatus_DeepCopyInto lib = into
     [(''Conditions'', make_copy (lib_type lib LCondition) (lib_copy lib LCondition)),
      (''RoleStatuses'', make_copy RoleStatus_type assign)]"

definition RoleBasedGroupStatus_DeepCopy :: "copy_lib \<Rightarrow> copier" where
  "RoleBasedGroupStatus_DeepCopy lib =
     new_copy (RoleBasedGroupStatus_type lib) (RoleBasedGroupStatus_DeepCopyInto lib)"

definition RoleBasedGroup_type :: "copy_lib \<Rightarrow> go_type" where
  "RoleBasedGroup_type lib = StructT
     [(''TypeMeta'', lib_type lib LTypeMeta), (''ObjectMeta'', lib_type lib LObjectMeta),
      (''Spec'', RoleBasedGroupSpec_type lib), (''Status'', RoleBasedGroupStatus_type lib)]"

definition RoleBasedGroup_DeepCopyInto :: "copy_lib \<Rightarrow> copier" where
  "RoleBasedGroup_DeepCopyInto lib = into
     [(''TypeMeta'', assign), (''ObjectMeta'', lib_copy lib LObjectMeta),
      (''Spec'', RoleBasedGroupSpec_DeepCopyInto lib), (''Status'', RoleBasedGroupStatus_DeepCopyInto lib)]"

definition RoleBasedGroup_DeepCopy :: "copy_lib \<Rightarrow> copier" where
  "RoleBasedGroup_DeepCopy lib = new_copy (RoleBasedGroup_type lib) (RoleBasedGroup_DeepCopyInto lib)"

definition RoleBasedGroup_DeepCopyObject ::
  "copy_lib \<Rightarrow> go_val \<Rightarrow> store \<Rightarrow> (runtime_object \<times> store) option" where
  "RoleBasedGroup_DeepCopyObject lib = copy_object ''RoleBasedGroup'' (RoleBasedGroup_DeepCopy lib)"

definition RoleBasedGroupList_type :: "copy_lib \<Rightarrow> go_type" where
  "RoleBasedGroupList_type lib = StructT
     [(''TypeMeta'', lib_type lib LTypeMeta), (''ListMeta'', lib_type lib LListMeta),
      (''Items'', SliceT (RoleBasedGroup_type lib))]"

definition RoleBasedGroupList_DeepCopyInto :: "copy_lib \<Rightarrow> copier" where
  "RoleBasedGroupList_DeepCopyInto lib = into
     [(''TypeMeta'', assign), (''ListMeta'', lib_copy lib LListMeta),
      (''Items'', make_copy (RoleBasedGroup_type lib) (RoleBasedGroup_DeepCopyInto lib))]"

definition RoleBasedGroupList_DeepCopy :: "copy_lib \<Rightarrow> copier" where
  "RoleBasedGroupList_DeepCopy lib =
     new_copy (RoleBasedGroupList_type lib) (RoleBasedGroupList_DeepCopyInto lib)"

definition RoleBasedGroupList_DeepCopyObject ::
  "copy_lib \<Rightarrow> go_val \<Rightarrow> store \<Rightarrow> (runtime_object \<times> store) option" where
  "RoleBasedGroupList_DeepCopyObject lib =
     copy_object ''RoleBasedGroupList'' (RoleBasedGroupList_DeepCopy lib)"

definition RoleBasedGroupScalingAdapterSpec_type :: "go_type" where
  "RoleBasedGroupScalingAdapterSpec_type = StructT
     [(''Replicas'', PointerT IntT), (''ScaleTargetRef'', PointerT AdapterScaleTargetRef_type)]"

definition RoleBasedGroupScalingAdapterSpec_DeepCopyInto :: "copier" where
  "RoleBasedGroupScalingAdapterSpec_DeepCopyInto = into
     [(''Replicas'', new_copy IntT assign),
      (''ScaleTargetRef'', new_copy AdapterScaleTargetRef_type assign)]"

definition RoleBasedGroupScalingAdapterSpec_DeepCopy :: "copier" where
  "RoleBasedGroupScalingAdapterSpec_DeepCopy =
     new_copy RoleBasedGroupScalingAdapterSpec_type RoleBasedGroupScalingAdapterSpec_DeepCopyInto"

definition RoleBasedGroupScalingAdapterStatus_type :: "copy_lib \<Rightarrow> go_type" where
  "RoleBasedGroupScalingAdapterStatus_type lib = StructT
     [(''Phase'', StringT), (''Replicas'', PointerT IntT), (''Selector'', StringT),
      (''LastScaleTime'', PointerT (lib_type lib LTime))]"

definition RoleBasedGroupScalingAdapterStatus_DeepCopyInto :: "copy_lib \<Rightarrow> copier" where
  "RoleBasedGroupScalingAdapterStatus_DeepCopyInto lib = into
     [(''Replicas'', new_copy IntT assign), (''LastScaleTime'', time_copy lib)]"

definition RoleBasedGroupScalingAdapterStatus_DeepCopy :: "copy_lib \<Rightarrow> copier" where
  "RoleBasedGroupScalingAdapterStatus_DeepCopy lib =
     new_copy (RoleBasedGroupScalingAdapterStatus_type lib) (RoleBasedGroupScalingAdapterStatus_DeepCopyInto lib)"

definition RoleBasedGroupScalingAdapter_type :: "copy_lib \<Rightarrow> go_type" where
  "RoleBasedGroupScalingAdapter_type lib = StructT
     [(''TypeMeta'', lib_type lib LTypeMeta), (''ObjectMeta'', lib_type lib LObjectMeta),
      (''Spec'', RoleBasedGroupScalingAdapterSpec_type),
      (''Status'', RoleBasedGroupScalingAdapterStatus_type lib)]"

definition RoleBasedGroupScalingAdapter_DeepCopyInto :: "copy_lib \<Rightarrow> copier" where
  "RoleBasedGroupScalingAdapter_DeepCopyInto lib = into
     [(''TypeMeta'', assign), (''ObjectMeta'', lib_copy lib LObjectMeta),
      (''Spec'', RoleBasedGroupScalingAdapterSpec_DeepCopyInto),
      (''Status'', RoleBasedGroupScalingAdapterStatus_DeepCopyInto lib)]"

definition RoleBasedGroupScalingAdapter_DeepCopy :: "copy_lib \<Rightarrow> copier" where
  "RoleBasedGroupScalingAdapter_DeepCopy lib =
     new_copy (RoleBasedGroupScalingAdapter_type lib) (RoleBasedGroupScalingAdapter_DeepCopyInto lib)"

definition RoleBasedGroupScalingAdapter_DeepCopyObject ::
  "copy_lib \<Rightarrow> go_val \<Rightarrow> store \<Rightarrow> (runtime_object \<times> store) option" where
  "RoleBasedGroupScalingAdapter_DeepCopyObject lib =
     copy_object ''RoleBasedGroupScalingAdapter'' (RoleBasedGroupScalingAdapter_DeepCopy lib)"

definition RoleBasedGroupScalingAdapterList_type :: "copy_lib \<Rightarrow> go_type" where
  "RoleBasedGroupScalingAdapterList_type lib = StructT
     [(''TypeMeta'', lib_type lib LTypeMeta), (''ListMeta'', lib_type lib LListMeta),
      (''Items'', SliceT (RoleBasedGroupScalingAdapter_type lib))]"

definition RoleBasedGroupScalingAdapterList_DeepCopyInto :: "copy_lib \<Rightarrow> copier" where
  "RoleBasedGroupScalingAdapterList_DeepCopyInto lib = into
     [(''TypeMeta'', assign), (''ListMeta'', lib_copy lib LListMeta),
      (''Items'', make_copy (RoleBasedGroupScalingAdapter_type lib) (RoleBasedGroupScalingAdapter_DeepCopyInto lib))]"

definition RoleBasedGroupScalingAdapterList_DeepCopy :: "copy_lib \<Rightarrow> copier" where
  "RoleBasedGroupScalingAdapterList_DeepCopy lib =
     new_copy (RoleBasedGroupScalingAdapterList_type lib) (RoleBasedGroupScalingAdapterList_DeepCopyInto lib)"

definition RoleBasedGroupScalingAdapterList_DeepCopyObject ::
  "copy_lib \<Rightarrow> go_val \<Rightarrow> store \<Rightarrow> (runtime_object \<times> store) option" where
  "RoleBasedGroupScalingAdapterList_DeepCopyObject lib =
     copy_object ''RoleBasedGroupScalingAdapterList'' (RoleBasedGroupScalingAdapterList_DeepCopy lib)"

definition RoleBasedGroupSetSpec_type :: "copy_lib \<Rightarrow> go_type" where
  "RoleBasedGroupSetSpec_type lib = StructT
     [(''Replicas'', PointerT IntT), (''Template'', RoleBasedGroupSpec_type lib)]"

definition RoleBasedGroupSetSpec_DeepCopyInto :: "copy_lib \<Rightarrow> copier" where
  "RoleBasedGroupSetSpec_DeepCopyInto lib = into
     [(''Replicas'', new_copy IntT assign), (''Template'', RoleBasedGroupSpec_DeepCopyInto lib)]"

definition RoleBasedGroupSetSpec_DeepCopy :: "copy_lib \<Rightarrow> copier" where
  "RoleBasedGroupSetSpec_DeepCopy lib =
     new_copy (RoleBasedGroupSetSpec_type lib) (RoleBasedGroupSetSpec_DeepCopyInto lib)"

definition RoleBasedGroupSetStatus_type :: "copy_lib \<Rightarrow> go_type" where
  "RoleBasedGroupSetStatus_type lib = StructT
     [(''ObservedGeneration'', IntT), (''Replicas'', IntT),
      (''Conditions'', SliceT (lib_type lib LCondition))]"

definition RoleBasedGroupSetStatus_DeepCopyInto :: "copy_lib \<Rightarrow> copier" where
  "RoleBasedGroupSetStatus_DeepCopyInto lib = into
     [(''Conditions'', make_copy (lib_type lib LCondition) (lib_copy lib LCondition))]"

definition RoleBasedGroupSetStatus_DeepCopy :: "copy_lib \<Rightarrow> copier" where
  "RoleBasedGroupSetStatus_DeepCopy lib =
     new_copy (RoleBasedGroupSetStatus_type lib) (RoleBasedGroupSetStatus_DeepCopyInto lib)"

definition RoleBasedGroupSet_type :: "copy_lib \<Rightarrow> go_type" where
  "RoleBasedGroupSet_type lib = StructT
     [(''TypeMeta'', lib_type lib LTypeMeta), (''ObjectMeta'', lib_type lib LObjectMeta),
      (''Spec'', RoleBasedGroupSetSpec_type lib), (''Status'', RoleBasedGroupSetStatus_type lib)]"

definition RoleBasedGroupSet_DeepCopyInto :: "copy_lib \<Rightarrow> copier" where
  "RoleBasedGroupSet_DeepCopyInto lib = into
     [(''TypeMeta'', assign), (''ObjectMeta'', lib_copy lib LObjectMeta),
      (''Spec'', RoleBasedGroupSetSpec_DeepCopyInto lib),
      (''Status'', RoleBasedGroupSetStatus_DeepCopyInto lib)]"

definition RoleBasedGroupSet_DeepCopy :: "copy_lib \<Rightarrow> copier" where
  "RoleBasedGroupSet_DeepCopy lib =
     new_copy (RoleBasedGroupSet_type lib) (RoleBasedGroupSet_DeepCopyInto lib)"

definition RoleBasedGroupSet_DeepCopyObject ::
  "copy_lib \<Rightarrow> go_val \<Rightarrow> store \<Rightarrow> (runtime_object \<times> store) option" where
  "RoleBasedGroupSet_DeepCopyObject lib = copy_object ''RoleBasedGroupSet'' (RoleBasedGroupSet_DeepCopy lib)"

definition RoleBasedGroupSetList_type :: "copy_lib \<Rightarrow> go_type" where
  "RoleBasedGroupSetList_type lib = StructT
     [(''TypeMeta'', lib_type lib LTypeMeta), (''ListMeta'', lib_type lib LListMeta),
      (''Items'', SliceT (RoleBasedGroupSet_type lib))]"

definition RoleBasedGroupSetList_DeepCopyInto :: "copy_lib \<Rightarrow> copier" where
  "RoleBasedGroupSetList_DeepCopyInto lib = into
     [(''TypeMeta'', assign), (''ListMeta'', lib_copy lib LListMeta),
      (''Items'', make_copy (RoleBasedGroupSet_type lib) (RoleBasedGroupSet_DeepCopyInto lib))]"

definition RoleBasedGroupSetList_DeepCopy :: "copy_lib \<Rightarrow> copier" where
  "RoleBasedGroupSetList_DeepCopy lib =
     new_copy (RoleBasedGroupSetList_type lib) (RoleBasedGroupSetList_DeepCopyInto lib)"

definition RoleBasedGroupSetList_DeepCopyObject ::
  "copy_lib \<Rightarrow> go_val \<Rightarrow> store \<Rightarrow> (runtime_object \<times> store) option" where
  "RoleBasedGroupSetList_DeepCopyObject lib =
     copy_object ''RoleBasedGroupSetList'' (RoleBasedGroupSetList_DeepCopy lib)"

text \<open>All types of the package with their copies, and those that are objects of the API.\<close>

definition api_copies :: "copy_lib \<Rightarrow> (go_type \<times> copier) list" where
  "api_copies lib =
     [(AdapterScaleTargetRef_type, AdapterScaleTargetRef_DeepCopy),
      (ClusterEngineRuntimeProfileSpec_type lib, ClusterEngineRuntimeProfileSpec_DeepCopy lib),
      (ClusterEngineRuntimeProfileStatus_type, ClusterEngineRuntimeProfileStatus_DeepCopy),
      (ClusterEngineRuntimeProfile_type lib, ClusterEngineRuntimeProfile_DeepCopy lib),
      (ClusterEngineRuntimeProfileList_type lib, ClusterEngineRuntimeProfileList_DeepCopy lib),
      (EngineRuntime_type lib, EngineRuntime_DeepCopy lib),
      (KubeSchedulingPodGroupPolicySource_type, KubeSchedulingPodGroupPolicySource_DeepCopy),
      (LeaderWorkerTemplate_type lib, LeaderWorkerTemplate_DeepCopy lib),
      (PodGroupPolicySource_type, PodGroupPolicySource_DeepCopy),
      (PodGroupPolicy_type, PodGroupPolicy_DeepCopy),
      (RollingUpdate_type lib, RollingUpdate_DeepCopy lib),
      (RolloutStrategy_type lib, RolloutStrategy_DeepCopy lib),
      (WorkloadSpec_type, WorkloadSpec_DeepCopy),
      (ScalingAdapter_type, ScalingAdapter_DeepCopy),
      (RoleSpec_type lib, RoleSpec_DeepCopy lib),
      (RoleBasedGroupSpec_type lib, RoleBasedGroupSpec_DeepCopy lib),
      (RoleStatus_type, RoleStatus_DeepCopy),
      (RoleBasedGroupStatus_type lib, RoleBasedGroupStatus_DeepCopy lib),
      (RoleBasedGroup_type lib, RoleBasedGroup_DeepCopy lib),
      (RoleBasedGroupList_type lib, RoleBasedGroupList_DeepCopy lib),
      (RoleBasedGroupScalingAdapterSpec_type, RoleBasedGroupScalingAdapterSpec_DeepCopy),
      (RoleBasedGroupScalingAdapterStatus_type lib, RoleBasedGroupScalingAdapterStatus_DeepCopy lib),
      (RoleBasedGroupScalingAdapter_type lib, RoleBasedGroupScalingAdapter_DeepCopy lib),
      (RoleBasedGroupScalingAdapterList_type lib, RoleBasedGroupScalingAdapterList_DeepCopy lib),
      (RoleBasedGroupSetSpec_type lib, RoleBasedGroupSetSpec_DeepCopy lib),
      (RoleBasedGroupSetStatus_type lib, RoleBasedGroupSetStatus_DeepCopy lib),
      (RoleBasedGroupSet_type lib, RoleBasedGroupSet_DeepCopy lib),
      (RoleBasedGroupSetList_type lib, RoleBasedGroupSetList_DeepCopy lib)]"

definition api_objects :: "copy_lib \<Rightarrow> (string \<times> copier \<times> (go_val \<Rightarrow> store \<Rightarrow> (runtime_object \<times> store) option)) list" where
  "api_objects lib =
     [(''ClusterEngineRuntimeProfile'', ClusterEngineRuntimeProfile_DeepCopy lib, ClusterEngineRuntimeProfile_DeepCopyObject lib),
      (''ClusterEngineRuntimeProfileList'', ClusterEngineRuntimeProfileList_DeepCopy lib, ClusterEngineRuntimeProfileList_DeepCopyObject lib),
      (''RoleBasedGroup'', RoleBasedGroup_DeepCopy lib, RoleBasedGroup_DeepCopyObject lib),
      (''RoleBasedGroupList'', RoleBasedGroupList_DeepCopy lib, RoleBasedGroupList_DeepCopyObject lib),
      (''RoleBasedGroupScalingAdapter'', RoleBasedGroupScalingAdapter_DeepCopy lib, RoleBasedGroupScalingAdapter_DeepCopyObject lib),
      (''RoleBasedGroupScalingAdapterList'', RoleBasedGroupScalingAdapterList_DeepCopy lib, RoleBasedGroupScalingAdapterList_DeepCopyObject lib),
      (''RoleBasedGroupSet'', RoleBasedGroupSet_DeepCopy lib, RoleBasedGroupSet_DeepCopyObject lib),
      (''RoleBasedGroupSetList'', RoleBasedGroupSetList_DeepCopy lib, RoleBasedGroupSetList_DeepCopyObject lib)]"

section \<open>Every copy of the package is deep\<close>

named_theorems deep_copies \<open>the copies known to be deep and the types known to be plain\<close>

lemma plain_AdapterScaleTargetRef [deep_copies]: "plain AdapterScaleTargetRef_type"
  by (simp add: AdapterScaleTargetRef_type_def)

lemma plain_ClusterEngineRuntimeProfileStatus [deep_copies]: "plain ClusterEngineRuntimeProfileStatus_type"
  by (simp add: ClusterEngineRuntimeProfileStatus_type_def)

lemma plain_WorkloadSpec [deep_copies]: "plain WorkloadSpec_type"
  by (simp add: WorkloadSpec_type_def)

lemma plain_ScalingAdapter [deep_copies]: "plain ScalingAdapter_type"
  by (simp add: ScalingAdapter_type_def)

lemma plain_RoleStatus [deep_copies]: "plain RoleStatus_type"
  by (simp add: RoleStatus_type_def)

lemma plain_RollingUpdate [deep_copies]: "copy_lib_ok lib \<Longrightarrow> plain (RollingUpdate_type lib)"
  by (simp add: RollingUpdate_type_def copy_lib_ok_def)

lemma deep_library [deep_copies]:
  "copy_lib_ok lib \<Longrightarrow> deep (lib_type lib x) (lib_copy lib x)"
  "copy_lib_ok lib \<Longrightarrow> deep (PointerT (lib_type lib LTime)) (time_copy lib)"
  "copy_lib_ok lib \<Longrightarrow> plain (lib_type lib LTypeMeta)"
  "copy_lib_ok lib \<Longrightarrow> plain (lib_type lib LIntOrString)"
  by (simp_all add: copy_lib_ok_def)

lemmas deep_statements = deep_assign deep_new_copy deep_make_copy

lemma deep_AdapterScaleTargetRef [deep_copies]:
  "deep AdapterScaleTargetRef_type AdapterScaleTargetRef_DeepCopyInto"
  unfolding AdapterScaleTargetRef_type_def AdapterScaleTargetRef_DeepCopyInto_def
  by (rule deep_into) (simp_all add: deep_copies deep_statements)

lemma deep_ClusterEngineRuntimeProfileSpec [deep_copies]:
  "copy_lib_ok lib \<Longrightarrow> deep (ClusterEngineRuntimeProfileSpec_type lib) (ClusterEngineRuntimeProfileSpec_DeepCopyInto lib)"
  unfolding ClusterEngineRuntimeProfileSpec_type_def ClusterEngineRuntimeProfileSpec_DeepCopyInto_def
  by (rule deep_into) (simp_all add: deep_copies deep_statements)

lemma deep_ClusterEngineRuntimeProfileStatus [deep_copies]:
  "deep ClusterEngineRuntimeProfileStatus_type ClusterEngineRuntimeProfileStatus_DeepCopyInto"
  unfolding ClusterEngineRuntimeProfileStatus_type_def ClusterEngineRuntimeProfileStatus_DeepCopyInto_def
  by (rule deep_into) (simp_all add: deep_copies deep_statements)

lemma deep_ClusterEngineRuntimeProfile [deep_copies]:
  "copy_lib_ok lib \<Longrightarrow> deep (ClusterEngineRuntimeProfile_type lib) (ClusterEngineRuntimeProfile_DeepCopyInto lib)"
  unfolding ClusterEngineRuntimeProfile_type_def ClusterEngineRuntimeProfile_DeepCopyInto_def
  by (rule deep_into) (simp_all add: deep_copies deep_statements)

lemma deep_ClusterEngineRuntimeProfileList [deep_copies]:
  "copy_lib_ok lib \<Longrightarrow> deep (ClusterEngineRuntimeProfileList_type lib) (ClusterEngineRuntimeProfileList_DeepCopyInto lib)"
  unfolding ClusterEngineRuntimeProfileList_type_def ClusterEngineRuntimeProfileList_DeepCopyInto_def
  by (rule deep_into) (simp_all add: deep_copies deep_statements)

lemma deep_EngineRuntime [deep_copies]:
  "copy_lib_ok lib \<Longrightarrow> deep (EngineRuntime_type lib) (EngineRuntime_DeepCopyInto lib)"
  unfolding EngineRuntime_type_def EngineRuntime_DeepCopyInto_def
  by (rule deep_into) (simp_all add: deep_copies deep_statements)

lemma deep_KubeSchedulingPodGroupPolicySource [deep_copies]:
  "deep KubeSchedulingPodGroupPolicySource_type KubeSchedulingPodGroupPolicySource_DeepCopyInto"
  unfolding KubeSchedulingPodGroupPolicySource_type_def KubeSchedulingPodGroupPolicySource_DeepCopyInto_def
  by (rule deep_into) (simp_all add: deep_copies deep_statements)

lemma deep_LeaderWorkerTemplate [deep_copies]:
  "copy_lib_ok lib \<Longrightarrow> deep (LeaderWorkerTemplate_type lib) (LeaderWorkerTemplate_DeepCopyInto lib)"
  unfolding LeaderWorkerTemplate_type_def LeaderWorkerTemplate_DeepCopyInto_def
  by (rule deep_into) (simp_all add: deep_copies deep_statements)

lemma deep_PodGroupPolicySource [deep_copies]:
  "deep PodGroupPolicySource_type PodGroupPolicySource_DeepCopyInto"
  unfolding PodGroupPolicySource_type_def PodGroupPolicySource_DeepCopyInto_def
  by (rule deep_into) (simp_all add: deep_copies deep_statements)

lemma deep_PodGroupPolicy [deep_copies]:
  "deep PodGroupPolicy_type PodGroupPolicy_DeepCopyInto"
  unfolding PodGroupPolicy_type_def PodGroupPolicy_DeepCopyInto_def
  by (rule deep_into) (simp_all add: deep_copies deep_statements)

lemma deep_RollingUpdate [deep_copies]:
  "copy_lib_ok lib \<Longrightarrow> deep (RollingUpdate_type lib) RollingUpdate_DeepCopyInto"
  unfolding RollingUpdate_type_def RollingUpdate_DeepCopyInto_def
  by (rule deep_into) (simp_all add: deep_copies deep_statements)

lemma deep_RolloutStrategy [deep_copies]:
  "copy_lib_ok lib \<Longrightarrow> deep (RolloutStrategy_type lib) (RolloutStrategy_DeepCopyInto lib)"
  unfolding RolloutStrategy_type_def RolloutStrategy_DeepCopyInto_def
  by (rule deep_into) (simp_all add: deep_copies deep_statements)

lemma deep_WorkloadSpec [deep_copies]:
  "deep WorkloadSpec_type WorkloadSpec_DeepCopyInto"
  unfolding WorkloadSpec_type_def WorkloadSpec_DeepCopyInto_def
  by (rule deep_into) (simp_all add: deep_copies deep_statements)

lemma deep_ScalingAdapter [deep_copies]:
  "deep ScalingAdapter_type ScalingAdapter_DeepCopyInto"
  unfolding ScalingAdapter_type_def ScalingAdapter_DeepCopyInto_def
  by (rule deep_into) (simp_all add: deep_copies deep_statements)

lemma deep_RoleSpec [deep_copies]:
  "copy_lib_ok lib \<Longrightarrow> deep (RoleSpec_type lib) (RoleSpec_DeepCopyInto lib)"
  unfolding RoleSpec_type_def RoleSpec_DeepCopyInto_def
  by (rule deep_into) (simp_all add: deep_copies deep_statements)

lemma deep_RoleBasedGroupSpec [deep_copies]:
  "copy_lib_ok lib \<Longrightarrow> deep (RoleBasedGroupSpec_type lib) (RoleBasedGroupSpec_DeepCopyInto lib)"
  unfolding RoleBasedGroupSpec_type_def RoleBasedGroupSpec_DeepCopyInto_def
  by (rule deep_into) (simp_all add: deep_copies deep_statements)

lemma deep_RoleStatus [deep_copies]:
  "deep RoleStatus_type RoleStatus_DeepCopyInto"
  unfolding RoleStatus_type_def RoleStatus_DeepCopyInto_def
  by (rule deep_into) (simp_all add: deep_copies deep_statements)

lemma deep_RoleBasedGroupStatus [deep_copies]:
  "copy_lib_ok lib \<Longrightarrow> deep (RoleBasedGroupStatus_type lib) (RoleBasedGroupStatus_DeepCopyInto lib)"
  unfolding RoleBasedGroupStatus_type_def RoleBasedGroupStatus_DeepCopyInto_def
  by (rule deep_into) (simp_all add: deep_copies deep_statements)

lemma deep_RoleBasedGroup [deep_copies]:
  "copy_lib_ok lib \<Longrightarrow> deep (RoleBasedGroup_type lib) (RoleBasedGroup_DeepCopyInto lib)"
  unfolding RoleBasedGroup_type_def RoleBasedGroup_DeepCopyInto_def
  by (rule deep_into) (simp_all add: deep_copies deep_statements)

lemma deep_RoleBasedGroupList [deep_copies]:
  "copy_lib_ok lib \<Longrightarrow> deep (RoleBasedGroupList_type lib) (RoleBasedGroupList_DeepCopyInto lib)"
  unfolding RoleBasedGroupList_type_def RoleBasedGroupList_DeepCopyInto_def
  by (rule deep_into) (simp_all add: deep_copies deep_statements)

lemma deep_RoleBasedGroupScalingAdapterSpec [deep_copies]:
  "deep RoleBasedGroupScalingAdapterSpec_type RoleBasedGroupScalingAdapterSpec_DeepCopyInto"
  unfolding RoleBasedGroupScalingAdapterSpec_type_def RoleBasedGroupScalingAdapterSpec_DeepCopyInto_def
  by (rule deep_into) (simp_all add: deep_copies deep_statements)

lemma deep_RoleBasedGroupScalingAdapterStatus [deep_copies]:
  "copy_lib_ok lib \<Longrightarrow> deep (RoleBasedGroupScalingAdapterStatus_type lib) (RoleBasedGroupScalingAdapterStatus_DeepCopyInto lib)"
  unfolding RoleBasedGroupScalingAdapterStatus_type_def RoleBasedGroupScalingAdapterStatus_DeepCopyInto_def
  by (rule deep_into) (simp_all add: deep_copies deep_statements)

lemma deep_RoleBasedGroupScalingAdapter [deep_copies]:
  "copy_lib_ok lib \<Longrightarrow> deep (RoleBasedGroupScalingAdapter_type lib) (RoleBasedGroupScalingAdapter_DeepCopyInto lib)"
  unfolding RoleBasedGroupScalingAdapter_type_def RoleBasedGroupScalingAdapter_DeepCopyInto_def
  by (rule deep_into) (simp_all add: deep_copies deep_statements)

lemma deep_RoleBasedGroupScalingAdapterList [deep_copies]:
  "copy_lib_ok lib \<Longrightarrow> deep (RoleBasedGroupScalingAdapterList_type lib) (RoleBasedGroupScalingAdapterList_DeepCopyInto lib)"
  unfolding RoleBasedGroupScalingAdapterList_type_def RoleBasedGroupScalingAdapterList_DeepCopyInto_def
  by (rule deep_into) (simp_all add: deep_copies deep_statements)

lemma deep_RoleBasedGroupSetSpec [deep_copies]:
  "copy_lib_ok lib \<Longrightarrow> deep (RoleBasedGroupSetSpec_type lib) (RoleBasedGroupSetSpec_DeepCopyInto lib)"
  unfolding RoleBasedGroupSetSpec_type_def RoleBasedGroupSetSpec_DeepCopyInto_def
  by (rule deep_into) (simp_all add: deep_copies deep_statements)

lemma deep_RoleBasedGroupSetStatus [deep_copies]:
  "copy_lib_ok lib \<Longrightarrow> deep (RoleBasedGroupSetStatus_type lib) (RoleBasedGroupSetStatus_DeepCopyInto lib)"
  unfolding RoleBasedGroupSetStatus_type_def RoleBasedGroupSetStatus_DeepCopyInto_def
  by (rule deep_into) (simp_all add: deep_copies deep_statements)

lemma deep_RoleBasedGroupSet [deep_copies]:
  "copy_lib_ok lib \<Longrightarrow> deep (RoleBasedGroupSet_type lib) (RoleBasedGroupSet_DeepCopyInto lib)"
  unfolding RoleBasedGroupSet_type_def RoleBasedGroupSet_DeepCopyInto_def
  by (rule deep_into) (simp_all add: deep_copies deep_statements)

lemma deep_RoleBasedGroupSetList [deep_copies]:
  "copy_lib_ok lib \<Longrightarrow> deep (RoleBasedGroupSetList_type lib) (RoleBasedGroupSetList_DeepCopyInto lib)"
  unfolding RoleBasedGroupSetList_type_def RoleBasedGroupSetList_DeepCopyInto_def
  by (rule deep_into) (simp_all add: deep_copies deep_statements)

lemmas deep_copy_defs =
  AdapterScaleTargetRef_DeepCopy_def ClusterEngineRuntimeProfileSpec_DeepCopy_def
  ClusterEngineRuntimeProfileStatus_DeepCopy_def ClusterEngineRuntimeProfile_DeepCopy_def
  ClusterEngineRuntimeProfileList_DeepCopy_def EngineRuntime_DeepCopy_def
  KubeSchedulingPodGroupPolicySource_DeepCopy_def LeaderWorkerTemplate_DeepCopy_def
  PodGroupPolicySource_DeepCopy_def PodGroupPolicy_DeepCopy_def RollingUpdate_DeepCopy_def
  RolloutStrategy_DeepCopy_def WorkloadSpec_DeepCopy_def ScalingAdapter_DeepCopy_def RoleSpec_DeepCopy_def
  RoleBasedGroupSpec_DeepCopy_def RoleStatus_DeepCopy_def RoleBasedGroupStatus_DeepCopy_def
  RoleBasedGroup_DeepCopy_def RoleBasedGroupList_DeepCopy_def
  RoleBasedGroupScalingAdapterSpec_DeepCopy_def RoleBasedGroupScalingAdapterStatus_DeepCopy_def
  RoleBasedGroupScalingAdapter_DeepCopy_def RoleBasedGroupScalingAdapterList_DeepCopy_def
  RoleBasedGroupSetSpec_DeepCopy_def RoleBasedGroupSetStatus_DeepCopy_def RoleBasedGroupSet_DeepCopy_def
  RoleBasedGroupSetList_DeepCopy_def

lemmas deep_copy_object_defs =
  ClusterEngineRuntimeProfile_DeepCopyObject_def ClusterEngineRuntimeProfileList_DeepCopyObject_def
  RoleBasedGroup_DeepCopyObject_def RoleBasedGroupList_DeepCopyObject_def
  RoleBasedGroupScalingAdapter_DeepCopyObject_def RoleBasedGroupScalingAdapterList_DeepCopyObject_def
  RoleBasedGroupSet_DeepCopyObject_def RoleBasedGroupSetList_DeepCopyObject_def

lemma deep_api_copies: "copy_lib_ok lib \<Longrightarrow> list_all (\<lambda>(T, f). deep (PointerT T) f) (api_copies lib)"
  by (simp add: api_copies_def deep_copy_defs deep_copies deep_statements)

section \<open>Independence\<close>

text \<open>A struct copy shares what its pointers and slices name: an assignment is deep for plain types only.\<close>

lemma assignment_shares:
  "assign (Pointer a) h = Some (Pointer a, h) \<and> a \<in> reach (PointerT T) h (Pointer a)"
  by (simp add: assign_def)

text \<open>\<open>DeepCopyObject\<close> returns the pointer of \<open>DeepCopy\<close> under its type, and the nil interface for nil.\<close>

lemma copy_object_result:
  "copy_object name (new_copy T f) v h = Some (x, g) \<longleftrightarrow>
     (\<exists>w. new_copy T f v h = Some (w, g) \<and> x = (if v = NilRef then NilObject else TypedObject name w))"
  by (cases v) (auto simp: copy_object_def new_copy_def allocate_def Let_def bind_eq_Some_conv
      split: prod.splits Option.bind_splits)

lemma api_objects_copy:
  assumes "(name, f, object) \<in> set (api_objects lib)"
  shows "object v h = Some (x, g) \<longleftrightarrow>
     (\<exists>w. f v h = Some (w, g) \<and> x = (if v = NilRef then NilObject else TypedObject name w))"
proof -
  from assms obtain T into where "f = new_copy T into" and "object = copy_object name f"
    by (auto simp: api_objects_def deep_copy_defs deep_copy_object_defs)
  then show ?thesis by (simp only: copy_object_result)
qed

text \<open>C33: Every \<open>DeepCopy\<close> of the package is a deep copy: called on any well-typed value it returns without a
  panic, it only adds to the store, the result stands for the same tree as the original, the two share
  no cell, and whatever is later written to cells of the one is not visible through the other.\<close>

theorem deep_copies_independent:
  assumes "copy_lib_ok lib" and "(T, copy) \<in> set (api_copies lib)"
    and "denote (PointerT T) h v = Some t"
  shows "\<exists>w g. copy v h = Some (w, h @ g) \<and> denote (PointerT T) (h @ g) w = Some t \<and>
    reach (PointerT T) (h @ g) v \<inter> reach (PointerT T) (h @ g) w = {} \<and>
    (\<forall>k. length k = length (h @ g) \<longrightarrow>
       (\<forall>a\<in>reach (PointerT T) (h @ g) v. k ! a = (h @ g) ! a) \<longrightarrow> denote (PointerT T) k v = Some t) \<and>
    (\<forall>k. length k = length (h @ g) \<longrightarrow>
       (\<forall>a\<in>reach (PointerT T) (h @ g) w. k ! a = (h @ g) ! a) \<longrightarrow> denote (PointerT T) k w = Some t)"
proof -
  from deep_api_copies [OF assms(1)] assms(2) have "deep (PointerT T) copy" by (auto simp: list_all_iff)
  then obtain w g where run: "copy v h = Some (w, h @ g)" and w: "copied (PointerT T) (length h) (h @ g) w t"
    using assms(3) by (rule deep_run)
  from w have dw: "denote (PointerT T) (h @ g) w = Some t"
    and rw: "reach (PointerT T) (h @ g) w \<subseteq> {length h..<length (h @ g)}" by (simp_all only: copied_def)
  note dv = denote_append [OF assms(3), of g]
  have "reach (PointerT T) (h @ g) v \<subseteq> {..<length h}" unfolding dv(2) using reach_bound [OF assms(3)] by blast
  with rw have "reach (PointerT T) (h @ g) v \<inter> reach (PointerT T) (h @ g) w = {}" by fastforce
  moreover have keep: "denote (PointerT T) k x = Some t"
    if "denote (PointerT T) (h @ g) x = Some t" and "length k = length (h @ g)"
      and "\<forall>a\<in>reach (PointerT T) (h @ g) x. k ! a = (h @ g) ! a" for k x
    using denote_frame [OF that(1), of k] reach_bound [OF that(1)] that(2,3) by (metis (no_types))
  ultimately show ?thesis using run dw keep [OF dv(1)] keep [OF dw] by blast
qed

text \<open>Library structs for the witness: metadata with labels, containers with arguments, a pod template with
  both.\<close>

definition sample_entries :: go_type where
  "sample_entries = SliceT (StructT [(''Key'', StringT), (''Value'', StringT)])"

definition copy_entries :: copier where
  "copy_entries = make_copy (StructT [(''Key'', StringT), (''Value'', StringT)]) assign"

definition sample_struct :: "go_type \<times> copier" where
  "sample_struct = (StructT [(''Name'', StringT), (''Entries'', sample_entries)], into [(''Entries'', copy_entries)])"

definition sample_copy_lib :: copy_lib where
  "sample_copy_lib = \<lparr>
     lib_type = (\<lambda>x. if x \<in> {LTypeMeta, LIntOrString, LTime} then StructT [(''A'', StringT), (''B'', IntT)]
       else fst sample_struct),
     lib_copy = (\<lambda>x. if x \<in> {LTypeMeta, LIntOrString, LTime} then assign else snd sample_struct),
     time_copy = new_copy (StructT [(''A'', StringT), (''B'', IntT)]) assign\<rparr>"

lemma deep_sample_struct: "deep (fst sample_struct) (snd sample_struct)"
  unfolding sample_struct_def fst_conv snd_conv
  by (rule deep_into) (simp_all add: sample_entries_def copy_entries_def deep_statements)

lemma sample_copy_lib_ok: "copy_lib_ok sample_copy_lib"
  by (simp add: copy_lib_ok_def sample_copy_lib_def deep_sample_struct deep_statements)

text \<open>A group with one role, whose replicas, dependencies and labels are cells of the store.\<close>

definition with_fields :: "(string \<times> go_val) list \<Rightarrow> go_type \<Rightarrow> go_val" where
  "with_fields xs T = foldr (\<lambda>(n, x) v. case set_field n x v of None \<Rightarrow> v | Some w \<Rightarrow> w) xs (zero_value T)"

definition sample_store :: store where
  "sample_store =
     [[with_fields [
         (''ObjectMeta'', with_fields [(''Name'', Scalar (GoString ''g'')), (''Entries'', Slice 4 0 1)] (fst sample_struct)),
         (''Spec'', with_fields [(''Roles'', Slice 1 0 1)] (RoleBasedGroupSpec_type sample_copy_lib))]
         (RoleBasedGroup_type sample_copy_lib)],
      [with_fields [(''Name'', Scalar (GoString ''a'')), (''Replicas'', Pointer 2), (''Dependencies'', Slice 3 1 1)]
         (RoleSpec_type sample_copy_lib)],
      [Scalar (GoInt 3)],
      [Scalar (GoString ''x''), Scalar (GoString ''b'')],
      [Struct [(''Key'', Scalar (GoString ''k'')), (''Value'', Scalar (GoString ''v''))]]]"

theorem deep_copies_independent_witness:
  "\<exists>w g. RoleBasedGroup_DeepCopy sample_copy_lib (Pointer 0) sample_store = Some (w, sample_store @ g) \<and>
    denote (PointerT (RoleBasedGroup_type sample_copy_lib)) (sample_store @ g) w =
      denote (PointerT (RoleBasedGroup_type sample_copy_lib)) sample_store (Pointer 0) \<and>
    denote (PointerT (RoleBasedGroup_type sample_copy_lib)) sample_store (Pointer 0) \<noteq> None"
proof -
  have "denote (PointerT (RoleBasedGroup_type sample_copy_lib)) sample_store (Pointer 0) \<noteq> None" by code_simp
  then obtain t where t: "denote (PointerT (RoleBasedGroup_type sample_copy_lib)) sample_store (Pointer 0) = Some t" by blast
  have "(RoleBasedGroup_type sample_copy_lib, RoleBasedGroup_DeepCopy sample_copy_lib) \<in> set (api_copies sample_copy_lib)"
    by (simp add: api_copies_def)
  from deep_copies_independent [OF sample_copy_lib_ok this t] t show ?thesis by auto
qed

end
