(* ===== verification/Spec2Isabelle.thy ===== *)
theory Spec2Isabelle
  imports Manager Bring_Up Panic_Freedom Restart_Protocol Status_Command Deep_Copy
begin

text \<open>
  A model of the RoleBasedGroup controllers for Kubernetes and the properties that make them correct.

  \<^bold>\<open>The program.\<close> A RoleBasedGroup lists roles (a name, a pod template, replicas, dependencies on other
  roles, the kind of workload that runs it). Four controllers and the cluster keep the workloads as the groups ask:

  \<^item> the group controller (\<open>internal/controller/workloads/rolebasedgroup_controller.go\<close>) orders the roles
    by their dependencies (\<open>pkg/dependency\<close>), settles the PodGroup of the group (\<open>pkg/scheduler\<close>), and
    for each role whose dependencies are ready has the reconciler of its workload
    (\<open>pkg/reconciler\<close>: StatefulSet, Deployment, LeaderWorkerSet) build the object, with the discovery
    configuration and environment injected (\<open>pkg/discovery\<close>), compare it with the one in the cluster
    and apply it; then it patches the group's status and deletes what no role claims;
  \<^item> the pod controller (\<open>pod_controller.go\<close>) restarts a whole group when a container of it restarted;
  \<^item> the scaling adapter controller (\<open>rolebasedgroupscalingadapter_controller.go\<close>) writes the replicas
    of an adapter to the role it is bound to;
  \<^item> the group set controller (\<open>rolebasedgroupset_controller.go\<close>) creates groups from a template;
  \<^item> the cluster's own controllers and users, which act between any two calls of the program.

  They meet in the API server only: the adapter's update of a group is an event that wakes the group
  controller, the restart condition the pod controller patches into the group is what makes it skip
  later pod events, the readiness one role's workload reports is what lets the next role start.

  \<^bold>\<open>The model.\<close> Every function is translated from its Go source, every guard and early return included.
  A struct is a record, a nil pointer \<open>None\<close>, an error an element of \<open>go_error\<close>, an \<open>int32\<close> an integer
  whose operations are wrapped in \<open>i32\<close>, and an \<open>int\<close> that sums over all roles one wrapped in \<open>i64\<close>; a run-time panic is an error that no error check catches. A
  handler is an action over the state \<open>sys\<close>: the world, the trace of the requests made, the watched
  kinds. Around the controllers stand the manager that starts them (\<open>cmd/rbgs/main.go\<close> and the
  \<open>SetupWithManager\<close> functions) and the command that prints the status of a group
  (\<open>cmd/cli/main.go\<close>). The API server is the parameter \<open>'w client\<close>, functions of an abstract world that may answer
  anything and change the world at each call; the pure library functions are the parameter \<open>klib\<close>.
  Nothing is assumed of either: the properties hold for every server, and the theorems that need a
  fact of one call state it as a hypothesis and are applied to a concrete cluster in
  \<open>Sample_Cluster\<close>.

  \<^bold>\<open>The theories.\<close>

  \<^item> \<open>Prelude\<close>: loops that return early, 32-bit and 64-bit integers, slices, maps, sorting, decimal numbers.
  \<^item> \<open>Api_Types\<close>, \<open>Api_Helpers\<close>: \<open>api/workloads/v1alpha1\<close> (types, \<open>constant.go\<close>, \<open>helper.go\<close>).
  \<^item> \<open>Kube\<close>: Kubernetes objects, the client, actions and the lemmas that bound what an action requests.
  \<^item> \<open>Utils\<close>: \<open>pkg/utils\<close> and \<open>pkg/scale\<close>.
  \<^item> \<open>Sample_Cluster\<close>: a concrete cluster and library, for the witnesses.
  \<^item> \<open>Dependency\<close>: \<open>SortRoles\<close> and \<open>dependencyOrder\<close>. The order is a permutation with dependencies
    first, it exists exactly for closed acyclic dependencies, and the search always ends. The fuel of
    \<open>visit\<close> is one more than the number of names, which is enough because a nested call always adds a
    name to the current path (\<open>visit_fuel\<close>). \<open>role_order\<close> states what the controllers rely on.
  \<^item> \<open>Rolling_Update\<close>: the rolling update of \<open>sts_reconciler.go\<close>: bounds of replicas and partition, the
    disruption a step allows, the invariant of every interleaving with the cluster, convergence,
    completion, and the one way the computation panics.
  \<^item> \<open>Equality\<close>: the comparisons of \<open>pod_reconciler.go\<close> and of the three reconcilers, with the locale
    \<open>workload_equality\<close> and its three interpretations.
  \<^item> \<open>Discovery\<close>: \<open>config_builder.go\<close>, \<open>env_builder.go\<close>, \<open>injector.go\<close>, \<open>sidecar_builder.go\<close>.
  \<^item> \<open>Pod_Template\<close>: the pod template of a role.
  \<^item> \<open>Workload_Interface\<close>: the Go interface \<open>WorkloadReconciler\<close> as a record of operations and the locale
    \<open>workload_reconciler\<close> with its contract: a reconcile writes only objects named after the role,
    readiness is reported only of a workload that was read ready, a status carries the role's name, a
    cleanup deletes only orphans, a recreation has seen the workload absent or back.
  \<^item> \<open>Sts_Reconciler\<close>, \<open>Deploy_Reconciler\<close>, \<open>Lws_Reconciler\<close>: the three implementations, each an
    interpretation of the contract. Waiting for a workload polls at most \<open>attempts\<close> more times (a
    parameter: sixty with the intervals of the source), so every operation returns.
  \<^item> \<open>Workload\<close>: \<open>NewWorkloadReconciler\<close>, the contract for whichever reconciler it chose, and
    \<open>CheckDependencyReady\<close>.
  \<^item> \<open>Pod_Group\<close>: \<open>podgroup_manager.go\<close>; \<open>RetryOnConflict\<close> retries \<open>retries\<close> times, a parameter.
  \<^item> \<open>Group_Status\<close>: conditions and role statuses; \<open>updateRBGStatus\<close> refines the update of a map.
  \<^item> \<open>Event_Filters\<close>: the predicates of the watches and \<open>podToRBG\<close>.
  \<^item> \<open>Pod_Controller\<close>, \<open>Scaling_Adapter\<close>, \<open>Group_Controller\<close>, \<open>Group_Set\<close>: the four controllers. Their
    theorems speak of the trace of a whole reconcile.
  \<^item> \<open>Group_Order\<close>: the order in which the group controller works: a role is applied only after its
    dependencies were read ready, a reconcile that succeeds went through every role, and one that
    waits does so for a role that it has gone through itself.
  \<^item> \<open>Bring_Up\<close>: several reconciles of a group in a row, the cluster acting in between: the group comes up,
    and the number of reconciles that wait is at most the number of roles with dependencies.
  \<^item> \<open>Restart_Protocol\<close>: the restart of a group as an inductive step relation that interleaves the pod
    controller, the group controller and edits over the status they share, with the answer of
    \<open>pod_to_rbg\<close> as the guard of a pod event; its invariant, the refinement by the handler, and the stale
    patch that stores the restart mark for good. Then runs of the handlers themselves, in which the pods one
    restart deletes cause the next; \<open>pods_follow_workload\<close> states what they rely on of the server.
  \<^item> \<open>Panic_Freedom\<close>: on objects that pass \<open>object_ok\<close>, no handler of any controller panics; for the
    dereferences that \<open>object_ok\<close> has to rule out and the API allows, the panic is shown.
  \<^item> \<open>Float64\<close>: IEEE 754 double precision as a type with a rounding function, for the next theory.
  \<^item> \<open>Status_Command\<close>: \<open>cmd/cli/main.go\<close>: parsing of the unstructured group, the table and the progress
    bar, in floating point as the source computes it.
  \<^item> \<open>Manager\<close>: \<open>cmd/rbgs/main.go\<close> from the parsed flags on, the watches each \<open>SetupWithManager\<close> installs,
    what the cache selects, and which events therefore reach which controller.
  \<^item> \<open>Deep_Copy\<close>: \<open>zz_generated.deepcopy.go\<close> over an explicit store with pointers and slices: every copy
    of the package stands for the same value and shares no storage with its original. The other theories
    treat objects as values, which is what these copies are for.
  \<^item> this theory: scaling through an adapter, from the adapter's reconcile to the event that wakes the
    group controller.

  \<^bold>\<open>Bounds.\<close> Theorems about 32-bit arithmetic state the range they need. Without one they hold for all
  values. A theorem about a recursion with a count (\<open>attempts\<close>, \<open>retries\<close>, the fuel of \<open>visit\<close>) holds
  for every count, except where the count is shown to suffice. \<open>bring_up_bounded\<close> counts reconciles
  and gives its bound in the roles of the group. \<open>Panic_Freedom\<close> asks that the sizes in an object stay
  below \<open>2 ^ 29\<close>, so that no intermediate sum of the rolling update leaves \<open>int32\<close>.

  \<^bold>\<open>Sharing and staleness.\<close> Objects are values in the theories of the controllers, which is right where
  the code works on deep copies (\<open>Deep_Copy\<close>). The one place where it writes through a slice it shares, the
  pod templates of a LeaderWorkerSet, is modelled as such (\<open>construct_pod_template_on\<close>, \<open>Lws_Reconciler\<close>).
  A list may be answered from a cache that lags; \<open>Group_Set\<close> shows what that does to a group set, and
  \<open>Restart_Protocol\<close> what a stale copy of a status does. A Go map is a list of entries; where a loop over
  one leaves its order visible (the selector string of an adapter), that order stands for the random one
  of the iteration.

  \<^bold>\<open>Not modelled.\<close> \<open>groupversion_info.go\<close>, \<open>version\<close> (both register constants with libraries),
  \<open>error_client.go\<close> (a test double), log output, plain constructors, and, of the two commands, the scheme,
  the logger, the version text, the wrapper that parses the command line and the lookup of a kubeconfig.
  The watch that \<open>Group_Controller\<close> adds for a workload kind is recorded as a kind in the state; its
  delivery by the running manager is not. The goroutines of the group set controller are run one after
  the other: they send the same request and share nothing. Two reconciles of one object never overlap
  (controller-runtime runs one worker per object); reconciles of different objects interleave through the
  world, which any call may change.
\<close>

section \<open>Scaling from end to end\<close>

lemma set_replicas_of_changed:
  "find (\<lambda>r. r_name r = name) rs = Some r \<Longrightarrow> r_replicas r \<noteq> Some n \<Longrightarrow>
   map r_replicas (set_replicas_of name n rs) \<noteq> map r_replicas rs"
  by (induction rs) (auto split: if_splits)

text \<open>C20: A scale through an adapter takes effect. When a reconcile of a bound adapter finds that it asks
  for other replicas than its role has, and reports success, then the server has accepted an update of
  the group (the one that was found, or one read again after a conflict) to the asked replicas, and the
  adapter has recorded them in its status. That update is an event that wakes the group controller
  unless the group read again had these replicas already, and the adapter, run on the updated group,
  is at rest.\<close>

theorem scale_wakes_group:
  assumes "do_get c KAdapter as_adapter key s = (Inr a, u)" and "om_deletion (ad_meta a) = None"
    and "as_scale_target_ref (ad_spec a) = Some ref"
    and "do_get c KRbg as_rbg (om_namespace (ad_meta a), tr_name ref) u = (Inr g, v)"
    and "get_role g (tr_role ref) = Inr role" and "contains_rbg_owner a g"
    and "at_phase (ad_status a) = AdapterPhaseBound"
    and "as_replicas (ad_spec a) = Some n" and "r_replicas role = Some m" and "n \<noteq> m"
    and "reconcile_adapter lib c retries key s = (Inr k, t)"
  shows "k = 0 \<and> (\<exists>pre h h' b ob b' now. calls b = calls v @ pre \<and>
    (h = g \<or> (\<exists>i. CGet KRbg i (Inr (ObjRbg h)) \<in> set pre)) \<and>
    h' = set_role_replicas (tr_role ref) n h \<and> do_update c as_rbg (ObjRbg h') b = (Inr ob, b') \<and>
    calls t = calls b' @ [CApplyStatus (adapter_with_status (status_with_replicas (Some n) (Some now) (ad_status a))
        (role_based_group_scaling_adapter a)), CEvent (om_name (ad_meta a)) ''SuccessfulScale''] \<and>
    (h = g \<longrightarrow> rbg_predicate (Update_Event (Some (ObjRbg h)) (Some (ObjRbg h')))) \<and>
    (\<forall>r. get_role h (tr_role ref) = Inr r \<longrightarrow>
       (r_replicas r \<noteq> Some n \<longrightarrow> rbg_predicate (Update_Event (Some (ObjRbg h)) (Some (ObjRbg h')))) \<and>
       (\<exists>r'. get_role h' (tr_role ref) = Inr r' \<and> r_replicas r' = Some n \<and>
          (contains_rbg_owner a h \<longrightarrow> (\<forall>s. reconcile_bound_adapter lib c retries
             (a\<lparr>ad_status := status_with_replicas (Some n) (Some now) (ad_status a)\<rparr>) h' r' (tr_role ref) s = (Inr 0, s))))))"
proof -
  from assms have "scale_role c retries a g (tr_role ref) n v = (Inr k, t)"
    by (simp add: reconcile_adapter_def handle_def get_target_rbg_from_adapter_def Let_def managed_iff_contains_owner
        reconcile_bound_adapter_def)
  from scale_role_accepted [OF this] obtain pre h b ob b' now where k: "k = 0" and pre: "calls b = calls v @ pre"
    and upd: "do_update c as_rbg (ObjRbg (set_role_replicas (tr_role ref) n h)) b = (Inr ob, b')"
    and h: "h = g \<or> (\<exists>i. CGet KRbg i (Inr (ObjRbg h)) \<in> set pre)"
    and t: "calls t = calls b' @ [CApplyStatus (adapter_with_status (status_with_replicas (Some n) (Some now) (ad_status a))
        (role_based_group_scaling_adapter a)), CEvent (om_name (ad_meta a)) ''SuccessfulScale'']" by blast
  let ?h = "set_role_replicas (tr_role ref) n h"
  have wakes: "rbg_predicate (Update_Event (Some (ObjRbg h)) (Some (ObjRbg ?h)))"
    if "get_role h (tr_role ref) = Inr r" and "r_replicas r \<noteq> Some n" for r
  proof -
    from that(1) have "find (\<lambda>r. r_name r = tr_role ref) (g_roles h) = Some r" by (simp add: get_role_Inr_iff)
    from set_replicas_of_changed [OF this that(2)] spec_deep_equal_roles [of "g_spec h" "g_spec ?h"] show ?thesis
      by (auto simp: assert_type_def as_rbg_def set_role_replicas_def)
  qed
  moreover have "\<exists>r'. get_role ?h (tr_role ref) = Inr r' \<and> r_replicas r' = Some n \<and>
      (contains_rbg_owner a h \<longrightarrow> (\<forall>s. reconcile_bound_adapter lib c retries
         (a\<lparr>ad_status := status_with_replicas (Some n) (Some now) (ad_status a)\<rparr>) ?h r' (tr_role ref) s = (Inr 0, s)))"
    if "get_role h (tr_role ref) = Inr r" for r
    using that assms(7,8) by (simp add: get_role_set_replicas reconcile_bound_adapter_def contains_rbg_owner_def
        return_ok_def status_with_replicas_def)
  ultimately show ?thesis
    using k pre upd h t assms(5,9,10) by (intro conjI exI [of _ pre] exI [of _ h] exI [of _ ?h] exI [of _ b]
        exI [of _ ob] exI [of _ b'] exI [of _ now]) auto
qed

theorem scale_wakes_group_witness:
  "\<exists>h'. CUpdate (ObjRbg h') \<in> set (calls (snd (reconcile_adapter sample_lib store_client 3 (''ns'', ''g-a'')
       (run_on [ObjRbg (sample_rbg [sample_role ''a'' [] 3]), ObjAdapter (sample_adapter (Some 5) AdapterPhaseBound)])))) \<and>
     rbg_predicate (Update_Event (Some (ObjRbg (sample_rbg [sample_role ''a'' [] 3]))) (Some (ObjRbg h')))"
proof -
  let ?g = "sample_rbg [sample_role ''a'' [] 3]" and ?a = "sample_adapter (Some 5) AdapterPhaseBound"
  let ?w = "run_on [ObjRbg ?g, ObjAdapter ?a]" and ?ref = "\<lparr>tr_name = ''g'', tr_role = ''a''\<rparr>"
  let ?run = "reconcile_adapter sample_lib store_client 3 (''ns'', ''g-a'') ?w"
  have "fst (do_get store_client KAdapter as_adapter (''ns'', ''g-a'') ?w) = Inr ?a" by code_simp
  then obtain u where u: "do_get store_client KAdapter as_adapter (''ns'', ''g-a'') ?w = (Inr ?a, u)"
    by (metis prod.collapse)
  have "fst (do_get store_client KRbg as_rbg (om_namespace (ad_meta ?a), ''g'')
      (snd (do_get store_client KAdapter as_adapter (''ns'', ''g-a'') ?w))) = Inr ?g" by code_simp
  then obtain v where v: "do_get store_client KRbg as_rbg (om_namespace (ad_meta ?a), tr_name ?ref) u = (Inr ?g, v)"
    unfolding u by (metis prod.collapse snd_conv adapter_scale_target_ref.select_convs(1))
  have own: "contains_rbg_owner ?a ?g" and ok: "\<not> isl (fst ?run)" and few: "length (calls (snd ?run)) = 5" by code_simp+
  then obtain k t where run: "?run = (Inr k, t)" by (cases ?run; cases "fst ?run") auto
  have role: "get_role ?g (tr_role ?ref) = Inr (sample_role ''a'' [] 3)" and facts: "r_replicas (sample_role ''a'' [] 3) = Some 3"
    "om_deletion (ad_meta ?a) = None" "as_scale_target_ref (ad_spec ?a) = Some ?ref"
    "at_phase (ad_status ?a) = AdapterPhaseBound" "as_replicas (ad_spec ?a) = Some 5"
    by (simp_all add: get_role_def sample_adapter_def sample_defs)
  have "(5::int) \<noteq> 3" by simp
  from scale_wakes_group [OF u facts(2,3) v role own facts(4,5,1) this run] obtain pre h h' b ob b' now where
    pre: "calls b = calls v @ pre" and upd: "do_update store_client as_rbg (ObjRbg h') b = (Inr ob, b')"
    and h: "h = ?g \<or> (\<exists>i. CGet KRbg i (Inr (ObjRbg h)) \<in> set pre)"
    and t: "calls t = calls b' @ [CApplyStatus (adapter_with_status (status_with_replicas (Some 5) (Some now) (ad_status ?a))
        (role_based_group_scaling_adapter ?a)), CEvent (om_name (ad_meta ?a)) ''SuccessfulScale'']"
    and wakes: "h = ?g \<longrightarrow> rbg_predicate (Update_Event (Some (ObjRbg h)) (Some (ObjRbg h')))"
    by (elim exE conjE) (rule that)
  from do_get_trace [OF u] do_get_trace [OF v] have "length (calls v) = 2" by (auto simp: run_on_def)
  with few pre do_update_last [OF upd] t run have "pre = []" by simp
  with h have "h = ?g" by simp
  with wakes do_update_last [OF upd] t run show ?thesis by (intro exI [of _ h']) simp
qed

end
